theory Spec2Isabelle
  imports Main
begin

section \<open>Basic types of the conflict resolver (libsvn\_client/conflicts.c)\<close>

text \<open>
  Revision numbers are \<open>svn_revnum_t\<close> (a C \<open>long\<close>).  The code only compares them and
  subtracts one from revisions of log entries, so they are modelled as \<open>int\<close>; the
  sentinel \<open>SVN_INVALID_REVNUM\<close> is \<open>-1\<close>.
\<close>

type_synonym svn_revnum = int

definition SVN_INVALID_REVNUM :: svn_revnum where
  "SVN_INVALID_REVNUM = -1"

datatype svn_tristate = svn_tristate_false | svn_tristate_true | svn_tristate_unknown

datatype svn_wc_operation_t =
    svn_wc_operation_none
  | svn_wc_operation_update
  | svn_wc_operation_switch
  | svn_wc_operation_merge

datatype svn_wc_conflict_action_t =
    svn_wc_conflict_action_edit
  | svn_wc_conflict_action_add
  | svn_wc_conflict_action_delete
  | svn_wc_conflict_action_replace

datatype svn_wc_conflict_reason_t =
    svn_wc_conflict_reason_edited
  | svn_wc_conflict_reason_obstructed
  | svn_wc_conflict_reason_deleted
  | svn_wc_conflict_reason_missing
  | svn_wc_conflict_reason_unversioned
  | svn_wc_conflict_reason_added
  | svn_wc_conflict_reason_replaced
  | svn_wc_conflict_reason_moved_away
  | svn_wc_conflict_reason_moved_here

datatype svn_node_kind_t =
    svn_node_none
  | svn_node_file
  | svn_node_dir
  | svn_node_unknown
  | svn_node_symlink

datatype svn_wc_conflict_kind_t =
    svn_wc_conflict_kind_text
  | svn_wc_conflict_kind_property
  | svn_wc_conflict_kind_tree

datatype svn_client_conflict_option_id_t =
    svn_client_conflict_option_undefined
  | svn_client_conflict_option_unspecified
  | svn_client_conflict_option_postpone
  | svn_client_conflict_option_base_text
  | svn_client_conflict_option_incoming_text
  | svn_client_conflict_option_working_text
  | svn_client_conflict_option_incoming_text_where_conflicted
  | svn_client_conflict_option_working_text_where_conflicted
  | svn_client_conflict_option_merged_text
  | svn_client_conflict_option_accept_current_wc_state
  | svn_client_conflict_option_update_move_destination
  | svn_client_conflict_option_update_any_moved_away_children
  | svn_client_conflict_option_merge_incoming_add_ignore
  | svn_client_conflict_option_merge_incoming_added_file_text_merge
  | svn_client_conflict_option_merge_incoming_added_file_replace
  | svn_client_conflict_option_merge_incoming_added_file_replace_and_merge
  | svn_client_conflict_option_merge_incoming_added_dir_merge
  | svn_client_conflict_option_merge_incoming_added_dir_replace
  | svn_client_conflict_option_merge_incoming_added_dir_replace_and_merge
  | svn_client_conflict_option_incoming_delete_ignore
  | svn_client_conflict_option_incoming_delete_accept

datatype svn_wc_conflict_choice_t =
    svn_wc_conflict_choose_undefined
  | svn_wc_conflict_choose_postpone
  | svn_wc_conflict_choose_base
  | svn_wc_conflict_choose_theirs_full
  | svn_wc_conflict_choose_mine_full
  | svn_wc_conflict_choose_theirs_conflict
  | svn_wc_conflict_choose_mine_conflict
  | svn_wc_conflict_choose_merged
  | svn_wc_conflict_choose_unspecified

subsection \<open>Errors\<close>

text \<open>
  An \<open>svn_error_t *\<close> is either \<open>SVN_NO_ERROR\<close> (modelled as \<open>None\<close>) or an error
  with its code \<open>apr_err\<close> and the chain of errors composed into it.  Errors raised by
  the working copy, the repository session or the file system are \<open>SVN_ERR_EXTERNAL n\<close>.
  \<open>SVN_ERR_ASSERT\<close> raises \<open>SVN_ERR_ASSERTION_FAIL\<close>; \<open>SVN_ERR_ASSERT_NO_RETURN\<close> aborts
  the process (\<open>PROCESS_ABORT\<close>); where the C code would dereference \<open>NULL\<close> or read a
  \<open>void *\<close> at the wrong type the model stops with \<open>C_UNDEFINED_BEHAVIOUR\<close>.
\<close>

datatype svn_errno =
    SVN_ERR_WC_CONFLICT_RESOLVER_FAILURE
  | SVN_ERR_CLIENT_CONFLICT_OPTION_NOT_APPLICABLE
  | SVN_ERR_ASSERTION_FAIL
  | SVN_ERR_CANCELLED
  | SVN_ERR_EXTERNAL nat
  | PROCESS_ABORT
  | C_UNDEFINED_BEHAVIOUR

datatype svn_error = Svn_error (apr_err: svn_errno) (chain: "svn_errno list")

definition svn_error_create :: "svn_errno \<Rightarrow> svn_error option" where
  "svn_error_create code = Some (Svn_error code [])"

fun svn_error_compose_create :: "svn_error option \<Rightarrow> svn_error option \<Rightarrow> svn_error option" where
  "svn_error_compose_create None err2 = err2"
| "svn_error_compose_create (Some err1) None = Some err1"
| "svn_error_compose_create (Some (Svn_error c1 ch1)) (Some (Svn_error c2 ch2)) =
     Some (Svn_error c1 (ch1 @ c2 # ch2))"

text \<open>All error codes of an error, the error itself first.\<close>

fun error_codes :: "svn_error option \<Rightarrow> svn_errno list" where
  "error_codes None = []"
| "error_codes (Some (Svn_error c ch)) = c # ch"

definition crashed :: "svn_error option \<Rightarrow> bool" where
  "crashed err = (case err of
       Some (Svn_error C_UNDEFINED_BEHAVIOUR _) \<Rightarrow> True
     | Some (Svn_error PROCESS_ABORT _) \<Rightarrow> True
     | _ \<Rightarrow> False)"


section \<open>The conflict object\<close>

text \<open>
  \<open>svn_wc_conflict_version_t\<close> and \<open>svn_wc_conflict_description2_t\<close>, the legacy
  descriptors read from the working copy (the fields the resolver reads).  The node kind
  of a version is \<open>version_node_kind\<close>, that of the description (the victim) is
  \<open>node_kind\<close>.
\<close>

record svn_wc_conflict_version_t =
  repos_url :: string
  repos_uuid :: string
  path_in_repos :: string
  peg_rev :: svn_revnum
  version_node_kind :: svn_node_kind_t

record svn_wc_conflict_description2_t =
  kind :: svn_wc_conflict_kind_t
  node_kind :: svn_node_kind_t
  property_name :: string
  mime_type :: "string option"
  operation :: svn_wc_operation_t
  action :: svn_wc_conflict_action_t
  reason :: svn_wc_conflict_reason_t
  src_left_version :: "svn_wc_conflict_version_t option"
  src_right_version :: "svn_wc_conflict_version_t option"

text \<open>
  \<open>struct repos_move_info\<close>.  Moves live in a pool; the C fields \<open>prev\<close> and \<open>next\<close> are pointers,
  modelled as indices into the list of the moves allocated in that pool.
\<close>

record repos_move_info =
  moved_from_repos_relpath :: string
  moved_to_repos_relpath :: string
  move_rev :: svn_revnum
  move_rev_author :: string
  move_copyfrom_rev :: svn_revnum
  move_prev :: "nat option"
  move_next :: "nat option"

text \<open>\<open>struct conflict_tree_local_missing_details\<close>.\<close>

record conflict_tree_local_missing_details =
  missing_deleted_rev :: svn_revnum
  missing_deleted_rev_author :: "string option"
  missing_move :: "nat option"

text \<open>\<open>struct conflict_tree_incoming_delete_details\<close>.\<close>

record conflict_tree_incoming_delete_details =
  deleted_rev :: svn_revnum
  added_rev :: svn_revnum
  repos_relpath :: "string option"
  rev_author :: "string option"
  replacing_node_kind :: svn_node_kind_t
  move :: "nat option"

text \<open>\<open>struct conflict_tree_incoming_add_details\<close>.\<close>

record conflict_tree_incoming_add_details =
  add_added_rev :: svn_revnum
  add_deleted_rev :: svn_revnum
  add_repos_relpath :: "string option"
  added_rev_author :: "string option"
  deleted_rev_author :: "string option"
  add_move :: "nat option"

text \<open>
  The field \<open>tree_conflict_incoming_details\<close> is a \<open>void *\<close>; what it points to is
  decided by the details function that stored it.  The edit details (an array of
  \<open>struct conflict_tree_incoming_edit_details\<close>) are read by the description functions
  only and are kept as the list of their revisions here.
\<close>

datatype incoming_details =
    Incoming_delete_details conflict_tree_incoming_delete_details
  | Incoming_add_details conflict_tree_incoming_add_details
  | Incoming_edit_details "svn_revnum list"

text \<open>The resolver functions an option can be bound to (\<open>conflict_option_resolve_func_t\<close>).\<close>

datatype conflict_option_resolve_func_t =
    resolve_postpone_fn
  | resolve_text_conflict_fn
  | resolve_prop_conflict_fn
  | resolve_accept_current_wc_state_fn
  | resolve_update_break_moved_away_fn
  | resolve_update_raise_moved_away_fn
  | resolve_update_moved_away_node_fn
  | resolve_merge_incoming_add_ignore_fn
  | resolve_merge_incoming_added_file_text_merge_fn
  | resolve_merge_incoming_added_file_replace_fn
  | resolve_merge_incoming_added_file_replace_and_merge_fn
  | resolve_merge_incoming_added_dir_merge_fn
  | resolve_merge_incoming_added_dir_replace_fn
  | resolve_merge_incoming_added_dir_replace_and_merge_fn
  | resolve_incoming_delete_ignore_fn
  | resolve_incoming_delete_accept_fn

text \<open>
  \<open>struct svn_client_conflict_option_t\<close>.  The localized description string and the
  back pointer to the conflict are not modelled; the C field \<open>id\<close> is \<open>option_id\<close>; \<open>propname\<close> and \<open>merged_propval\<close> are
  the members of \<open>type_data.prop\<close>.
\<close>

record svn_client_conflict_option_t =
  option_id :: svn_client_conflict_option_id_t
  do_resolve_func :: conflict_option_resolve_func_t
  propname :: "string option"
  merged_propval :: "string option"

text \<open>
  \<open>struct svn_client_conflict_t\<close>.  The two hash tables are association lists in their
  iteration order (\<open>prop_conflicts\<close> may be \<open>NULL\<close>); \<open>pool\<close> holds the moves allocated in
  the conflict's pool.  The description and details function pointers, set once by
  \<open>conflict_type_specific_setup\<close>, are determined by the descriptors and not stored.
\<close>

record svn_client_conflict_t =
  local_abspath :: string
  prop_conflicts :: "(string \<times> svn_wc_conflict_description2_t) list option"
  resolution_text :: svn_client_conflict_option_id_t
  resolution_tree :: svn_client_conflict_option_id_t
  resolved_props :: "(string \<times> svn_client_conflict_option_t) list"
  tree_conflict_incoming_details :: "incoming_details option"
  tree_conflict_local_details :: "conflict_tree_local_missing_details option"
  pool :: "repos_move_info list"
  legacy_text_conflict :: "svn_wc_conflict_description2_t option"
  legacy_prop_conflict_propname :: "string option"
  legacy_tree_conflict :: "svn_wc_conflict_description2_t option"

subsection \<open>Hash tables as association lists\<close>

text \<open>\<open>svn_hash_sets(h, k, v)\<close> with a value replaces or adds; with \<open>NULL\<close> it deletes.\<close>

fun hash_set :: "('k \<times> 'v) list \<Rightarrow> 'k \<Rightarrow> 'v \<Rightarrow> ('k \<times> 'v) list" where
  "hash_set [] k v = [(k, v)]"
| "hash_set ((k', v') # h) k v = (if k' = k then (k, v) # h else (k', v') # hash_set h k v)"

definition hash_delete :: "('k \<times> 'v) list \<Rightarrow> 'k \<Rightarrow> ('k \<times> 'v) list" where
  "hash_delete h k = filter (\<lambda>kv. fst kv \<noteq> k) h"

definition hash_get :: "('k \<times> 'v) list \<Rightarrow> 'k \<Rightarrow> 'v option" where
  "hash_get h k = map_of h k"

definition svn_hash_keys :: "('k \<times> 'v) list \<Rightarrow> 'k list" where
  "svn_hash_keys h = map fst h"

subsection \<open>Opening a conflict\<close>

definition add_legacy_desc_to_conflict ::
  "svn_wc_conflict_description2_t \<Rightarrow> svn_client_conflict_t \<Rightarrow> svn_client_conflict_t" where
  "add_legacy_desc_to_conflict desc conflict =
     (case kind desc of
        svn_wc_conflict_kind_text \<Rightarrow> conflict\<lparr>legacy_text_conflict := Some desc\<rparr>
      | svn_wc_conflict_kind_property \<Rightarrow>
          conflict\<lparr>prop_conflicts :=
                     Some (hash_set (case prop_conflicts conflict of None \<Rightarrow> [] | Some h \<Rightarrow> h)
                                    (property_name desc) desc),
                   legacy_prop_conflict_propname := Some (property_name desc)\<rparr>
      | svn_wc_conflict_kind_tree \<Rightarrow> conflict\<lparr>legacy_tree_conflict := Some desc\<rparr>)"

text \<open>
  \<open>svn_client_conflict_get\<close>: the fresh conflict object, then every descriptor that
  \<open>svn_wc__read_conflict_descriptions2_t\<close> returned for the path, in order.
\<close>

definition new_conflict :: "string \<Rightarrow> svn_client_conflict_t" where
  "new_conflict path =
     \<lparr> local_abspath = path, prop_conflicts = None,
       resolution_text = svn_client_conflict_option_unspecified,
       resolution_tree = svn_client_conflict_option_unspecified,
       resolved_props = [], tree_conflict_incoming_details = None,
       tree_conflict_local_details = None, pool = [],
       legacy_text_conflict = None, legacy_prop_conflict_propname = None,
       legacy_tree_conflict = None \<rparr>"

definition svn_client_conflict_get ::
  "(svn_error + svn_wc_conflict_description2_t list) \<Rightarrow> string
     \<Rightarrow> svn_error + svn_client_conflict_t" where
  "svn_client_conflict_get read_descs path =
     (case read_descs of
        Inl e \<Rightarrow> Inl e
      | Inr descs \<Rightarrow> Inr (fold add_legacy_desc_to_conflict descs (new_conflict path)))"

subsection \<open>Reading a conflict\<close>

definition get_conflict_desc2_t ::
  "svn_client_conflict_t \<Rightarrow> svn_wc_conflict_description2_t option" where
  "get_conflict_desc2_t conflict =
     (case legacy_text_conflict conflict of
        Some d \<Rightarrow> Some d
      | None \<Rightarrow>
         (case legacy_tree_conflict conflict of
            Some d \<Rightarrow> Some d
          | None \<Rightarrow>
             (case prop_conflicts conflict of
                None \<Rightarrow> None
              | Some h \<Rightarrow>
                 (case legacy_prop_conflict_propname conflict of
                    None \<Rightarrow> None
                  | Some p \<Rightarrow> hash_get h p))))"

text \<open>
  \<open>svn_client_conflict_get_conflicted\<close>.  Each of the three output pointers may be
  \<open>NULL\<close> (here: the flag is \<open>False\<close> and the output is \<open>None\<close>).
\<close>

definition svn_client_conflict_get_conflicted ::
  "bool \<Rightarrow> bool \<Rightarrow> bool \<Rightarrow> svn_client_conflict_t
     \<Rightarrow> bool option \<times> string list option \<times> bool option" where
  "svn_client_conflict_get_conflicted want_text want_props want_tree conflict =
     ( if want_text then Some (legacy_text_conflict conflict \<noteq> None) else None,
       if want_props then
         (case prop_conflicts conflict of
            Some h \<Rightarrow> Some (svn_hash_keys h)
          | None \<Rightarrow> Some [])
       else None,
       if want_tree then Some (legacy_tree_conflict conflict \<noteq> None) else None )"

text \<open>
  The accessors below dereference the descriptor without a check; \<open>None\<close> stands for
  the \<open>NULL\<close> dereference of a conflict object without any descriptor.
\<close>

definition svn_client_conflict_get_operation ::
  "svn_client_conflict_t \<Rightarrow> svn_wc_operation_t option" where
  "svn_client_conflict_get_operation conflict = map_option operation (get_conflict_desc2_t conflict)"

definition svn_client_conflict_get_incoming_change ::
  "svn_client_conflict_t \<Rightarrow> svn_wc_conflict_action_t option" where
  "svn_client_conflict_get_incoming_change conflict =
     map_option action (get_conflict_desc2_t conflict)"

definition svn_client_conflict_get_local_change ::
  "svn_client_conflict_t \<Rightarrow> svn_wc_conflict_reason_t option" where
  "svn_client_conflict_get_local_change conflict =
     map_option reason (get_conflict_desc2_t conflict)"

text \<open>
  \<open>svn_client_conflict_get_incoming_old_repos_location\<close> and its sibling for the new
  location: relpath (\<open>NULL\<close> without a version), peg revision and node kind.
\<close>

definition svn_client_conflict_get_incoming_old_repos_location ::
  "svn_client_conflict_t \<Rightarrow> (string option \<times> svn_revnum \<times> svn_node_kind_t) option" where
  "svn_client_conflict_get_incoming_old_repos_location conflict =
     map_option (\<lambda>d. case src_left_version d of
                        Some v \<Rightarrow> (Some (path_in_repos v), peg_rev v, version_node_kind v)
                      | None \<Rightarrow> (None, SVN_INVALID_REVNUM, svn_node_none))
                (get_conflict_desc2_t conflict)"

definition svn_client_conflict_get_incoming_new_repos_location ::
  "svn_client_conflict_t \<Rightarrow> (string option \<times> svn_revnum \<times> svn_node_kind_t) option" where
  "svn_client_conflict_get_incoming_new_repos_location conflict =
     map_option (\<lambda>d. case src_right_version d of
                        Some v \<Rightarrow> (Some (path_in_repos v), peg_rev v, version_node_kind v)
                      | None \<Rightarrow> (None, SVN_INVALID_REVNUM, svn_node_none))
                (get_conflict_desc2_t conflict)"

definition assert_text_conflict :: "svn_client_conflict_t \<Rightarrow> svn_error option" where
  "assert_text_conflict conflict =
     (if legacy_text_conflict conflict \<noteq> None then None
      else svn_error_create SVN_ERR_ASSERTION_FAIL)"

definition assert_prop_conflict :: "svn_client_conflict_t \<Rightarrow> svn_error option" where
  "assert_prop_conflict conflict =
     (case prop_conflicts conflict of
        Some h \<Rightarrow> if length (svn_hash_keys h) > 0 then None
                  else svn_error_create SVN_ERR_ASSERTION_FAIL
      | None \<Rightarrow> svn_error_create SVN_ERR_ASSERTION_FAIL)"

definition assert_tree_conflict :: "svn_client_conflict_t \<Rightarrow> svn_error option" where
  "assert_tree_conflict conflict =
     (if legacy_tree_conflict conflict \<noteq> None then None
      else svn_error_create SVN_ERR_ASSERTION_FAIL)"

text \<open>
  \<open>svn_client_conflict_tree_get_victim_node_kind\<close> and
  \<open>svn_client_conflict_text_get_mime_type\<close> abort unless the conflict is a tree
  (text) conflict; \<open>Inl\<close> is that abort.
\<close>

definition svn_client_conflict_tree_get_victim_node_kind ::
  "svn_client_conflict_t \<Rightarrow> svn_error + svn_node_kind_t" where
  "svn_client_conflict_tree_get_victim_node_kind conflict =
     (if assert_tree_conflict conflict \<noteq> None then Inl (Svn_error PROCESS_ABORT [])
      else (case get_conflict_desc2_t conflict of
              None \<Rightarrow> Inl (Svn_error C_UNDEFINED_BEHAVIOUR [])
            | Some d \<Rightarrow> Inr (node_kind d)))"

definition svn_client_conflict_text_get_mime_type ::
  "svn_client_conflict_t \<Rightarrow> svn_error + string option" where
  "svn_client_conflict_text_get_mime_type conflict =
     (if assert_text_conflict conflict \<noteq> None then Inl (Svn_error PROCESS_ABORT [])
      else (case get_conflict_desc2_t conflict of
              None \<Rightarrow> Inl (Svn_error C_UNDEFINED_BEHAVIOUR [])
            | Some d \<Rightarrow> Inr (mime_type d)))"

definition svn_client_conflict_tree_get_resolution ::
  "svn_client_conflict_t \<Rightarrow> svn_client_conflict_option_id_t" where
  "svn_client_conflict_tree_get_resolution conflict = resolution_tree conflict"

definition svn_client_conflict_text_get_resolution ::
  "svn_client_conflict_t \<Rightarrow> svn_client_conflict_option_id_t" where
  "svn_client_conflict_text_get_resolution conflict = resolution_text conflict"

definition svn_client_conflict_prop_get_resolution ::
  "svn_client_conflict_t \<Rightarrow> string \<Rightarrow> svn_client_conflict_option_id_t" where
  "svn_client_conflict_prop_get_resolution conflict name =
     (case hash_get (resolved_props conflict) name of
        None \<Rightarrow> svn_client_conflict_option_unspecified
      | Some option \<Rightarrow> option_id option)"


section \<open>Finding the revision that added a node\<close>

text \<open>
  \<open>struct find_added_rev_baton\<close> and the location-segment receiver \<open>find_added_rev\<close>.
  \<open>svn_relpath_skip_ancestor\<close> is a library function, passed in as \<open>skip_ancestor\<close>.
  \<open>svn_ra_get_location_segments\<close> calls the receiver once per reported segment, in
  the order reported.
\<close>

record find_added_rev_baton =
  baton_added_rev :: svn_revnum
  baton_repos_relpath :: "string option"
  parent_repos_relpath :: "string option"

record svn_location_segment_t =
  range_start :: svn_revnum
  range_end :: svn_revnum
  segment_path :: "string option"

definition find_added_rev ::
  "(string \<Rightarrow> string \<Rightarrow> string option) \<Rightarrow> svn_location_segment_t
     \<Rightarrow> find_added_rev_baton \<Rightarrow> find_added_rev_baton" where
  "find_added_rev skip_ancestor segment b =
     (case segment_path segment of
        None \<Rightarrow> b
      | Some path \<Rightarrow>
         if (case parent_repos_relpath b of
               None \<Rightarrow> True
             | Some parent \<Rightarrow> skip_ancestor parent path \<noteq> None)
         then b\<lparr>baton_added_rev := range_start segment, baton_repos_relpath := Some path\<rparr>
         else b)"

definition walk_location_segments ::
  "(string \<Rightarrow> string \<Rightarrow> string option) \<Rightarrow> svn_location_segment_t list
     \<Rightarrow> find_added_rev_baton \<Rightarrow> find_added_rev_baton" where
  "walk_location_segments skip_ancestor segments b = fold (find_added_rev skip_ancestor) segments b"


section \<open>Scanning the log for server-side moves\<close>

text \<open>
  \<open>svn_log_changed_path2_t\<close> and \<open>svn_log_entry_t\<close>.  \<open>changed_paths2\<close> is a hash table
  (possibly \<open>NULL\<close>), here the list of its entries in iteration order; \<open>log_author\<close> is the
  \<open>svn:author\<close> revision property (\<open>NULL\<close> when the revision has none).
\<close>

record svn_log_changed_path2_t =
  log_action :: char
  log_copyfrom_path :: "string option"
  log_copyfrom_rev :: svn_revnum
  log_node_kind :: svn_node_kind_t

record svn_log_entry_t =
  revision :: svn_revnum
  changed_paths2 :: "(string \<times> svn_log_changed_path2_t) list option"
  log_author :: "string option"

text \<open>\<open>struct copy_info\<close>.\<close>

record copy_info =
  copyto_path :: string
  copyfrom_path :: string
  copyfrom_rev :: svn_revnum

text \<open>
  The repository, as far as the scanner asks it.  \<open>get_locations path peg rev\<close> stands
  for opening a session at \<open>path\<close> and calling \<open>svn_ra_get_locations\<close> with peg revision
  \<open>peg\<close> and the single location revision \<open>rev\<close>: an error, or the location found at
  \<open>rev\<close> (if any).  \<open>has_common_ancestor\<close> stands for
  \<open>svn_client__get_youngest_common_ancestor\<close> and tells whether the ancestor found is
  not \<open>NULL\<close>.
\<close>

record ra_env =
  get_locations :: "string \<Rightarrow> svn_revnum \<Rightarrow> svn_revnum \<Rightarrow> svn_error + string option"
  has_common_ancestor :: "string \<Rightarrow> svn_revnum \<Rightarrow> string \<Rightarrow> svn_revnum \<Rightarrow> svn_error + bool"

text \<open>Skipping one leading slash (\<open>if (p[0] == '/') p++\<close>).\<close>

fun skip_leading_slash :: "string \<Rightarrow> string" where
  "skip_leading_slash [] = []"
| "skip_leading_slash (c # cs) = (if c = CHR ''/'' then cs else c # cs)"

definition check_move_ancestry ::
  "ra_env \<Rightarrow> string \<Rightarrow> svn_revnum \<Rightarrow> string \<Rightarrow> svn_revnum \<Rightarrow> svn_error + bool" where
  "check_move_ancestry ra deleted_relpath deleted_r copyfrom_p copyfrom_r =
     (case get_locations ra deleted_relpath (deleted_r - 1) copyfrom_r of
        Inl e \<Rightarrow> Inl e
      | Inr None \<Rightarrow> Inr False
      | Inr (Some deleted_location) \<Rightarrow> Inr (skip_leading_slash deleted_location = copyfrom_p))"

text \<open>
  The state of the scan: \<open>moves_table\<close> (revision to the moves of that revision, as
  pointers into the pool), the transient \<open>moved_paths\<close> (moved-from path to the head of
  its chain) and the moves allocated so far.  A new move gets the next free index.
\<close>

record scan_state =
  moves_table :: "(svn_revnum \<times> nat list) list"
  moved_paths :: "(string \<times> nat) list"
  result_pool :: "repos_move_info list"

definition deref :: "repos_move_info list \<Rightarrow> nat \<Rightarrow> repos_move_info option" where
  "deref ms p = (if p < length ms then Some (ms ! p) else None)"

text \<open>Making the move the head of \<open>moved_paths\<close> and adding it to the list of its
  revision in \<open>moves_table\<close> (the end of the loop body).\<close>

definition record_move :: "repos_move_info \<Rightarrow> scan_state \<Rightarrow> scan_state" where
  "record_move m st =
     (let p = length (result_pool st) in
      st\<lparr> result_pool := result_pool st @ [m],
          moved_paths := hash_set (moved_paths st) (moved_from_repos_relpath m) p,
          moves_table :=
            hash_set (moves_table st) (move_rev m)
              ((case hash_get (moves_table st) (move_rev m) of None \<Rightarrow> [] | Some moves \<Rightarrow> moves)
               @ [p]) \<rparr>)"

text \<open>Prepending the new move (which will get index \<open>length (result_pool st)\<close>) to the
  chain of \<open>next_move\<close>: \<open>next_move->prev = move\<close>.\<close>

definition set_prev :: "nat \<Rightarrow> scan_state \<Rightarrow> scan_state" where
  "set_prev next_p st =
     st\<lparr> result_pool :=
           (result_pool st)[next_p := (result_pool st ! next_p)
                                        \<lparr>move_prev := Some (length (result_pool st))\<rparr>] \<rparr>"

text \<open>The body of the inner loop of \<open>find_moves_in_revision\<close>, for one deleted path and
  one copy with that source path.\<close>

definition find_move_for_copy ::
  "ra_env \<Rightarrow> svn_log_entry_t \<Rightarrow> string \<Rightarrow> copy_info \<Rightarrow> scan_state
     \<Rightarrow> svn_error option \<times> scan_state" where
  "find_move_for_copy ra log_entry deleted_relpath copy st =
     (case check_move_ancestry ra deleted_relpath (revision log_entry)
             (copyfrom_path copy) (copyfrom_rev copy) of
        Inl e \<Rightarrow> (Some e, st)
      | Inr related \<Rightarrow>
         if \<not> related then (None, st)
         else
          (case log_author log_entry of
             None \<Rightarrow> (Some (Svn_error C_UNDEFINED_BEHAVIOUR []), st)
           | Some a \<Rightarrow>
              (let m = \<lparr> moved_from_repos_relpath = deleted_relpath,
                         moved_to_repos_relpath = copyto_path copy,
                         move_rev = revision log_entry,
                         move_rev_author = a,
                         move_copyfrom_rev = copyfrom_rev copy,
                         move_prev = None, move_next = None \<rparr>
               in case hash_get (moved_paths st) (moved_to_repos_relpath m) of
                    None \<Rightarrow> (None, record_move m st)
                  | Some next_p \<Rightarrow>
                     (case deref (result_pool st) next_p of
                        None \<Rightarrow> (Some (Svn_error C_UNDEFINED_BEHAVIOUR []), st)
                      | Some next_move \<Rightarrow>
                         (case check_move_ancestry ra (moved_from_repos_relpath next_move)
                                 (move_rev next_move) (moved_from_repos_relpath m)
                                 (move_copyfrom_rev m) of
                            Inl e \<Rightarrow> (Some e, st)
                          | Inr related_next \<Rightarrow>
                             if related_next then
                               (if move_rev m < move_rev next_move
                                then (None, record_move (m\<lparr>move_next := Some next_p\<rparr>)
                                              (set_prev next_p st))
                                else (svn_error_create SVN_ERR_ASSERTION_FAIL, st))
                             else (None, record_move m st))))))"

fun find_moves_for_copies ::
  "ra_env \<Rightarrow> svn_log_entry_t \<Rightarrow> string \<Rightarrow> copy_info list \<Rightarrow> scan_state
     \<Rightarrow> svn_error option \<times> scan_state" where
  "find_moves_for_copies ra log_entry deleted_relpath [] st = (None, st)"
| "find_moves_for_copies ra log_entry deleted_relpath (copy # copies_with_same_source_path) st =
     (case find_move_for_copy ra log_entry deleted_relpath copy st of
        (Some e, st') \<Rightarrow> (Some e, st')
      | (None, st') \<Rightarrow>
          find_moves_for_copies ra log_entry deleted_relpath copies_with_same_source_path st')"

fun find_moves_in_revision ::
  "ra_env \<Rightarrow> svn_log_entry_t \<Rightarrow> (string \<times> copy_info list) list \<Rightarrow> string list \<Rightarrow> scan_state
     \<Rightarrow> svn_error option \<times> scan_state" where
  "find_moves_in_revision ra log_entry copies [] st = (None, st)"
| "find_moves_in_revision ra log_entry copies (deleted_relpath # deleted_paths) st =
     (case hash_get copies deleted_relpath of
        None \<Rightarrow> find_moves_in_revision ra log_entry copies deleted_paths st
      | Some copies_with_same_source_path \<Rightarrow>
         (case find_moves_for_copies ra log_entry deleted_relpath
                 copies_with_same_source_path st of
            (Some e, st') \<Rightarrow> (Some e, st')
          | (None, st') \<Rightarrow> find_moves_in_revision ra log_entry copies deleted_paths st'))"

subsection \<open>The log receiver\<close>

text \<open>
  \<open>struct find_deleted_rev_baton\<close>: what the caller asks for, the results, and the
  state of the move scan.
\<close>

record find_deleted_rev_baton =
  deleted_repos_relpath :: string
  related_repos_relpath :: "string option"
  related_repos_peg_rev :: svn_revnum
  baton_deleted_rev :: svn_revnum
  baton_deleted_rev_author :: "string option"
  baton_replacing_node_kind :: svn_node_kind_t
  scan :: scan_state

text \<open>
  The loop of \<open>find_deleted_rev\<close> over the changed paths of one revision.  It collects
  the copies by source path and the deleted paths, and looks for the deleted node.  Its
  state: the copies, the deleted paths, \<open>deleted_node_found\<close> and the baton.
\<close>

type_synonym changed_paths_state =
  "(string \<times> copy_info list) list \<times> string list \<times> bool \<times> find_deleted_rev_baton"

definition add_copy ::
  "string \<Rightarrow> svn_log_changed_path2_t \<Rightarrow> (string \<times> copy_info list) list
     \<Rightarrow> (string \<times> copy_info list) list" where
  "add_copy changed_path log_item copies =
     (case log_copyfrom_path log_item of
        None \<Rightarrow> copies
      | Some from_path \<Rightarrow>
         if log_action log_item = CHR ''A'' then
           (let source = skip_leading_slash from_path;
                copy = \<lparr> copyto_path = changed_path, copyfrom_path = source,
                         copyfrom_rev = log_copyfrom_rev log_item \<rparr>
            in hash_set copies source
                 ((case hash_get copies source of None \<Rightarrow> [] | Some cs \<Rightarrow> cs) @ [copy]))
         else copies)"

definition is_deletion :: "svn_log_changed_path2_t \<Rightarrow> bool" where
  "is_deletion log_item = (log_action log_item = CHR ''D'' \<or> log_action log_item = CHR ''R'')"

definition changed_path_step ::
  "ra_env \<Rightarrow> svn_log_entry_t \<Rightarrow> string \<times> svn_log_changed_path2_t \<Rightarrow> changed_paths_state
     \<Rightarrow> svn_error option \<times> changed_paths_state" where
  "changed_path_step ra log_entry entry state =
     (case entry of (key, log_item) \<Rightarrow>
      case state of (copies, deleted_paths, deleted_node_found, b) \<Rightarrow>
       (let changed_path = skip_leading_slash key;
            copies' = add_copy changed_path log_item copies;
            deleted_paths' = (if is_deletion log_item then deleted_paths @ [changed_path]
                              else deleted_paths)
        in if \<not> deleted_node_found \<and> deleted_repos_relpath b = changed_path
              \<and> is_deletion log_item
           then
            (case (if related_repos_relpath b \<noteq> None
                      \<and> related_repos_peg_rev b \<noteq> SVN_INVALID_REVNUM
                   then has_common_ancestor ra (the (related_repos_relpath b))
                          (related_repos_peg_rev b) (deleted_repos_relpath b)
                          (revision log_entry - 1)
                   else Inr True) of
               Inl e \<Rightarrow> (Some e, (copies', deleted_paths', True, b))
             | Inr found \<Rightarrow>
                if found then
                  (case log_author log_entry of
                     None \<Rightarrow> (Some (Svn_error C_UNDEFINED_BEHAVIOUR []),
                               (copies', deleted_paths', True,
                                b\<lparr>baton_deleted_rev := revision log_entry\<rparr>))
                   | Some a \<Rightarrow>
                      (None, (copies', deleted_paths', True,
                              b\<lparr> baton_deleted_rev := revision log_entry,
                                 baton_deleted_rev_author := Some a,
                                 baton_replacing_node_kind :=
                                   (if log_action log_item = CHR ''R''
                                    then log_node_kind log_item else svn_node_none) \<rparr>)))
                else (None, (copies', deleted_paths', False, b)))
           else (None, (copies', deleted_paths', deleted_node_found, b))))"

fun changed_paths_loop ::
  "ra_env \<Rightarrow> svn_log_entry_t \<Rightarrow> (string \<times> svn_log_changed_path2_t) list
     \<Rightarrow> changed_paths_state \<Rightarrow> svn_error option \<times> changed_paths_state" where
  "changed_paths_loop ra log_entry [] state = (None, state)"
| "changed_paths_loop ra log_entry (entry # entries) state =
     (case changed_path_step ra log_entry entry state of
        (Some e, state') \<Rightarrow> (Some e, state')
      | (None, state') \<Rightarrow> changed_paths_loop ra log_entry entries state')"

definition find_deleted_rev ::
  "ra_env \<Rightarrow> svn_log_entry_t \<Rightarrow> find_deleted_rev_baton
     \<Rightarrow> svn_error option \<times> find_deleted_rev_baton" where
  "find_deleted_rev ra log_entry b =
     (case changed_paths2 log_entry of
        None \<Rightarrow> (None, b)
      | Some entries \<Rightarrow>
         (case changed_paths_loop ra log_entry entries ([], [], False, b) of
            (Some e, (copies, deleted_paths, deleted_node_found, b')) \<Rightarrow> (Some e, b')
          | (None, (copies, deleted_paths, deleted_node_found, b')) \<Rightarrow>
             (case find_moves_in_revision ra log_entry copies deleted_paths (scan b') of
                (Some e, st) \<Rightarrow> (Some e, b'\<lparr>scan := st\<rparr>)
              | (None, st) \<Rightarrow>
                 if deleted_node_found
                 then (svn_error_create SVN_ERR_CANCELLED, b'\<lparr>scan := st\<rparr>)
                 else (None, b'\<lparr>scan := st\<rparr>))))"

text \<open>\<open>svn_ra_get_log2\<close> hands the log entries to the receiver one after the other and
  stops at the first error of the receiver.\<close>

fun receive_log ::
  "ra_env \<Rightarrow> svn_log_entry_t list \<Rightarrow> find_deleted_rev_baton
     \<Rightarrow> svn_error option \<times> find_deleted_rev_baton" where
  "receive_log ra [] b = (None, b)"
| "receive_log ra (log_entry # log_entries) b =
     (case find_deleted_rev ra log_entry b of
        (Some e, b') \<Rightarrow> (Some e, b')
      | (None, b') \<Rightarrow> receive_log ra log_entries b')"

definition empty_scan :: scan_state where
  "empty_scan = \<lparr> moves_table = [], moved_paths = [], result_pool = [] \<rparr>"

subsection \<open>Walking a chain of moves\<close>

text \<open>
  Following \<open>move->next\<close> from the move at \<open>p\<close>, as the \<open>while (move)\<close> loop of
  \<open>append_moved_to_chain_description\<close> does: the moves visited, or \<open>None\<close> when the walk
  has not reached the end of the chain after \<open>fuel\<close> moves (or leaves the pool).
\<close>

fun chain_from :: "repos_move_info list \<Rightarrow> nat \<Rightarrow> nat \<Rightarrow> nat list option" where
  "chain_from ms 0 p = None"
| "chain_from ms (Suc fuel) p =
     (case deref ms p of
        None \<Rightarrow> None
      | Some m \<Rightarrow>
         (case move_next m of
            None \<Rightarrow> Some [p]
          | Some q \<Rightarrow> map_option (\<lambda>rest. p # rest) (chain_from ms fuel q)))"

text \<open>The invariant of the pool: a \<open>next\<close> pointer leads to an older allocation with a
  younger revision, a \<open>prev\<close> pointer to a move of the pool with an older revision.\<close>

definition moves_linked_ok :: "repos_move_info list \<Rightarrow> bool" where
  "moves_linked_ok ms =
     (\<forall>p < length ms.
        (\<forall>q. move_next (ms ! p) = Some q \<longrightarrow> q < p \<and> move_rev (ms ! p) < move_rev (ms ! q))
        \<and> (\<forall>q. move_prev (ms ! p) = Some q \<longrightarrow>
               q < length ms \<and> move_rev (ms ! q) < move_rev (ms ! p)))"


subsection \<open>A sample history\<close>

text \<open>
  A repository in which one file was renamed three times: \<open>a\<close> to \<open>b\<close> in r3, \<open>b\<close> to
  \<open>c\<close> in r5 and \<open>c\<close> to \<open>d\<close> in r8.  Tracing any of these paths back leads to \<open>a\<close> up
  to r2, to \<open>b\<close> up to r4 and to \<open>c\<close> up to r7.
\<close>

definition sample_ra :: ra_env where
  "sample_ra =
     \<lparr> get_locations = (\<lambda>path peg rev.
          Inr (Some (if rev \<le> 2 then ''/a'' else if rev \<le> 4 then ''/b'' else ''/c''))),
       has_common_ancestor = (\<lambda>path1 rev1 path2 rev2. Inr True) \<rparr>"

text \<open>The log entry of a revision \<open>r\<close> that deletes \<open>src\<close> and adds \<open>dst\<close> as a copy of
  \<open>src\<close> at revision \<open>cr\<close>.\<close>

definition move_entry :: "svn_revnum \<Rightarrow> string \<Rightarrow> svn_revnum \<Rightarrow> string \<Rightarrow> svn_log_entry_t" where
  "move_entry r src cr dst =
     \<lparr> revision = r,
       changed_paths2 = Some
         [(CHR ''/'' # src,
           \<lparr> log_action = CHR ''D'', log_copyfrom_path = None,
             log_copyfrom_rev = SVN_INVALID_REVNUM, log_node_kind = svn_node_file \<rparr>),
          (CHR ''/'' # dst,
           \<lparr> log_action = CHR ''A'', log_copyfrom_path = Some (CHR ''/'' # src),
             log_copyfrom_rev = cr, log_node_kind = svn_node_file \<rparr>)],
       log_author = Some ''jrandom'' \<rparr>"

definition sample_log :: "svn_log_entry_t list" where
  "sample_log = [move_entry 8 ''c'' 7 ''d'', move_entry 5 ''b'' 4 ''c'', move_entry 3 ''a'' 2 ''b'']"

definition sample_baton :: find_deleted_rev_baton where
  "sample_baton =
     \<lparr> deleted_repos_relpath = ''zeta'', related_repos_relpath = None,
       related_repos_peg_rev = SVN_INVALID_REVNUM, baton_deleted_rev = SVN_INVALID_REVNUM,
       baton_deleted_rev_author = None, baton_replacing_node_kind = svn_node_unknown,
       scan = empty_scan \<rparr>"

definition sample_move :: "string \<Rightarrow> string \<Rightarrow> svn_revnum \<Rightarrow> svn_revnum \<Rightarrow> nat option \<Rightarrow> nat option
    \<Rightarrow> repos_move_info" where
  "sample_move src dst r cr prev_p next_p =
     \<lparr> moved_from_repos_relpath = src, moved_to_repos_relpath = dst, move_rev = r,
       move_rev_author = ''jrandom'', move_copyfrom_rev = cr,
       move_prev = prev_p, move_next = next_p \<rparr>"

definition sample_scanned :: find_deleted_rev_baton where
  "sample_scanned =
     sample_baton
       \<lparr> scan := \<lparr> moves_table = [(8, [0]), (5, [1]), (3, [2])],
                   moved_paths = [(''c'', 0), (''b'', 1), (''a'', 2)],
                   result_pool = [sample_move ''c'' ''d'' 8 7 (Some 1) None,
                                  sample_move ''b'' ''c'' 5 4 (Some 2) (Some 0),
                                  sample_move ''a'' ''b'' 3 2 None (Some 1)] \<rparr> \<rparr>"

subsection \<open>What the scan of one revision should record\<close>

text \<open>The list of moves of a revision in \<open>moves_table\<close> (empty when there is none).\<close>

definition moves_in :: "scan_state \<Rightarrow> svn_revnum \<Rightarrow> nat list" where
  "moves_in st r = (case hash_get (moves_table st) r of None \<Rightarrow> [] | Some moves \<Rightarrow> moves)"

text \<open>What identifies a move: source, target, revision, author and copyfrom revision.\<close>

type_synonym move_key = "string \<times> string \<times> svn_revnum \<times> string option \<times> svn_revnum"

definition move_key :: "repos_move_info \<Rightarrow> move_key" where
  "move_key m =
     (moved_from_repos_relpath m, moved_to_repos_relpath m, move_rev m,
      Some (move_rev_author m), move_copyfrom_rev m)"

text \<open>
  The specification of the scan, in its own words: a copy is ancestry-verified when
  \<open>get_locations\<close> traces the node at the deleted path in revision \<open>rev - 1\<close> back to the
  copy's \<open>copyfrom_path\<close> at its \<open>copyfrom_rev\<close>; every deleted path, in order, yields one
  move for each verified copy of that path, in order.
\<close>

definition spec_ancestry_verified :: "ra_env \<Rightarrow> string \<Rightarrow> svn_revnum \<Rightarrow> copy_info \<Rightarrow> bool" where
  "spec_ancestry_verified ra deleted_relpath revnum copy =
     (case get_locations ra deleted_relpath (revnum - 1) (copyfrom_rev copy) of
        Inr (Some location) \<Rightarrow> skip_leading_slash location = copyfrom_path copy
      | Inr None \<Rightarrow> False
      | Inl e \<Rightarrow> False)"

definition spec_moves_of_revision ::
  "ra_env \<Rightarrow> svn_log_entry_t \<Rightarrow> (string \<times> copy_info list) list \<Rightarrow> string list
     \<Rightarrow> move_key list" where
  "spec_moves_of_revision ra log_entry copies deleted_paths =
     concat (map (\<lambda>deleted_relpath.
                    map (\<lambda>copy. (deleted_relpath, copyto_path copy, revision log_entry,
                                  log_author log_entry, copyfrom_rev copy))
                      (filter (spec_ancestry_verified ra deleted_relpath (revision log_entry))
                         (case hash_get copies deleted_relpath of
                            None \<Rightarrow> [] | Some cs \<Rightarrow> cs)))
                 deleted_paths)"

text \<open>
  A revision r6 of the sample history that deletes \<open>q\<close> and \<open>b\<close> and adds \<open>x\<close>, \<open>y\<close> and
  \<open>z\<close> as copies of \<open>b\<close> at r4, r5 and r3, and \<open>w\<close> as a copy of \<open>n\<close> at r4.  The node
  deleted at \<open>b\<close> was at \<open>b\<close> in r3 and r4 but not in r5.
\<close>

definition sample_copy :: "string \<Rightarrow> string \<Rightarrow> svn_revnum \<Rightarrow> copy_info" where
  "sample_copy dst src cr = \<lparr> copyto_path = dst, copyfrom_path = src, copyfrom_rev = cr \<rparr>"

definition sample_copies :: "(string \<times> copy_info list) list" where
  "sample_copies =
     [(''b'', [sample_copy ''x'' ''b'' 4, sample_copy ''y'' ''b'' 5, sample_copy ''z'' ''b'' 3]),
      (''n'', [sample_copy ''w'' ''n'' 4])]"

definition sample_entry :: svn_log_entry_t where
  "sample_entry = \<lparr> revision = 6, changed_paths2 = Some [], log_author = Some ''jrandom'' \<rparr>"

definition sample_found :: scan_state where
  "sample_found =
     \<lparr> moves_table = [(6, [0, 1])],
       moved_paths = [(''b'', 1)],
       result_pool = [sample_move ''b'' ''x'' 6 4 None None,
                      sample_move ''b'' ''z'' 6 3 None None] \<rparr>"

text \<open>The log entry of a revision r6 of the sample history that moves \<open>b\<close> to \<open>x\<close> and has
  no \<open>svn:author\<close> property.\<close>

definition sample_anonymous_entry :: svn_log_entry_t where
  "sample_anonymous_entry = (move_entry 6 ''b'' 4 ''x'')\<lparr>log_author := None\<rparr>"

section \<open>Listing the revisions of an incoming edit\<close>

text \<open>\<open>struct conflict_tree_incoming_edit_details\<close>.\<close>

record conflict_tree_incoming_edit_details =
  rev :: svn_revnum
  author :: string
  text_modified :: svn_tristate
  props_modified :: svn_tristate
  children_modified :: svn_tristate
  edit_repos_relpath :: string

text \<open>
  \<open>describe_incoming_edit_list_modified_revs\<close> grows its result by one
  \<open>apr_psprintf\<close> per emitted piece.  A piece is either a revision item
  (format \<open>"%s r%ld by %s%s"\<close>: revision, author, and whether a comma follows) or the
  placeholder (format \<open>"%s\n [%d revisions omitted for brevity],\n"\<close>).
\<close>

datatype segment =
    Rev_item svn_revnum string bool
  | Omitted int

definition min_revs_for_skipping :: int where
  "min_revs_for_skipping = 5"

definition max_revs_to_display :: int where
  "max_revs_to_display = 8"

definition num_revs_to_skip :: "conflict_tree_incoming_edit_details list \<Rightarrow> int" where
  "num_revs_to_skip edits =
     (let nelts = int (length edits) in
      if nelts \<le> max_revs_to_display then 0
      else (let n = nelts - max_revs_to_display in
            if n < min_revs_for_skipping then 0 else n))"

definition rev_item :: "conflict_tree_incoming_edit_details list \<Rightarrow> nat \<Rightarrow> segment" where
  "rev_item edits i =
     Rev_item (rev (edits ! i)) (author (edits ! i)) (int i < int (length edits) - 1)"

text \<open>The body of the \<open>for\<close> loop at index \<open>i < edits->nelts\<close>: the pieces it appends.\<close>

definition list_revs_body ::
  "conflict_tree_incoming_edit_details list \<Rightarrow> nat \<Rightarrow> segment list" where
  "list_revs_body edits i =
     (let nelts = int (length edits); skip = num_revs_to_skip edits in
      if skip > 0 then
        (if int i < max_revs_to_display div 2 then [rev_item edits i]
         else if int i \<ge> max_revs_to_display div 2 \<and>
                 int i < nelts - (max_revs_to_display div 2) then []
         else (if int i = nelts - (max_revs_to_display div 2) then [Omitted skip] else [])
              @ [rev_item edits i])
      else [rev_item edits i])"

definition describe_incoming_edit_list_modified_revs ::
  "conflict_tree_incoming_edit_details list \<Rightarrow> segment list" where
  "describe_incoming_edit_list_modified_revs edits =
     fold (\<lambda>i s. s @ list_revs_body edits i) [0..<length edits] []"

text \<open>The text of a piece, as the format strings print it.\<close>

fun digit_char :: "nat \<Rightarrow> char" where
  "digit_char n = char_of (48 + n)"

function string_of_nat :: "nat \<Rightarrow> string" where
  "string_of_nat n = (if n < 10 then [digit_char n]
                      else string_of_nat (n div 10) @ [digit_char (n mod 10)])"
  by pat_completeness auto
termination
  by (relation "measure (\<lambda>n. n)") auto

definition string_of_int :: "int \<Rightarrow> string" where
  "string_of_int i = (if i < 0 then CHR ''-'' # string_of_nat (nat (- i)) else string_of_nat (nat i))"

fun render_segment :: "segment \<Rightarrow> string" where
  "render_segment (Rev_item r a comma) =
     '' r'' @ string_of_int r @ '' by '' @ a @ (if comma then '','' else '''')"
| "render_segment (Omitted n) =
     [CHR 0x0A] @ '' ['' @ string_of_int n @ '' revisions omitted for brevity],'' @ [CHR 0x0A]"

definition describe_incoming_edit_list_modified_revs_text ::
  "conflict_tree_incoming_edit_details list \<Rightarrow> string" where
  "describe_incoming_edit_list_modified_revs_text edits =
     concat (map render_segment (describe_incoming_edit_list_modified_revs edits))"

definition is_placeholder :: "segment \<Rightarrow> bool" where
  "is_placeholder s = (case s of Omitted _ \<Rightarrow> True | Rev_item _ _ _ \<Rightarrow> False)"

text \<open>A sample list of thirteen modifying revisions, r1 .. r13.\<close>

definition sample_edit :: "nat \<Rightarrow> conflict_tree_incoming_edit_details" where
  "sample_edit n = \<lparr> rev = int n, author = ''jrandom'', text_modified = svn_tristate_true,
     props_modified = svn_tristate_false, children_modified = svn_tristate_unknown,
     edit_repos_relpath = ''trunk/iota'' \<rparr>"

definition thirteen_edits :: "conflict_tree_incoming_edit_details list" where
  "thirteen_edits = map sample_edit [1, 2, 3, 4, 5, 6, 7, 8, 9, 10, 11, 12, 13]"


section \<open>The working copy and the repository as an environment\<close>

text \<open>
  The resolver reaches the working-copy library, the repository access layer and the file
  system through calls whose code is not part of conflicts.c.  A \<open>wc_call\<close> names such
  a call; the environment says which calls fail (\<open>fails\<close>) and what the read-only
  queries report.  A resolver returns, besides its error and the updated conflict object,
  the list of the calls it made, in order.  Notifications and
  \<open>svn_io_sleep_for_timestamps\<close> neither fail nor touch the conflict object and are
  left out.
\<close>

datatype wc_call =
    Wc_acquire_write_lock_for_resolve
  | Wc_release_write_lock
  | Wc_conflict_text_mark_resolved svn_wc_conflict_choice_t
  | Wc_conflict_prop_mark_resolved "string option" svn_wc_conflict_choice_t
  | Wc_del_tree_conflict
  | Wc_conflict_tree_update_break_moved_away
  | Wc_conflict_tree_update_raise_moved_away
  | Wc_conflict_tree_update_moved_away_node
  | Wc_get_wcroot
  | Wc_node_get_origin
  | Io_check_path
  | Wc_get_tmpdir
  | Io_open_unique_file nat
  | Stream_open_readonly
  | Stream_copy
  | Io_file_flush nat
  | Wc_prop_list
  | Ra_open_session
  | Ra_get_file
  | Stream_close
  | Stream_reset
  | Prop_diffs
  | Wc_merge
  | Wc_delete
  | Wc_add_repos_file
  | Client_merge_locked
  | Client_make_merge_conflict_error
  | Client_checkout_internal
  | Wc_copy
  | Wc_acquire_write_lock
  | Wc_remove_from_revision_control
  | Io_file_rename
  | Wc_node_get_base
  | Ra_reparent
  | Ra_get_location_segments

record wc_env =
  fails :: "wc_call \<Rightarrow> svn_error option"
  node_origin :: "bool \<times> svn_revnum \<times> string"
  on_disk_kind :: svn_node_kind_t
  svn_mime_type_is_binary :: "string \<Rightarrow> bool"
  node_base :: "svn_revnum \<times> string"
  location_segments :: "svn_location_segment_t list"
  svn_relpath_skip_ancestor :: "string \<Rightarrow> string \<Rightarrow> string option"
  svn_relpath_dirname :: "string \<Rightarrow> string"

type_synonym resolve_result = "svn_error option \<times> svn_client_conflict_t \<times> wc_call list"

text \<open>A run of calls, each under \<open>SVN_ERR\<close> (or followed by \<open>if (err) goto unlock_wc\<close>):
  it stops at the first call that fails.\<close>

fun run_calls :: "wc_env \<Rightarrow> wc_call list \<Rightarrow> svn_error option \<times> wc_call list" where
  "run_calls env [] = (None, [])"
| "run_calls env (c # cs) =
     (case fails env c of
        Some e \<Rightarrow> (Some e, [c])
      | None \<Rightarrow> (case run_calls env cs of (err, tr) \<Rightarrow> (err, c # tr)))"

definition conflict_option_id_to_wc_conflict_choice ::
  "svn_client_conflict_option_id_t \<Rightarrow> svn_wc_conflict_choice_t" where
  "conflict_option_id_to_wc_conflict_choice oid =
     (case oid of
        svn_client_conflict_option_undefined \<Rightarrow> svn_wc_conflict_choose_undefined
      | svn_client_conflict_option_postpone \<Rightarrow> svn_wc_conflict_choose_postpone
      | svn_client_conflict_option_base_text \<Rightarrow> svn_wc_conflict_choose_base
      | svn_client_conflict_option_incoming_text \<Rightarrow> svn_wc_conflict_choose_theirs_full
      | svn_client_conflict_option_working_text \<Rightarrow> svn_wc_conflict_choose_mine_full
      | svn_client_conflict_option_incoming_text_where_conflicted \<Rightarrow>
          svn_wc_conflict_choose_theirs_conflict
      | svn_client_conflict_option_working_text_where_conflicted \<Rightarrow>
          svn_wc_conflict_choose_mine_conflict
      | svn_client_conflict_option_merged_text \<Rightarrow> svn_wc_conflict_choose_merged
      | svn_client_conflict_option_unspecified \<Rightarrow> svn_wc_conflict_choose_unspecified
      | _ \<Rightarrow> svn_wc_conflict_choose_undefined)"

section \<open>The resolvers\<close>

text \<open>The common ending: \<open>SVN_ERR(err); conflict->resolution_tree = option id;\<close>.\<close>

definition set_resolution_tree ::
  "svn_error option \<Rightarrow> svn_client_conflict_option_t \<Rightarrow> svn_client_conflict_t \<Rightarrow> wc_call list
     \<Rightarrow> resolve_result" where
  "set_resolution_tree err option conflict tr =
     (case err of
        Some e \<Rightarrow> (Some e, conflict, tr)
      | None \<Rightarrow> (None, conflict\<lparr>resolution_tree := option_id option\<rparr>, tr))"

definition resolve_postpone ::
  "wc_env \<Rightarrow> svn_client_conflict_option_t \<Rightarrow> svn_client_conflict_t \<Rightarrow> resolve_result" where
  "resolve_postpone env option conflict = (None, conflict, [])"

definition resolve_text_conflict ::
  "wc_env \<Rightarrow> svn_client_conflict_option_t \<Rightarrow> svn_client_conflict_t \<Rightarrow> resolve_result" where
  "resolve_text_conflict env option conflict =
     (let conflict_choice = conflict_option_id_to_wc_conflict_choice (option_id option) in
      case fails env Wc_acquire_write_lock_for_resolve of
        Some e \<Rightarrow> (Some e, conflict, [Wc_acquire_write_lock_for_resolve])
      | None \<Rightarrow>
         (let err = fails env (Wc_conflict_text_mark_resolved conflict_choice);
              err = svn_error_compose_create err (fails env Wc_release_write_lock);
              tr = [Wc_acquire_write_lock_for_resolve,
                    Wc_conflict_text_mark_resolved conflict_choice, Wc_release_write_lock]
          in case err of
               Some e \<Rightarrow> (Some e, conflict, tr)
             | None \<Rightarrow> (None, conflict\<lparr>resolution_text := option_id option\<rparr>, tr)))"

definition resolve_prop_conflict ::
  "wc_env \<Rightarrow> svn_client_conflict_option_t \<Rightarrow> svn_client_conflict_t \<Rightarrow> resolve_result" where
  "resolve_prop_conflict env option conflict =
     (let conflict_choice = conflict_option_id_to_wc_conflict_choice (option_id option) in
      case fails env Wc_acquire_write_lock_for_resolve of
        Some e \<Rightarrow> (Some e, conflict, [Wc_acquire_write_lock_for_resolve])
      | None \<Rightarrow>
         (let mark = Wc_conflict_prop_mark_resolved (propname option) conflict_choice;
              err = fails env mark;
              err = svn_error_compose_create err (fails env Wc_release_write_lock);
              tr = [Wc_acquire_write_lock_for_resolve, mark, Wc_release_write_lock]
          in case err of
               Some e \<Rightarrow> (Some e, conflict, tr)
             | None \<Rightarrow>
                (case propname option of
                   None \<Rightarrow> (Some (Svn_error C_UNDEFINED_BEHAVIOUR []), conflict, tr)
                 | Some name \<Rightarrow>
                    (case prop_conflicts conflict of
                       None \<Rightarrow> (Some (Svn_error C_UNDEFINED_BEHAVIOUR []), conflict, tr)
                     | Some h \<Rightarrow>
                        if name = [] then
                          (None,
                           conflict\<lparr>resolved_props :=
                                      fold (\<lambda>this_propname rp. hash_set rp this_propname option)
                                           (svn_hash_keys h) (resolved_props conflict),
                                    prop_conflicts := Some [],
                                    legacy_prop_conflict_propname := None\<rparr>,
                           tr)
                        else
                          (let h' = hash_delete h name in
                           (None,
                            conflict\<lparr>resolved_props := hash_set (resolved_props conflict) name option,
                                     prop_conflicts := Some h',
                                     legacy_prop_conflict_propname :=
                                       (case svn_hash_keys h' of [] \<Rightarrow> None | k # _ \<Rightarrow> Some k)\<rparr>,
                            tr))))))"

text \<open>
  Five resolvers share one shape: take the lock, make one working-copy call, release the
  lock composing the errors, and record the resolution.
\<close>

definition resolve_under_lock ::
  "wc_call \<Rightarrow> wc_env \<Rightarrow> svn_client_conflict_option_t \<Rightarrow> svn_client_conflict_t
     \<Rightarrow> resolve_result" where
  "resolve_under_lock call env option conflict =
     (case fails env Wc_acquire_write_lock_for_resolve of
        Some e \<Rightarrow> (Some e, conflict, [Wc_acquire_write_lock_for_resolve])
      | None \<Rightarrow>
         (let err = fails env call;
              err = svn_error_compose_create err (fails env Wc_release_write_lock)
          in set_resolution_tree err option conflict
               [Wc_acquire_write_lock_for_resolve, call, Wc_release_write_lock]))"

definition resolve_accept_current_wc_state ::
  "wc_env \<Rightarrow> svn_client_conflict_option_t \<Rightarrow> svn_client_conflict_t \<Rightarrow> resolve_result" where
  "resolve_accept_current_wc_state env option conflict =
     (if option_id option \<noteq> svn_client_conflict_option_accept_current_wc_state
      then (svn_error_create SVN_ERR_WC_CONFLICT_RESOLVER_FAILURE, conflict, [])
      else resolve_under_lock Wc_del_tree_conflict env option conflict)"

definition resolve_update_break_moved_away ::
  "wc_env \<Rightarrow> svn_client_conflict_option_t \<Rightarrow> svn_client_conflict_t \<Rightarrow> resolve_result" where
  "resolve_update_break_moved_away =
     resolve_under_lock Wc_conflict_tree_update_break_moved_away"

definition resolve_update_raise_moved_away ::
  "wc_env \<Rightarrow> svn_client_conflict_option_t \<Rightarrow> svn_client_conflict_t \<Rightarrow> resolve_result" where
  "resolve_update_raise_moved_away =
     resolve_under_lock Wc_conflict_tree_update_raise_moved_away"

definition resolve_update_moved_away_node ::
  "wc_env \<Rightarrow> svn_client_conflict_option_t \<Rightarrow> svn_client_conflict_t \<Rightarrow> resolve_result" where
  "resolve_update_moved_away_node =
     resolve_under_lock Wc_conflict_tree_update_moved_away_node"

definition resolve_merge_incoming_add_ignore ::
  "wc_env \<Rightarrow> svn_client_conflict_option_t \<Rightarrow> svn_client_conflict_t \<Rightarrow> resolve_result" where
  "resolve_merge_incoming_add_ignore = resolve_under_lock Wc_del_tree_conflict"

definition resolve_merge_incoming_added_file_text_merge ::
  "wc_env \<Rightarrow> svn_client_conflict_option_t \<Rightarrow> svn_client_conflict_t \<Rightarrow> resolve_result" where
  "resolve_merge_incoming_added_file_text_merge env option conflict =
     (case run_calls env [Wc_get_tmpdir, Io_open_unique_file 0] of
        (Some e, tr1) \<Rightarrow> (Some e, conflict, tr1)
      | (None, tr1) \<Rightarrow>
         if get_conflict_desc2_t conflict = None
         then (Some (Svn_error C_UNDEFINED_BEHAVIOUR []), conflict, tr1)
         else
          (case run_calls env [Ra_open_session, Ra_get_file, Stream_close, Io_file_flush 0,
                               Io_open_unique_file 1, Prop_diffs,
                               Wc_acquire_write_lock_for_resolve] of
             (Some e, tr2) \<Rightarrow> (Some e, conflict, tr1 @ tr2)
           | (None, tr2) \<Rightarrow>
              (case fails env Wc_del_tree_conflict of
                 Some e \<Rightarrow>
                   (svn_error_compose_create (Some e) (fails env Wc_release_write_lock),
                    conflict, tr1 @ tr2 @ [Wc_del_tree_conflict, Wc_release_write_lock])
               | None \<Rightarrow>
                  (let err = fails env Wc_merge;
                       err = svn_error_compose_create err (fails env Wc_release_write_lock)
                   in set_resolution_tree err option conflict
                        (tr1 @ tr2 @ [Wc_del_tree_conflict, Wc_merge, Wc_release_write_lock])))))"

definition merge_incoming_added_file_replace ::
  "wc_env \<Rightarrow> svn_client_conflict_option_t \<Rightarrow> svn_client_conflict_t \<Rightarrow> bool
     \<Rightarrow> resolve_result" where
  "merge_incoming_added_file_replace env option conflict merge_files =
     (case run_calls env [Wc_get_tmpdir, Io_open_unique_file 0, Stream_open_readonly,
                          Stream_copy, Io_file_flush 0, Wc_prop_list] of
        (Some e, tr1) \<Rightarrow> (Some e, conflict, tr1)
      | (None, tr1) \<Rightarrow>
         if get_conflict_desc2_t conflict = None
         then (Some (Svn_error C_UNDEFINED_BEHAVIOUR []), conflict, tr1)
         else
          (case run_calls env [Ra_open_session, Io_open_unique_file 1, Ra_get_file,
                               Io_file_flush 1, Stream_reset,
                               Wc_acquire_write_lock_for_resolve] of
             (Some e, tr2) \<Rightarrow> (Some e, conflict, tr1 @ tr2)
           | (None, tr2) \<Rightarrow>
              (case run_calls env
                      ([Wc_delete, Wc_add_repos_file, Wc_del_tree_conflict]
                       @ (if merge_files then [Io_open_unique_file 2, Prop_diffs, Wc_merge]
                          else [])) of
                 (err, tr3) \<Rightarrow>
                   (case svn_error_compose_create err (fails env Wc_release_write_lock) of
                      Some e \<Rightarrow> (Some e, conflict, tr1 @ tr2 @ tr3 @ [Wc_release_write_lock])
                    | None \<Rightarrow>
                       set_resolution_tree (fails env Stream_close) option conflict
                         (tr1 @ tr2 @ tr3 @ [Wc_release_write_lock, Stream_close])))))"

definition resolve_merge_incoming_added_file_replace ::
  "wc_env \<Rightarrow> svn_client_conflict_option_t \<Rightarrow> svn_client_conflict_t \<Rightarrow> resolve_result" where
  "resolve_merge_incoming_added_file_replace env option conflict =
     merge_incoming_added_file_replace env option conflict False"

definition resolve_merge_incoming_added_file_replace_and_merge ::
  "wc_env \<Rightarrow> svn_client_conflict_option_t \<Rightarrow> svn_client_conflict_t \<Rightarrow> resolve_result" where
  "resolve_merge_incoming_added_file_replace_and_merge env option conflict =
     merge_incoming_added_file_replace env option conflict True"

text \<open>
  \<open>resolve_merge_incoming_added_dir_merge\<close>; \<open>merge_added_dir_locked\<close> is its part
  from taking the write lock on.
\<close>

definition merge_added_dir_locked ::
  "wc_env \<Rightarrow> svn_client_conflict_option_t \<Rightarrow> svn_client_conflict_t \<Rightarrow> resolve_result" where
  "merge_added_dir_locked env option conflict =
     (case fails env Wc_acquire_write_lock_for_resolve of
        Some e \<Rightarrow> (Some e, conflict, [Wc_acquire_write_lock_for_resolve])
      | None \<Rightarrow>
         (case fails env Wc_del_tree_conflict of
            Some e \<Rightarrow>
              (svn_error_compose_create (Some e) (fails env Wc_release_write_lock),
               conflict,
               [Wc_acquire_write_lock_for_resolve, Wc_del_tree_conflict,
                Wc_release_write_lock])
          | None \<Rightarrow>
             (let err = fails env Client_merge_locked;
                  err = svn_error_compose_create err
                          (fails env Client_make_merge_conflict_error);
                  err = svn_error_compose_create err (fails env Wc_release_write_lock)
              in set_resolution_tree err option conflict
                   [Wc_acquire_write_lock_for_resolve, Wc_del_tree_conflict,
                    Client_merge_locked, Client_make_merge_conflict_error,
                    Wc_release_write_lock])))"

definition resolve_merge_incoming_added_dir_merge ::
  "wc_env \<Rightarrow> svn_client_conflict_option_t \<Rightarrow> svn_client_conflict_t \<Rightarrow> resolve_result" where
  "resolve_merge_incoming_added_dir_merge env option conflict =
     (case tree_conflict_incoming_details conflict of
        None \<Rightarrow> (svn_error_create SVN_ERR_WC_CONFLICT_RESOLVER_FAILURE, conflict, [])
      | Some (Incoming_delete_details _) \<Rightarrow> (Some (Svn_error C_UNDEFINED_BEHAVIOUR []), conflict, [])
      | Some (Incoming_edit_details _) \<Rightarrow> (Some (Svn_error C_UNDEFINED_BEHAVIOUR []), conflict, [])
      | Some (Incoming_add_details details) \<Rightarrow>
         (case (svn_client_conflict_get_incoming_old_repos_location conflict,
                svn_client_conflict_get_incoming_new_repos_location conflict) of
            (Some (incoming_old_repos_relpath, incoming_old_pegrev, _),
             Some (incoming_new_repos_relpath, incoming_new_pegrev, _)) \<Rightarrow>
              if (if incoming_old_pegrev < incoming_new_pegrev
                  then add_added_rev details = SVN_INVALID_REVNUM
                  else add_deleted_rev details = SVN_INVALID_REVNUM)
              then (svn_error_create SVN_ERR_WC_CONFLICT_RESOLVER_FAILURE, conflict, [])
              else merge_added_dir_locked env option conflict
          | _ \<Rightarrow> (Some (Svn_error C_UNDEFINED_BEHAVIOUR []), conflict, [])))"

text \<open>
  The tail of \<open>merge_incoming_added_dir_replace\<close> under \<open>if (merge_dirs)\<close>: the error it
  leaves in \<open>err\<close> before \<open>unlock_wc\<close>, and its calls.
\<close>

definition merge_replaced_dir ::
  "wc_env \<Rightarrow> svn_error option \<times> wc_call list" where
  "merge_replaced_dir env =
     (case run_calls env [Wc_node_get_base, Ra_reparent, Ra_get_location_segments] of
        (Some e, tr) \<Rightarrow> (Some e, tr)
      | (None, tr) \<Rightarrow>
         (let b = walk_location_segments (svn_relpath_skip_ancestor env) (location_segments env)
                    \<lparr> baton_added_rev = SVN_INVALID_REVNUM, baton_repos_relpath = None,
                      parent_repos_relpath = Some (svn_relpath_dirname env (snd (node_base env))) \<rparr>
          in if baton_added_rev b = SVN_INVALID_REVNUM
             then (svn_error_create SVN_ERR_WC_CONFLICT_RESOLVER_FAILURE, tr)
             else (svn_error_compose_create (fails env Client_merge_locked)
                     (fails env Client_make_merge_conflict_error),
                   tr @ [Client_merge_locked, Client_make_merge_conflict_error])))"

definition merge_incoming_added_dir_replace ::
  "wc_env \<Rightarrow> svn_client_conflict_option_t \<Rightarrow> svn_client_conflict_t \<Rightarrow> bool
     \<Rightarrow> resolve_result" where
  "merge_incoming_added_dir_replace env option conflict merge_dirs =
     (if get_conflict_desc2_t conflict = None
      then (Some (Svn_error C_UNDEFINED_BEHAVIOUR []), conflict, [])
      else
       (case run_calls env [Ra_open_session, Wc_get_tmpdir, Io_open_unique_file 0,
                            Client_checkout_internal, Wc_acquire_write_lock_for_resolve] of
          (Some e, tr1) \<Rightarrow> (Some e, conflict, tr1)
        | (None, tr1) \<Rightarrow>
           (case (case run_calls env [Wc_delete, Wc_copy, Wc_acquire_write_lock,
                                      Wc_remove_from_revision_control, Io_file_rename,
                                      Wc_del_tree_conflict] of
                    (Some e, tr2) \<Rightarrow> (Some e, tr2)
                  | (None, tr2) \<Rightarrow>
                     if merge_dirs
                     then (case merge_replaced_dir env of (err, tr3) \<Rightarrow> (err, tr2 @ tr3))
                     else (None, tr2)) of
              (err, tr2) \<Rightarrow>
                set_resolution_tree
                  (svn_error_compose_create err (fails env Wc_release_write_lock))
                  option conflict (tr1 @ tr2 @ [Wc_release_write_lock]))))"

definition resolve_merge_incoming_added_dir_replace ::
  "wc_env \<Rightarrow> svn_client_conflict_option_t \<Rightarrow> svn_client_conflict_t \<Rightarrow> resolve_result" where
  "resolve_merge_incoming_added_dir_replace env option conflict =
     merge_incoming_added_dir_replace env option conflict False"

definition resolve_merge_incoming_added_dir_replace_and_merge ::
  "wc_env \<Rightarrow> svn_client_conflict_option_t \<Rightarrow> svn_client_conflict_t \<Rightarrow> resolve_result" where
  "resolve_merge_incoming_added_dir_replace_and_merge env option conflict =
     merge_incoming_added_dir_replace env option conflict True"


section \<open>Resolving an incoming delete\<close>

text \<open>
  \<open>verify_local_state_for_incoming_delete\<close>, with the calls it makes.  The checks on
  the node's origin form one \<open>if ... else if\<close> chain, in the order of the source.
\<close>

definition resolver_failure :: "svn_error option" where
  "resolver_failure = svn_error_create SVN_ERR_WC_CONFLICT_RESOLVER_FAILURE"

definition verify_copy_origin ::
  "svn_wc_operation_t \<Rightarrow> conflict_tree_incoming_delete_details \<Rightarrow> bool \<times> svn_revnum \<times> string
     \<Rightarrow> (string option \<times> svn_revnum \<times> svn_node_kind_t) option \<Rightarrow> svn_error option" where
  "verify_copy_origin op details origin old_location =
     (case origin of (is_copy, copyfrom_revnum, copyfrom_repos_relpath) \<Rightarrow>
        if \<not> is_copy then resolver_failure
        else if deleted_rev details = SVN_INVALID_REVNUM \<and> added_rev details = SVN_INVALID_REVNUM
          then resolver_failure
        else if deleted_rev details \<noteq> SVN_INVALID_REVNUM \<and> copyfrom_revnum \<ge> deleted_rev details
          then resolver_failure
        else if added_rev details \<noteq> SVN_INVALID_REVNUM \<and> copyfrom_revnum < added_rev details
          then resolver_failure
        else if op = svn_wc_operation_update
          then (case repos_relpath details of
                  None \<Rightarrow> Some (Svn_error C_UNDEFINED_BEHAVIOUR [])
                | Some details_relpath \<Rightarrow>
                    if copyfrom_repos_relpath \<noteq> details_relpath then resolver_failure else None)
        else if op = svn_wc_operation_switch
          then (case old_location of
                  Some (Some old_repos_relpath, _, _) \<Rightarrow>
                    if copyfrom_repos_relpath \<noteq> old_repos_relpath then resolver_failure else None
                | _ \<Rightarrow> Some (Svn_error C_UNDEFINED_BEHAVIOUR []))
        else None)"

definition verify_local_state_for_incoming_delete ::
  "wc_env \<Rightarrow> svn_client_conflict_t \<Rightarrow> svn_client_conflict_option_t
     \<Rightarrow> svn_error option \<times> wc_call list" where
  "verify_local_state_for_incoming_delete env conflict option =
     (case fails env Wc_get_wcroot of
        Some e \<Rightarrow> (Some e, [Wc_get_wcroot])
      | None \<Rightarrow>
         (case svn_client_conflict_get_operation conflict of
            None \<Rightarrow> (Some (Svn_error C_UNDEFINED_BEHAVIOUR []), [Wc_get_wcroot])
          | Some op \<Rightarrow>
             if op = svn_wc_operation_update \<or> op = svn_wc_operation_switch then
               (case tree_conflict_incoming_details conflict of
                  None \<Rightarrow> (resolver_failure, [Wc_get_wcroot])
                | Some (Incoming_add_details _) \<Rightarrow>
                    (Some (Svn_error C_UNDEFINED_BEHAVIOUR []), [Wc_get_wcroot])
                | Some (Incoming_edit_details _) \<Rightarrow>
                    (Some (Svn_error C_UNDEFINED_BEHAVIOUR []), [Wc_get_wcroot])
                | Some (Incoming_delete_details details) \<Rightarrow>
                   (case fails env Wc_node_get_origin of
                      Some e \<Rightarrow> (Some e, [Wc_get_wcroot, Wc_node_get_origin])
                    | None \<Rightarrow>
                       (verify_copy_origin op details (node_origin env)
                          (svn_client_conflict_get_incoming_old_repos_location conflict),
                        [Wc_get_wcroot, Wc_node_get_origin])))
             else if op = svn_wc_operation_merge then
               (case svn_client_conflict_tree_get_victim_node_kind conflict of
                  Inl e \<Rightarrow> (Some e, [Wc_get_wcroot])
                | Inr victim_node_kind \<Rightarrow>
                   (case fails env Io_check_path of
                      Some e \<Rightarrow> (Some e, [Wc_get_wcroot, Io_check_path])
                    | None \<Rightarrow>
                       (if victim_node_kind \<noteq> on_disk_kind env then resolver_failure else None,
                        [Wc_get_wcroot, Io_check_path])))
             else (None, [Wc_get_wcroot])))"

text \<open>
  \<open>resolve_incoming_delete_ignore\<close> and \<open>resolve_incoming_delete_accept\<close>: lock,
  verify, clear the conflict (\<open>svn_wc__del_tree_conflict\<close>, respectively
  \<open>svn_wc_delete4\<close>, which marks the conflict resolved), unlock.  An error of the
  verification jumps to \<open>unlock_wc\<close>.
\<close>

definition resolve_incoming_delete ::
  "wc_call \<Rightarrow> wc_env \<Rightarrow> svn_client_conflict_option_t \<Rightarrow> svn_client_conflict_t
     \<Rightarrow> resolve_result" where
  "resolve_incoming_delete clearing_call env option conflict =
     (case fails env Wc_acquire_write_lock_for_resolve of
        Some e \<Rightarrow> (Some e, conflict, [Wc_acquire_write_lock_for_resolve])
      | None \<Rightarrow>
         (case verify_local_state_for_incoming_delete env conflict option of
            (verr, vtr) \<Rightarrow>
              if crashed verr
              then (verr, conflict, Wc_acquire_write_lock_for_resolve # vtr)
              else
               (case (case verr of
                        Some e \<Rightarrow> (Some e, vtr)
                      | None \<Rightarrow> (fails env clearing_call, vtr @ [clearing_call])) of
                  (err, tr) \<Rightarrow>
                    set_resolution_tree
                      (svn_error_compose_create err (fails env Wc_release_write_lock))
                      option conflict
                      (Wc_acquire_write_lock_for_resolve # tr @ [Wc_release_write_lock]))))"

definition resolve_incoming_delete_ignore ::
  "wc_env \<Rightarrow> svn_client_conflict_option_t \<Rightarrow> svn_client_conflict_t \<Rightarrow> resolve_result" where
  "resolve_incoming_delete_ignore = resolve_incoming_delete Wc_del_tree_conflict"

definition resolve_incoming_delete_accept ::
  "wc_env \<Rightarrow> svn_client_conflict_option_t \<Rightarrow> svn_client_conflict_t \<Rightarrow> resolve_result" where
  "resolve_incoming_delete_accept = resolve_incoming_delete Wc_delete"

text \<open>Calling \<open>option->do_resolve_func(option, conflict, scratch_pool)\<close>.\<close>

definition call_do_resolve_func ::
  "wc_env \<Rightarrow> svn_client_conflict_option_t \<Rightarrow> svn_client_conflict_t \<Rightarrow> resolve_result" where
  "call_do_resolve_func env option conflict =
     (case do_resolve_func option of
        resolve_postpone_fn \<Rightarrow> resolve_postpone env option conflict
      | resolve_text_conflict_fn \<Rightarrow> resolve_text_conflict env option conflict
      | resolve_prop_conflict_fn \<Rightarrow> resolve_prop_conflict env option conflict
      | resolve_accept_current_wc_state_fn \<Rightarrow> resolve_accept_current_wc_state env option conflict
      | resolve_update_break_moved_away_fn \<Rightarrow> resolve_update_break_moved_away env option conflict
      | resolve_update_raise_moved_away_fn \<Rightarrow> resolve_update_raise_moved_away env option conflict
      | resolve_update_moved_away_node_fn \<Rightarrow> resolve_update_moved_away_node env option conflict
      | resolve_merge_incoming_add_ignore_fn \<Rightarrow>
          resolve_merge_incoming_add_ignore env option conflict
      | resolve_merge_incoming_added_file_text_merge_fn \<Rightarrow>
          resolve_merge_incoming_added_file_text_merge env option conflict
      | resolve_merge_incoming_added_file_replace_fn \<Rightarrow>
          resolve_merge_incoming_added_file_replace env option conflict
      | resolve_merge_incoming_added_file_replace_and_merge_fn \<Rightarrow>
          resolve_merge_incoming_added_file_replace_and_merge env option conflict
      | resolve_merge_incoming_added_dir_merge_fn \<Rightarrow>
          resolve_merge_incoming_added_dir_merge env option conflict
      | resolve_merge_incoming_added_dir_replace_fn \<Rightarrow>
          resolve_merge_incoming_added_dir_replace env option conflict
      | resolve_merge_incoming_added_dir_replace_and_merge_fn \<Rightarrow>
          resolve_merge_incoming_added_dir_replace_and_merge env option conflict
      | resolve_incoming_delete_ignore_fn \<Rightarrow> resolve_incoming_delete_ignore env option conflict
      | resolve_incoming_delete_accept_fn \<Rightarrow> resolve_incoming_delete_accept env option conflict)"


section \<open>Details of an incoming deletion\<close>

text \<open>
  The repository and the working copy, as far as the details functions ask them.  A
  session is identified by the repository relpath it is opened at.

  \<^item> \<open>open_ra_session\<close>: the error of \<open>svn_client__open_ra_session_internal\<close>, if any;
  \<^item> \<open>get_log path start end\<close>: the log entries the server sends for
    \<open>svn_ra_get_log2\<close>, in the order sent, and the error the call ends with if the
    receiver has not stopped it;
  \<^item> \<open>get_location_segments path peg start end\<close>: the segments reported, in order;
  \<^item> \<open>rev_prop_author path rev\<close>: the \<open>svn:author\<close> property found by \<open>svn_ra_rev_prop\<close>
    (\<open>NULL\<close> when the revision has none);
  \<^item> \<open>check_path path rev\<close>: the node kind found by \<open>svn_ra_check_path\<close>;
  \<^item> \<open>node_get_repos_relpath\<close>: the relpath found by \<open>svn_wc__node_get_repos_info\<close>;
  \<^item> the path functions of the library;
  \<^item> \<open>indeterminate_move\<close>: the value of a pointer variable that was never assigned.
\<close>

record repos_env =
  repos_ra :: ra_env
  repos_wc :: wc_env
  open_ra_session :: "string \<Rightarrow> svn_error option"
  get_log :: "string \<Rightarrow> svn_revnum \<Rightarrow> svn_revnum \<Rightarrow> svn_log_entry_t list \<times> svn_error option"
  get_location_segments ::
    "string \<Rightarrow> svn_revnum \<Rightarrow> svn_revnum \<Rightarrow> svn_revnum \<Rightarrow> svn_error + svn_location_segment_t list"
  rev_prop_author :: "string \<Rightarrow> svn_revnum \<Rightarrow> svn_error + string option"
  check_path :: "string \<Rightarrow> svn_revnum \<Rightarrow> svn_error + svn_node_kind_t"
  node_get_repos_relpath :: "string \<Rightarrow> svn_error + string option"
  svn_relpath_join :: "string \<Rightarrow> string \<Rightarrow> string"
  svn_relpath_basename :: "string \<Rightarrow> string"
  svn_dirent_basename :: "string \<Rightarrow> string"
  svn_dirent_dirname :: "string \<Rightarrow> string"
  indeterminate_move :: "nat option"

text \<open>
  \<open>svn_client_conflict_get_repos_info\<close>: root URL and UUID of the left version, else of
  the right version, else \<open>NULL\<close>; \<open>None\<close> is the \<open>NULL\<close> dereference of a conflict
  without any descriptor.
\<close>

definition svn_client_conflict_get_repos_info ::
  "svn_client_conflict_t \<Rightarrow> (string option \<times> string option) option" where
  "svn_client_conflict_get_repos_info conflict =
     map_option (\<lambda>d. case src_left_version d of
                        Some v \<Rightarrow> (Some (repos_url v), Some (repos_uuid v))
                      | None \<Rightarrow>
                         (case src_right_version d of
                            Some v \<Rightarrow> (Some (repos_url v), Some (repos_uuid v))
                          | None \<Rightarrow> (None, None)))
                (get_conflict_desc2_t conflict)"

text \<open>\<open>svn_ra_get_log2\<close> with the receiver \<open>find_deleted_rev\<close>: an error of the receiver
  stops the log and is returned.\<close>

definition svn_ra_get_log2 ::
  "repos_env \<Rightarrow> string \<Rightarrow> svn_revnum \<Rightarrow> svn_revnum \<Rightarrow> find_deleted_rev_baton
     \<Rightarrow> svn_error option \<times> find_deleted_rev_baton" where
  "svn_ra_get_log2 env path start_rev end_rev b =
     (case get_log env path start_rev end_rev of
        (log_entries, ra_err) \<Rightarrow>
          (case receive_log (repos_ra env) log_entries b of
             (Some e, b') \<Rightarrow> (Some e, b')
           | (None, b') \<Rightarrow> (ra_err, b')))"

text \<open>The loop over the moves of the deleting revision: the first move away from the
  deleted path.\<close>

definition find_move_of_deleted ::
  "repos_move_info list \<Rightarrow> string \<Rightarrow> nat list \<Rightarrow> nat option" where
  "find_move_of_deleted ms deleted_relpath moves =
     List.find (\<lambda>p. map_option moved_from_repos_relpath (deref ms p) = Some deleted_relpath) moves"

text \<open>
  \<open>find_revision_for_suspected_deletion\<close>.  The results are \<open>deleted_rev\<close>,
  \<open>deleted_rev_author\<close>, \<open>replacing_node_kind\<close> and \<open>move\<close>, with the moves allocated in
  \<open>result_pool\<close>.  When the deleting revision has moves but none of them moves the
  deleted path, \<open>*move\<close> is not assigned.
\<close>

definition find_revision_for_suspected_deletion ::
  "repos_env \<Rightarrow> svn_client_conflict_t \<Rightarrow> string \<Rightarrow> string \<Rightarrow> svn_revnum \<Rightarrow> svn_revnum
     \<Rightarrow> string option \<Rightarrow> svn_revnum
     \<Rightarrow> svn_error
         + (svn_revnum \<times> string option \<times> svn_node_kind_t \<times> nat option \<times> repos_move_info list)" where
  "find_revision_for_suspected_deletion env conflict deleted_basename parent_relpath
       start_rev end_rev related_relpath related_peg_rev =
     (case svn_client_conflict_get_repos_info conflict of
        None \<Rightarrow> Inl (Svn_error C_UNDEFINED_BEHAVIOUR [])
      | Some (None, uuid) \<Rightarrow> Inl (Svn_error C_UNDEFINED_BEHAVIOUR [])
      | Some (Some repos_root_url, uuid) \<Rightarrow>
         (case open_ra_session env parent_relpath of
            Some e \<Rightarrow> Inl e
          | None \<Rightarrow>
             (let b = \<lparr> deleted_repos_relpath = svn_relpath_join env parent_relpath deleted_basename,
                        related_repos_relpath = related_relpath,
                        related_repos_peg_rev = related_peg_rev,
                        baton_deleted_rev = SVN_INVALID_REVNUM,
                        baton_deleted_rev_author = None,
                        baton_replacing_node_kind = svn_node_unknown,
                        scan = empty_scan \<rparr>
              in case svn_ra_get_log2 env parent_relpath start_rev end_rev b of
                   (err, b') \<Rightarrow>
                     (case (case err of
                              None \<Rightarrow> None
                            | Some e \<Rightarrow>
                               if apr_err e = SVN_ERR_CANCELLED
                                  \<and> baton_deleted_rev b' \<noteq> SVN_INVALID_REVNUM
                               then None else Some e) of
                        Some e \<Rightarrow> Inl e
                      | None \<Rightarrow>
                         if baton_deleted_rev b' = SVN_INVALID_REVNUM
                         then Inr (SVN_INVALID_REVNUM, None, svn_node_unknown, None,
                                   result_pool (scan b'))
                         else Inr (baton_deleted_rev b', baton_deleted_rev_author b',
                                   baton_replacing_node_kind b',
                                   (case hash_get (moves_table (scan b')) (baton_deleted_rev b') of
                                      None \<Rightarrow> None
                                    | Some moves \<Rightarrow>
                                       (case find_move_of_deleted (result_pool (scan b'))
                                               (deleted_repos_relpath b') moves of
                                          Some p \<Rightarrow> Some p
                                        | None \<Rightarrow> indeterminate_move env)),
                                   result_pool (scan b'))))))"

text \<open>
  \<open>get_incoming_delete_details_for_reverse_addition\<close>: the details, or the error.
  \<open>parent_repos_relpath\<close> of the baton is \<open>NULL\<close>, so every segment with a path counts.
\<close>

definition get_incoming_delete_details_for_reverse_addition ::
  "repos_env \<Rightarrow> string option \<Rightarrow> svn_revnum \<Rightarrow> svn_revnum
     \<Rightarrow> svn_error + conflict_tree_incoming_delete_details" where
  "get_incoming_delete_details_for_reverse_addition env old_repos_relpath old_rev new_rev =
     (case old_repos_relpath of
        None \<Rightarrow> Inl (Svn_error C_UNDEFINED_BEHAVIOUR [])
      | Some old_relpath \<Rightarrow>
         (case open_ra_session env old_relpath of
            Some e \<Rightarrow> Inl e
          | None \<Rightarrow>
             (case get_location_segments env old_relpath old_rev old_rev new_rev of
                Inl e \<Rightarrow> Inl e
              | Inr segments \<Rightarrow>
                 (let b = walk_location_segments (svn_relpath_skip_ancestor (repos_wc env)) segments
                            \<lparr> baton_added_rev = SVN_INVALID_REVNUM, baton_repos_relpath = None,
                              parent_repos_relpath = None \<rparr>
                  in case rev_prop_author env old_relpath (baton_added_rev b) of
                       Inl e \<Rightarrow> Inl e
                     | Inr None \<Rightarrow> Inl (Svn_error C_UNDEFINED_BEHAVIOUR [])
                     | Inr (Some author_data) \<Rightarrow>
                        (let details = \<lparr> deleted_rev = SVN_INVALID_REVNUM,
                                         added_rev = baton_added_rev b,
                                         repos_relpath = baton_repos_relpath b,
                                         rev_author = Some author_data,
                                         replacing_node_kind = svn_node_none,
                                         move = None \<rparr>
                         in if added_rev details > 0 then
                              (case check_path env old_relpath (added_rev details - 1) of
                                 Inl e \<Rightarrow> Inl e
                               | Inr replaced_node_kind \<Rightarrow>
                                  if replaced_node_kind \<noteq> svn_node_none then
                                    (case check_path env old_relpath (added_rev details) of
                                       Inl e \<Rightarrow> Inl e
                                     | Inr k \<Rightarrow> Inr (details\<lparr>replacing_node_kind := k\<rparr>))
                                  else Inr details)
                            else Inr details)))))"

text \<open>Storing the details of a deletion found in the log; without a deleting revision the
  conflict is left as it is.\<close>

definition store_forward_details ::
  "svn_client_conflict_t \<Rightarrow> string option
     \<Rightarrow> svn_revnum \<times> string option \<times> svn_node_kind_t \<times> nat option \<times> repos_move_info list
     \<Rightarrow> bool \<Rightarrow> svn_client_conflict_t" where
  "store_forward_details conflict new_repos_relpath found keep_moves =
     (case found of
        (deleted_revision, found_author, replacing_kind, found_move, moves) \<Rightarrow>
          if deleted_revision = SVN_INVALID_REVNUM then conflict
          else conflict
                 \<lparr> tree_conflict_incoming_details :=
                     Some (Incoming_delete_details
                             \<lparr> deleted_rev = deleted_revision,
                               added_rev = SVN_INVALID_REVNUM,
                               repos_relpath = new_repos_relpath,
                               rev_author = found_author,
                               replacing_node_kind = replacing_kind,
                               move = found_move \<rparr>),
                   pool := (if keep_moves then moves else pool conflict) \<rparr>)"

definition store_reverse_details ::
  "svn_client_conflict_t \<Rightarrow> svn_error + conflict_tree_incoming_delete_details
     \<Rightarrow> svn_error option \<times> svn_client_conflict_t" where
  "store_reverse_details conflict result =
     (case result of
        Inl e \<Rightarrow> (Some e, conflict)
      | Inr details \<Rightarrow>
         (None, conflict\<lparr>tree_conflict_incoming_details := Some (Incoming_delete_details details)\<rparr>))"

text \<open>
  \<open>conflict_tree_get_details_incoming_delete\<close>.  For an update the log of the parent
  directory is walked from \<open>old_rev\<close> to \<open>new_rev\<close> and the moves are allocated in the
  conflict's pool; for a switch or a merge the log of the parent of the new location is
  walked from \<open>new_rev\<close> to \<open>old_rev\<close> and the moves are allocated in the scratch pool.
\<close>

definition conflict_tree_get_details_incoming_delete ::
  "repos_env \<Rightarrow> svn_client_conflict_t \<Rightarrow> svn_error option \<times> svn_client_conflict_t" where
  "conflict_tree_get_details_incoming_delete env conflict =
     (case (svn_client_conflict_get_incoming_old_repos_location conflict,
            svn_client_conflict_get_incoming_new_repos_location conflict,
            svn_client_conflict_get_operation conflict) of
        (Some (old_repos_relpath, old_rev, old_kind),
         Some (new_repos_relpath, new_rev, new_kind), Some op) \<Rightarrow>
          if op = svn_wc_operation_update then
            (if old_rev < new_rev then
               (case node_get_repos_relpath env (svn_dirent_dirname env (local_abspath conflict)) of
                  Inl e \<Rightarrow> (Some e, conflict)
                | Inr None \<Rightarrow> (Some (Svn_error C_UNDEFINED_BEHAVIOUR []), conflict)
                | Inr (Some parent_relpath) \<Rightarrow>
                   (case find_revision_for_suspected_deletion env conflict
                           (svn_dirent_basename env (local_abspath conflict))
                           parent_relpath old_rev new_rev None SVN_INVALID_REVNUM of
                      Inl e \<Rightarrow> (Some e, conflict)
                    | Inr found \<Rightarrow>
                       (None, store_forward_details conflict new_repos_relpath found True)))
             else
               store_reverse_details conflict
                 (get_incoming_delete_details_for_reverse_addition env old_repos_relpath
                    old_rev new_rev))
          else if op = svn_wc_operation_switch \<or> op = svn_wc_operation_merge then
            (if old_rev < new_rev then
               (case new_repos_relpath of
                  None \<Rightarrow> (Some (Svn_error C_UNDEFINED_BEHAVIOUR []), conflict)
                | Some new_relpath \<Rightarrow>
                   (case find_revision_for_suspected_deletion env conflict
                           (svn_relpath_basename env new_relpath)
                           (svn_relpath_dirname (repos_wc env) new_relpath)
                           new_rev old_rev old_repos_relpath old_rev of
                      Inl e \<Rightarrow> (Some e, conflict)
                    | Inr found \<Rightarrow>
                       (None, store_forward_details conflict new_repos_relpath found False)))
             else
               store_reverse_details conflict
                 (get_incoming_delete_details_for_reverse_addition env old_repos_relpath
                    old_rev new_rev))
          else (None, conflict\<lparr>tree_conflict_incoming_details := None\<rparr>)
      | _ \<Rightarrow> (Some (Svn_error C_UNDEFINED_BEHAVIOUR []), conflict))"

subsection \<open>The statement about the two revisions\<close>

text \<open>
  The specification, in its own words: exactly one of \<open>deleted_rev\<close> and \<open>added_rev\<close> is
  valid and the other is the sentinel; \<open>added_rev\<close> is the valid one when the operation
  went backwards, \<open>deleted_rev\<close> otherwise.
\<close>

definition spec_backwards :: "svn_revnum \<Rightarrow> svn_revnum \<Rightarrow> bool" where
  "spec_backwards old_rev new_rev = (new_rev < old_rev)"

definition spec_one_revision_valid ::
  "conflict_tree_incoming_delete_details \<Rightarrow> bool \<Rightarrow> bool" where
  "spec_one_revision_valid details backwards =
     (if backwards
      then added_rev details \<noteq> SVN_INVALID_REVNUM \<and> deleted_rev details = SVN_INVALID_REVNUM
      else deleted_rev details \<noteq> SVN_INVALID_REVNUM \<and> added_rev details = SVN_INVALID_REVNUM)"

text \<open>The start of the last segment that has a path, the sentinel without one: what the
  walk with \<open>find_added_rev\<close> leaves in the baton.\<close>

definition last_segment_start :: "svn_location_segment_t list \<Rightarrow> svn_revnum" where
  "last_segment_start segments =
     (case filter (\<lambda>s. segment_path s \<noteq> None) segments of
        [] \<Rightarrow> SVN_INVALID_REVNUM
      | s # ss \<Rightarrow> range_start (last (s # ss)))"

section \<open>Resolution options\<close>

definition mk_option ::
  "svn_client_conflict_option_id_t \<Rightarrow> conflict_option_resolve_func_t
     \<Rightarrow> svn_client_conflict_option_t" where
  "mk_option oid f = \<lparr> option_id = oid, do_resolve_func = f, propname = None, merged_propval = None \<rparr>"

text \<open>The static tables \<open>text_conflict_options\<close>, \<open>binary_conflict_options\<close> and
  \<open>prop_conflict_options\<close>.\<close>

definition text_conflict_options :: "svn_client_conflict_option_t list" where
  "text_conflict_options =
     [ mk_option svn_client_conflict_option_postpone resolve_postpone_fn,
       mk_option svn_client_conflict_option_base_text resolve_text_conflict_fn,
       mk_option svn_client_conflict_option_incoming_text resolve_text_conflict_fn,
       mk_option svn_client_conflict_option_working_text resolve_text_conflict_fn,
       mk_option svn_client_conflict_option_incoming_text_where_conflicted resolve_text_conflict_fn,
       mk_option svn_client_conflict_option_working_text_where_conflicted resolve_text_conflict_fn,
       mk_option svn_client_conflict_option_merged_text resolve_text_conflict_fn ]"

definition binary_conflict_options :: "svn_client_conflict_option_t list" where
  "binary_conflict_options =
     [ mk_option svn_client_conflict_option_postpone resolve_postpone_fn,
       mk_option svn_client_conflict_option_incoming_text resolve_text_conflict_fn,
       mk_option svn_client_conflict_option_working_text resolve_text_conflict_fn,
       mk_option svn_client_conflict_option_merged_text resolve_text_conflict_fn ]"

definition prop_conflict_options :: "svn_client_conflict_option_t list" where
  "prop_conflict_options =
     [ mk_option svn_client_conflict_option_postpone resolve_postpone_fn,
       mk_option svn_client_conflict_option_base_text resolve_prop_conflict_fn,
       mk_option svn_client_conflict_option_incoming_text resolve_prop_conflict_fn,
       mk_option svn_client_conflict_option_working_text resolve_prop_conflict_fn,
       mk_option svn_client_conflict_option_incoming_text_where_conflicted resolve_prop_conflict_fn,
       mk_option svn_client_conflict_option_working_text_where_conflicted resolve_prop_conflict_fn,
       mk_option svn_client_conflict_option_merged_text resolve_prop_conflict_fn ]"

definition svn_client_conflict_text_get_resolution_options ::
  "wc_env \<Rightarrow> svn_client_conflict_t \<Rightarrow> svn_error + svn_client_conflict_option_t list" where
  "svn_client_conflict_text_get_resolution_options env conflict =
     (case assert_text_conflict conflict of
        Some e \<Rightarrow> Inl e
      | None \<Rightarrow>
         (case svn_client_conflict_text_get_mime_type conflict of
            Inl e \<Rightarrow> Inl e
          | Inr mime \<Rightarrow>
             if (case mime of None \<Rightarrow> False | Some m \<Rightarrow> svn_mime_type_is_binary env m)
             then Inr binary_conflict_options
             else Inr text_conflict_options))"

definition svn_client_conflict_prop_get_resolution_options ::
  "wc_env \<Rightarrow> svn_client_conflict_t \<Rightarrow> svn_error + svn_client_conflict_option_t list" where
  "svn_client_conflict_prop_get_resolution_options env conflict =
     (case assert_prop_conflict conflict of
        Some e \<Rightarrow> Inl e
      | None \<Rightarrow> Inr prop_conflict_options)"

subsection \<open>Options of a tree conflict\<close>

text \<open>
  Each \<open>configure_option_...\<close> function appends at most one option to the array.  The
  operation, incoming change and local change are read through the accessors (a \<open>NULL\<close>
  descriptor is the undefined behaviour of the C code); the functions that print the
  victim's path in the description ask for the working copy root, which may fail.  The
  result comes with the working-copy calls made, in order.
\<close>

type_synonym configure_result =
  "(svn_error + svn_client_conflict_option_t list) \<times> wc_call list"

type_synonym configure_func =
  "wc_env \<Rightarrow> svn_client_conflict_t \<Rightarrow> svn_client_conflict_option_t list \<Rightarrow> configure_result"

definition configure_option_accept_current_wc_state :: configure_func where
  "configure_option_accept_current_wc_state env conflict options =
     (case get_conflict_desc2_t conflict of
        None \<Rightarrow> (Inl (Svn_error C_UNDEFINED_BEHAVIOUR []), [])
      | Some d \<Rightarrow>
         (Inr (options @
           [mk_option svn_client_conflict_option_accept_current_wc_state
              (if (operation d = svn_wc_operation_update \<or> operation d = svn_wc_operation_switch)
                  \<and> (reason d = svn_wc_conflict_reason_moved_away
                       \<or> reason d = svn_wc_conflict_reason_deleted
                       \<or> reason d = svn_wc_conflict_reason_replaced)
                  \<and> action d = svn_wc_conflict_action_edit
               then resolve_update_break_moved_away_fn
               else resolve_accept_current_wc_state_fn)]), []))"

definition configure_option_update_move_destination :: configure_func where
  "configure_option_update_move_destination env conflict options =
     (case get_conflict_desc2_t conflict of
        None \<Rightarrow> (Inl (Svn_error C_UNDEFINED_BEHAVIOUR []), [])
      | Some d \<Rightarrow>
         if (operation d = svn_wc_operation_update \<or> operation d = svn_wc_operation_switch)
            \<and> action d = svn_wc_conflict_action_edit
            \<and> reason d = svn_wc_conflict_reason_moved_away
         then (Inr (options @ [mk_option svn_client_conflict_option_update_move_destination
                                 resolve_update_moved_away_node_fn]), [])
         else (Inr options, []))"

definition configure_option_update_raise_moved_away_children :: configure_func where
  "configure_option_update_raise_moved_away_children env conflict options =
     (case get_conflict_desc2_t conflict of
        None \<Rightarrow> (Inl (Svn_error C_UNDEFINED_BEHAVIOUR []), [])
      | Some d \<Rightarrow>
         (case svn_client_conflict_tree_get_victim_node_kind conflict of
            Inl e \<Rightarrow> (Inl e, [])
          | Inr victim_node_kind \<Rightarrow>
             if (operation d = svn_wc_operation_update \<or> operation d = svn_wc_operation_switch)
                \<and> action d = svn_wc_conflict_action_edit
                \<and> (reason d = svn_wc_conflict_reason_deleted
                     \<or> reason d = svn_wc_conflict_reason_replaced)
                \<and> victim_node_kind = svn_node_dir
             then (Inr (options @
                         [mk_option svn_client_conflict_option_update_any_moved_away_children
                            resolve_update_raise_moved_away_fn]), [])
             else (Inr options, [])))"

text \<open>The shape shared by the options that need the working copy root for their
  description: when \<open>applies\<close>, ask for the root (\<open>svn_wc__get_wcroot\<close>), then append the
  option.\<close>

definition append_option_with_wcroot ::
  "wc_env \<Rightarrow> bool \<Rightarrow> svn_client_conflict_option_t \<Rightarrow> svn_client_conflict_option_t list
     \<Rightarrow> configure_result" where
  "append_option_with_wcroot env applies option options =
     (if applies
      then (case fails env Wc_get_wcroot of
              Some e \<Rightarrow> (Inl e, [Wc_get_wcroot])
            | None \<Rightarrow> (Inr (options @ [option]), [Wc_get_wcroot]))
      else (Inr options, []))"

definition configure_option_merge_incoming_add_ignore :: configure_func where
  "configure_option_merge_incoming_add_ignore env conflict options =
     (case get_conflict_desc2_t conflict of
        None \<Rightarrow> (Inl (Svn_error C_UNDEFINED_BEHAVIOUR []), [])
      | Some d \<Rightarrow>
         append_option_with_wcroot env
           (operation d = svn_wc_operation_merge
            \<and> action d = svn_wc_conflict_action_add
            \<and> reason d = svn_wc_conflict_reason_obstructed)
           (mk_option svn_client_conflict_option_merge_incoming_add_ignore
              resolve_merge_incoming_add_ignore_fn)
           options)"

text \<open>The six options for an added file or directory differ in the node kind they ask
  for, their id and their resolver.\<close>

definition configure_option_merge_incoming_added ::
  "svn_node_kind_t \<Rightarrow> svn_client_conflict_option_id_t \<Rightarrow> conflict_option_resolve_func_t
     \<Rightarrow> configure_func" where
  "configure_option_merge_incoming_added wanted_kind oid f env conflict options =
     (case get_conflict_desc2_t conflict of
        None \<Rightarrow> (Inl (Svn_error C_UNDEFINED_BEHAVIOUR []), [])
      | Some d \<Rightarrow>
         (case svn_client_conflict_tree_get_victim_node_kind conflict of
            Inl e \<Rightarrow> (Inl e, [])
          | Inr victim_node_kind \<Rightarrow>
             (case svn_client_conflict_get_incoming_new_repos_location conflict of
                None \<Rightarrow> (Inl (Svn_error C_UNDEFINED_BEHAVIOUR []), [])
              | Some (_, _, incoming_new_kind) \<Rightarrow>
                 append_option_with_wcroot env
                   (operation d = svn_wc_operation_merge
                    \<and> victim_node_kind = wanted_kind
                    \<and> incoming_new_kind = wanted_kind
                    \<and> action d = svn_wc_conflict_action_add
                    \<and> reason d = svn_wc_conflict_reason_obstructed)
                   (mk_option oid f) options)))"

definition configure_option_merge_incoming_added_file_text_merge :: configure_func where
  "configure_option_merge_incoming_added_file_text_merge =
     configure_option_merge_incoming_added svn_node_file
       svn_client_conflict_option_merge_incoming_added_file_text_merge
       resolve_merge_incoming_added_file_text_merge_fn"

definition configure_option_merge_incoming_added_file_replace :: configure_func where
  "configure_option_merge_incoming_added_file_replace =
     configure_option_merge_incoming_added svn_node_file
       svn_client_conflict_option_merge_incoming_added_file_replace
       resolve_merge_incoming_added_file_replace_fn"

definition configure_option_merge_incoming_added_file_replace_and_merge :: configure_func where
  "configure_option_merge_incoming_added_file_replace_and_merge =
     configure_option_merge_incoming_added svn_node_file
       svn_client_conflict_option_merge_incoming_added_file_replace_and_merge
       resolve_merge_incoming_added_file_replace_and_merge_fn"

definition configure_option_merge_incoming_added_dir_merge :: configure_func where
  "configure_option_merge_incoming_added_dir_merge =
     configure_option_merge_incoming_added svn_node_dir
       svn_client_conflict_option_merge_incoming_added_dir_merge
       resolve_merge_incoming_added_dir_merge_fn"

definition configure_option_merge_incoming_added_dir_replace :: configure_func where
  "configure_option_merge_incoming_added_dir_replace =
     configure_option_merge_incoming_added svn_node_dir
       svn_client_conflict_option_merge_incoming_added_dir_replace
       resolve_merge_incoming_added_dir_replace_fn"

definition configure_option_merge_incoming_added_dir_replace_and_merge :: configure_func where
  "configure_option_merge_incoming_added_dir_replace_and_merge =
     configure_option_merge_incoming_added svn_node_dir
       svn_client_conflict_option_merge_incoming_added_dir_replace_and_merge
       resolve_merge_incoming_added_dir_replace_and_merge_fn"

definition configure_option_incoming_delete_ignore :: configure_func where
  "configure_option_incoming_delete_ignore env conflict options =
     (case get_conflict_desc2_t conflict of
        None \<Rightarrow> (Inl (Svn_error C_UNDEFINED_BEHAVIOUR []), [])
      | Some d \<Rightarrow>
         if action d = svn_wc_conflict_action_delete
         then (Inr (options @ [mk_option svn_client_conflict_option_incoming_delete_ignore
                                 resolve_incoming_delete_ignore_fn]), [])
         else (Inr options, []))"

definition configure_option_incoming_delete_accept :: configure_func where
  "configure_option_incoming_delete_accept env conflict options =
     (case get_conflict_desc2_t conflict of
        None \<Rightarrow> (Inl (Svn_error C_UNDEFINED_BEHAVIOUR []), [])
      | Some d \<Rightarrow>
         append_option_with_wcroot env (action d = svn_wc_conflict_action_delete)
           (mk_option svn_client_conflict_option_incoming_delete_accept
              resolve_incoming_delete_accept_fn)
           options)"

text \<open>The sequence of \<open>SVN_ERR(configure_option_...(conflict, *options))\<close>: it stops at
  the first error; the calls made add up.\<close>

fun configure_all ::
  "configure_func list \<Rightarrow> wc_env \<Rightarrow> svn_client_conflict_t \<Rightarrow> svn_client_conflict_option_t list
     \<Rightarrow> configure_result" where
  "configure_all [] env conflict options = (Inr options, [])"
| "configure_all (f # fs) env conflict options =
     (case f env conflict options of
        (Inl e, tr) \<Rightarrow> (Inl e, tr)
      | (Inr options', tr) \<Rightarrow>
         (case configure_all fs env conflict options' of
            (result, tr') \<Rightarrow> (result, tr @ tr')))"

definition svn_client_conflict_tree_get_resolution_options ::
  "wc_env \<Rightarrow> svn_client_conflict_t \<Rightarrow> configure_result" where
  "svn_client_conflict_tree_get_resolution_options env conflict =
     (case assert_tree_conflict conflict of
        Some e \<Rightarrow> (Inl e, [])
      | None \<Rightarrow>
         configure_all
           [ configure_option_accept_current_wc_state,
             configure_option_update_move_destination,
             configure_option_update_raise_moved_away_children,
             configure_option_merge_incoming_add_ignore,
             configure_option_merge_incoming_added_file_text_merge,
             configure_option_merge_incoming_added_file_replace,
             configure_option_merge_incoming_added_file_replace_and_merge,
             configure_option_merge_incoming_added_dir_merge,
             configure_option_merge_incoming_added_dir_replace,
             configure_option_merge_incoming_added_dir_replace_and_merge,
             configure_option_incoming_delete_ignore,
             configure_option_incoming_delete_accept ]
           env conflict
           [mk_option svn_client_conflict_option_postpone resolve_postpone_fn])"

subsection \<open>Resolving with an option, and by option id\<close>

fun svn_client_conflict_option_find_by_id ::
  "svn_client_conflict_option_t list \<Rightarrow> svn_client_conflict_option_id_t
     \<Rightarrow> svn_client_conflict_option_t option" where
  "svn_client_conflict_option_find_by_id [] oid = None"
| "svn_client_conflict_option_find_by_id (this_option # options) oid =
     (if option_id this_option = oid then Some this_option
      else svn_client_conflict_option_find_by_id options oid)"

definition svn_client_conflict_text_resolve ::
  "wc_env \<Rightarrow> svn_client_conflict_t \<Rightarrow> svn_client_conflict_option_t \<Rightarrow> resolve_result" where
  "svn_client_conflict_text_resolve env conflict option =
     (case assert_text_conflict conflict of
        Some e \<Rightarrow> (Some e, conflict, [])
      | None \<Rightarrow> call_do_resolve_func env option conflict)"

definition svn_client_conflict_prop_resolve ::
  "wc_env \<Rightarrow> svn_client_conflict_t \<Rightarrow> string \<Rightarrow> svn_client_conflict_option_t
     \<Rightarrow> resolve_result" where
  "svn_client_conflict_prop_resolve env conflict name option =
     (case assert_prop_conflict conflict of
        Some e \<Rightarrow> (Some e, conflict, [])
      | None \<Rightarrow> call_do_resolve_func env (option\<lparr>propname := Some name\<rparr>) conflict)"

definition svn_client_conflict_tree_resolve ::
  "wc_env \<Rightarrow> svn_client_conflict_t \<Rightarrow> svn_client_conflict_option_t \<Rightarrow> resolve_result" where
  "svn_client_conflict_tree_resolve env conflict option =
     (case assert_tree_conflict conflict of
        Some e \<Rightarrow> (Some e, conflict, [])
      | None \<Rightarrow> call_do_resolve_func env option conflict)"

definition option_not_applicable :: "svn_error option" where
  "option_not_applicable = svn_error_create SVN_ERR_CLIENT_CONFLICT_OPTION_NOT_APPLICABLE"

definition svn_client_conflict_text_resolve_by_id ::
  "wc_env \<Rightarrow> svn_client_conflict_t \<Rightarrow> svn_client_conflict_option_id_t \<Rightarrow> resolve_result" where
  "svn_client_conflict_text_resolve_by_id env conflict oid =
     (case svn_client_conflict_text_get_resolution_options env conflict of
        Inl e \<Rightarrow> (Some e, conflict, [])
      | Inr resolution_options \<Rightarrow>
         (case svn_client_conflict_option_find_by_id resolution_options oid of
            None \<Rightarrow> (option_not_applicable, conflict, [])
          | Some option \<Rightarrow> svn_client_conflict_text_resolve env conflict option))"

definition svn_client_conflict_prop_resolve_by_id ::
  "wc_env \<Rightarrow> svn_client_conflict_t \<Rightarrow> string \<Rightarrow> svn_client_conflict_option_id_t
     \<Rightarrow> resolve_result" where
  "svn_client_conflict_prop_resolve_by_id env conflict name oid =
     (case svn_client_conflict_prop_get_resolution_options env conflict of
        Inl e \<Rightarrow> (Some e, conflict, [])
      | Inr resolution_options \<Rightarrow>
         (case svn_client_conflict_option_find_by_id resolution_options oid of
            None \<Rightarrow> (option_not_applicable, conflict, [])
          | Some option \<Rightarrow> svn_client_conflict_prop_resolve env conflict name option))"

text \<open>
  The backwards compatibility block at the head of
  \<open>svn_client_conflict_tree_resolve_by_id\<close>: the option id it goes on with.
\<close>

definition tree_resolve_by_id_compat ::
  "svn_client_conflict_t \<Rightarrow> svn_client_conflict_option_id_t
     \<Rightarrow> svn_error + svn_client_conflict_option_id_t" where
  "tree_resolve_by_id_compat conflict oid =
     (if oid = svn_client_conflict_option_working_text_where_conflicted then
        (case get_conflict_desc2_t conflict of
           None \<Rightarrow> Inl (Svn_error C_UNDEFINED_BEHAVIOUR [])
         | Some d \<Rightarrow>
            if operation d = svn_wc_operation_update \<or> operation d = svn_wc_operation_switch then
              (if reason d = svn_wc_conflict_reason_moved_away
               then Inr svn_client_conflict_option_update_move_destination
               else if reason d = svn_wc_conflict_reason_deleted
                       \<or> reason d = svn_wc_conflict_reason_replaced then
                 (case svn_client_conflict_tree_get_victim_node_kind conflict of
                    Inl e \<Rightarrow> Inl e
                  | Inr victim_kind \<Rightarrow>
                     if action d = svn_wc_conflict_action_edit \<and> victim_kind = svn_node_dir
                     then Inr svn_client_conflict_option_update_any_moved_away_children
                     else Inr oid)
               else Inr oid)
            else Inr oid)
      else if oid = svn_client_conflict_option_merged_text
        then Inr svn_client_conflict_option_accept_current_wc_state
      else Inr oid)"

text \<open>
  \<open>svn_client_conflict_tree_resolve_by_id\<close>.  The calls made while the options are listed
  come before the calls of the resolver.
\<close>

definition svn_client_conflict_tree_resolve_by_id ::
  "wc_env \<Rightarrow> svn_client_conflict_t \<Rightarrow> svn_client_conflict_option_id_t \<Rightarrow> resolve_result" where
  "svn_client_conflict_tree_resolve_by_id env conflict oid =
     (case tree_resolve_by_id_compat conflict oid of
        Inl e \<Rightarrow> (Some e, conflict, [])
      | Inr oid' \<Rightarrow>
         (case svn_client_conflict_tree_get_resolution_options env conflict of
            (Inl e, listing_calls) \<Rightarrow> (Some e, conflict, listing_calls)
          | (Inr resolution_options, listing_calls) \<Rightarrow>
             (case svn_client_conflict_option_find_by_id resolution_options oid' of
                None \<Rightarrow> (option_not_applicable, conflict, listing_calls)
              | Some option \<Rightarrow>
                 (case svn_client_conflict_tree_resolve env conflict option of
                    (err, conflict', calls) \<Rightarrow> (err, conflict', listing_calls @ calls)))))"

text \<open>
  The two backwards-compatibility aliases in the words of the specification, for a
  conflict whose descriptor is \<open>d\<close>: \<open>working_text_where_conflicted\<close> becomes
  \<open>update_move_destination\<close> (when the operation is update or switch and the local reason is
  \<open>moved_away\<close>) or \<open>update_any_moved_away_children\<close> (when the local reason is \<open>deleted\<close> or
  \<open>replaced\<close>, the incoming action is \<open>edit\<close> and the victim is a directory), and
  \<open>merged_text\<close> becomes \<open>accept_current_wc_state\<close>.
\<close>

definition tree_option_alias ::
  "svn_wc_conflict_description2_t \<Rightarrow> svn_client_conflict_option_id_t
     \<Rightarrow> svn_client_conflict_option_id_t" where
  "tree_option_alias d oid =
     (if oid = svn_client_conflict_option_working_text_where_conflicted
         \<and> (operation d = svn_wc_operation_update \<or> operation d = svn_wc_operation_switch)
         \<and> reason d = svn_wc_conflict_reason_moved_away
      then svn_client_conflict_option_update_move_destination
      else if oid = svn_client_conflict_option_working_text_where_conflicted
         \<and> (reason d = svn_wc_conflict_reason_deleted \<or> reason d = svn_wc_conflict_reason_replaced)
         \<and> action d = svn_wc_conflict_action_edit
         \<and> node_kind d = svn_node_dir
      then svn_client_conflict_option_update_any_moved_away_children
      else if oid = svn_client_conflict_option_merged_text
      then svn_client_conflict_option_accept_current_wc_state
      else oid)"

section \<open>Sample conflicts and environments\<close>

text \<open>Concrete inputs on which the results below are exercised.\<close>

definition sample_version :: "string \<Rightarrow> svn_revnum \<Rightarrow> svn_node_kind_t \<Rightarrow> svn_wc_conflict_version_t" where
  "sample_version path r k =
     \<lparr> repos_url = ''http://svn.example.org/repos'', repos_uuid = ''uuid'',
       path_in_repos = path, peg_rev = r, version_node_kind = k \<rparr>"

definition sample_tree_desc ::
  "svn_wc_operation_t \<Rightarrow> svn_wc_conflict_action_t \<Rightarrow> svn_wc_conflict_reason_t
     \<Rightarrow> svn_wc_conflict_description2_t" where
  "sample_tree_desc op a r =
     \<lparr> kind = svn_wc_conflict_kind_tree, node_kind = svn_node_file, property_name = [],
       mime_type = None, operation = op, action = a, reason = r,
       src_left_version = Some (sample_version ''trunk/mu'' 5 svn_node_file),
       src_right_version = Some (sample_version ''trunk/mu'' 9 svn_node_none) \<rparr>"

definition sample_text_desc :: "string option \<Rightarrow> svn_wc_conflict_description2_t" where
  "sample_text_desc mime =
     \<lparr> kind = svn_wc_conflict_kind_text, node_kind = svn_node_file, property_name = [],
       mime_type = mime, operation = svn_wc_operation_update,
       action = svn_wc_conflict_action_edit, reason = svn_wc_conflict_reason_edited,
       src_left_version = Some (sample_version ''trunk/mu'' 5 svn_node_file),
       src_right_version = Some (sample_version ''trunk/mu'' 9 svn_node_file) \<rparr>"

definition sample_prop_desc :: "string \<Rightarrow> svn_wc_conflict_description2_t" where
  "sample_prop_desc name =
     \<lparr> kind = svn_wc_conflict_kind_property, node_kind = svn_node_file, property_name = name,
       mime_type = None, operation = svn_wc_operation_update,
       action = svn_wc_conflict_action_edit, reason = svn_wc_conflict_reason_edited,
       src_left_version = Some (sample_version ''trunk/mu'' 5 svn_node_file),
       src_right_version = Some (sample_version ''trunk/mu'' 9 svn_node_file) \<rparr>"

definition conflict_of_descs :: "svn_wc_conflict_description2_t list \<Rightarrow> svn_client_conflict_t" where
  "conflict_of_descs descs = fold add_legacy_desc_to_conflict descs (new_conflict ''/wc/mu'')"

text \<open>An environment in which every call succeeds; the node is a copy of
  \<open>trunk/mu@5\<close>, and a MIME type is binary unless it starts with \<open>text/\<close>.\<close>

definition ok_env :: wc_env where
  "ok_env =
     \<lparr> fails = (\<lambda>c. None), node_origin = (True, 5, ''trunk/mu''), on_disk_kind = svn_node_file,
       svn_mime_type_is_binary = (\<lambda>m. take 5 m \<noteq> ''text/''),
       node_base = (5, ''trunk/mu''), location_segments = [],
       svn_relpath_skip_ancestor = (\<lambda>parent child. None),
       svn_relpath_dirname = (\<lambda>p. []) \<rparr>"

definition sample_delete_details :: conflict_tree_incoming_delete_details where
  "sample_delete_details =
     \<lparr> deleted_rev = 7, added_rev = SVN_INVALID_REVNUM, repos_relpath = Some ''trunk/mu'',
       rev_author = Some ''jrandom'', replacing_node_kind = svn_node_none, move = None \<rparr>"

definition sample_delete_conflict :: svn_client_conflict_t where
  "sample_delete_conflict =
     (conflict_of_descs [sample_tree_desc svn_wc_operation_update svn_wc_conflict_action_delete
                           svn_wc_conflict_reason_edited])
       \<lparr> tree_conflict_incoming_details := Some (Incoming_delete_details sample_delete_details) \<rparr>"


section \<open>The discipline of the tree-conflict resolvers\<close>

text \<open>The calls that change the working copy node or its tree-conflict marker.\<close>

definition is_wc_mutation :: "wc_call \<Rightarrow> bool" where
  "is_wc_mutation c =
     (c = Wc_del_tree_conflict \<or> c = Wc_delete
      \<or> c = Wc_conflict_tree_update_break_moved_away
      \<or> c = Wc_conflict_tree_update_raise_moved_away
      \<or> c = Wc_conflict_tree_update_moved_away_node)"

text \<open>
  What a run of a tree-conflict resolver, started on \<open>conflict\<close> with \<open>option\<close>, must
  satisfy: a failed run leaves the conflict object as it was; a run records a resolution
  only by setting \<open>resolution_tree\<close> to the option's id, after a run in which every call
  it made succeeded, among them a working-copy mutation and the release of the write
  lock; and whenever the lock was released and the release failed, the returned error
  ends with the release error.
\<close>

definition resolver_discipline ::
  "wc_env \<Rightarrow> svn_client_conflict_option_t \<Rightarrow> svn_client_conflict_t \<Rightarrow> resolve_result \<Rightarrow> bool" where
  "resolver_discipline env option conflict res =
     (case res of (err, conflict', tr) \<Rightarrow>
        (err \<noteq> None \<longrightarrow> conflict' = conflict)
        \<and> (conflict' \<noteq> conflict \<longrightarrow>
             err = None
             \<and> conflict' = conflict\<lparr>resolution_tree := option_id option\<rparr>
             \<and> (\<forall>c \<in> set tr. fails env c = None)
             \<and> (\<exists>c \<in> set tr. is_wc_mutation c)
             \<and> Wc_release_write_lock \<in> set tr)
        \<and> (err = None \<longrightarrow> (\<forall>c \<in> set tr. fails env c = None))
        \<and> (Wc_release_write_lock \<in> set tr \<longrightarrow>
             (\<forall>r. fails env Wc_release_write_lock = Some r \<longrightarrow>
                (\<exists>pre. error_codes err = pre @ error_codes (Some r)))))"

definition is_tree_resolver :: "conflict_option_resolve_func_t \<Rightarrow> bool" where
  "is_tree_resolver f = (f \<noteq> resolve_text_conflict_fn \<and> f \<noteq> resolve_prop_conflict_fn)"

text \<open>
  What \<open>verify_local_state_for_incoming_delete\<close> demands of a conflict flagged by an
  update or switch (operation \<open>op\<close>), in the words of the specification: the details
  are present, the node's origin reports a copy, one of the two revisions is known,
  the copy source revision lies before the deletion (respectively at or after the
  addition), and the copy source path is the expected one.
\<close>

definition incoming_delete_preconditions ::
  "wc_env \<Rightarrow> svn_client_conflict_t \<Rightarrow> svn_wc_operation_t \<Rightarrow> bool" where
  "incoming_delete_preconditions env conflict op =
     (case tree_conflict_incoming_details conflict of
        Some (Incoming_delete_details details) \<Rightarrow>
          (case node_origin env of (is_copy, copyfrom_revnum, copyfrom_repos_relpath) \<Rightarrow>
             fails env Wc_node_get_origin = None
             \<and> is_copy
             \<and> (deleted_rev details \<noteq> SVN_INVALID_REVNUM \<or> added_rev details \<noteq> SVN_INVALID_REVNUM)
             \<and> (deleted_rev details \<noteq> SVN_INVALID_REVNUM \<longrightarrow> copyfrom_revnum < deleted_rev details)
             \<and> (added_rev details \<noteq> SVN_INVALID_REVNUM \<longrightarrow> copyfrom_revnum \<ge> added_rev details)
             \<and> (op = svn_wc_operation_update \<longrightarrow>
                   repos_relpath details = Some copyfrom_repos_relpath)
             \<and> (op = svn_wc_operation_switch \<longrightarrow>
                   (\<exists>r k. svn_client_conflict_get_incoming_old_repos_location conflict
                            = Some (Some copyfrom_repos_relpath, r, k))))
      | _ \<Rightarrow> False)"

text \<open>
  The calls that precede the checks succeed, and the records hold what the C code reads
  without a check: the details, when present, are delete details, and the path the copy
  source is compared with is not \<open>NULL\<close>.
\<close>

definition checks_are_reached ::
  "wc_env \<Rightarrow> svn_client_conflict_t \<Rightarrow> svn_wc_operation_t \<Rightarrow> bool" where
  "checks_are_reached env conflict op =
     (fails env Wc_acquire_write_lock_for_resolve = None
      \<and> fails env Wc_get_wcroot = None
      \<and> (case tree_conflict_incoming_details conflict of
            None \<Rightarrow> True
          | Some (Incoming_delete_details details) \<Rightarrow>
              fails env Wc_node_get_origin = None
              \<and> (op = svn_wc_operation_update \<longrightarrow> repos_relpath details \<noteq> None)
              \<and> (op = svn_wc_operation_switch \<longrightarrow>
                    (\<exists>p r k. svn_client_conflict_get_incoming_old_repos_location conflict
                               = Some (Some p, r, k)))
          | Some _ \<Rightarrow> False))"

text \<open>An environment in which the node at the conflict's path is not a copy, and one in
  which the write lock cannot be released.\<close>

definition not_copy_env :: wc_env where
  "not_copy_env = ok_env\<lparr> node_origin := (False, SVN_INVALID_REVNUM, []) \<rparr>"


definition ignore_option :: svn_client_conflict_option_t where
  "ignore_option =
     mk_option svn_client_conflict_option_incoming_delete_ignore resolve_incoming_delete_ignore_fn"

text \<open>The sample conflict after \<open>svn_client_conflict_tree_resolve_by_id\<close> with
  \<open>accept_current_wc_state\<close>, every call succeeding.\<close>

definition resolved_sample :: resolve_result where
  "resolved_sample =
     svn_client_conflict_tree_resolve_by_id ok_env sample_delete_conflict
       svn_client_conflict_option_accept_current_wc_state"

text \<open>
  A caller resolving on one conflict object several times: each call of
  \<open>svn_client_conflict_tree_resolve\<close> comes with its option and with the environment it
  meets, and works on the conflict object the previous call left.
\<close>

fun tree_resolve_all ::
  "svn_client_conflict_t \<Rightarrow> (wc_env \<times> svn_client_conflict_option_t) list
     \<Rightarrow> svn_client_conflict_t" where
  "tree_resolve_all conflict [] = conflict"
| "tree_resolve_all conflict ((env, option) # calls) =
     tree_resolve_all (fst (snd (svn_client_conflict_tree_resolve env conflict option))) calls"


text \<open>The tree conflict of an update that edits \<open>trunk/mu\<close>, which was moved away locally.\<close>

definition sample_moved_away_conflict :: svn_client_conflict_t where
  "sample_moved_away_conflict =
     conflict_of_descs [sample_tree_desc svn_wc_operation_update svn_wc_conflict_action_edit
                          svn_wc_conflict_reason_moved_away]"

subsection \<open>Sample runs of the details function\<close>

text \<open>
  A repository in which r7 deleted \<open>trunk/mu\<close>, and in which every node asked for has
  been at its path since r3.  The working copy is checked out from \<open>trunk\<close>.
\<close>

definition sample_repos_env :: repos_env where
  "sample_repos_env =
     \<lparr> repos_ra = sample_ra, repos_wc = ok_env,
       open_ra_session = (\<lambda>path. None),
       get_log = (\<lambda>path start_rev end_rev.
          ([\<lparr> revision = 7,
               changed_paths2 = Some
                 [(''/trunk/mu'',
                   \<lparr> log_action = CHR ''D'', log_copyfrom_path = None,
                     log_copyfrom_rev = SVN_INVALID_REVNUM, log_node_kind = svn_node_file \<rparr>)],
               log_author = Some ''jrandom'' \<rparr>], None)),
       get_location_segments = (\<lambda>path peg start_rev end_rev.
          Inr [\<lparr> range_start = 3, range_end = peg, segment_path = Some path \<rparr>]),
       rev_prop_author = (\<lambda>path r. Inr (Some ''jrandom'')),
       check_path = (\<lambda>path r. Inr svn_node_none),
       node_get_repos_relpath = (\<lambda>abspath. Inr (Some ''trunk'')),
       svn_relpath_join = (\<lambda>parent child. parent @ ''/'' @ child),
       svn_relpath_basename = (\<lambda>path. ''mu''),
       svn_dirent_basename = (\<lambda>path. ''mu''),
       svn_dirent_dirname = (\<lambda>path. ''/wc''),
       indeterminate_move = None \<rparr>"

text \<open>The tree conflict of an update from r5 to r9 that deletes \<open>trunk/mu\<close>, freshly
  opened.\<close>

definition sample_update_conflict :: svn_client_conflict_t where
  "sample_update_conflict =
     conflict_of_descs [sample_tree_desc svn_wc_operation_update svn_wc_conflict_action_delete
                          svn_wc_conflict_reason_edited]"

text \<open>The tree conflict of a switch from \<open>branches/b1\<close> to \<open>branches/b2\<close>, both at r5,
  where \<open>branches/b2\<close> has no \<open>mu\<close>.\<close>

definition sample_switch_desc :: svn_wc_conflict_description2_t where
  "sample_switch_desc =
     \<lparr> kind = svn_wc_conflict_kind_tree, node_kind = svn_node_file, property_name = [],
       mime_type = None, operation = svn_wc_operation_switch,
       action = svn_wc_conflict_action_delete, reason = svn_wc_conflict_reason_edited,
       src_left_version = Some (sample_version ''branches/b1/mu'' 5 svn_node_file),
       src_right_version = Some (sample_version ''branches/b2/mu'' 5 svn_node_none) \<rparr>"

definition sample_switch_conflict :: svn_client_conflict_t where
  "sample_switch_conflict = conflict_of_descs [sample_switch_desc]"

text \<open>The tree conflict of an update of \<open>trunk/nu\<close> from r9 back to r5, before which the
  node did not exist.\<close>

definition sample_backward_desc :: svn_wc_conflict_description2_t where
  "sample_backward_desc =
     \<lparr> kind = svn_wc_conflict_kind_tree, node_kind = svn_node_file, property_name = [],
       mime_type = None, operation = svn_wc_operation_update,
       action = svn_wc_conflict_action_delete, reason = svn_wc_conflict_reason_edited,
       src_left_version = Some (sample_version ''trunk/nu'' 9 svn_node_file),
       src_right_version = Some (sample_version ''trunk/nu'' 5 svn_node_none) \<rparr>"

definition sample_backward_conflict :: svn_client_conflict_t where
  "sample_backward_conflict = conflict_of_descs [sample_backward_desc]"

definition sample_reverse_details :: "string \<Rightarrow> conflict_tree_incoming_delete_details" where
  "sample_reverse_details path =
     \<lparr> deleted_rev = SVN_INVALID_REVNUM, added_rev = 3,
       repos_relpath = Some path, rev_author = Some ''jrandom'',
       replacing_node_kind = svn_node_none, move = None \<rparr>"

definition with_details ::
  "svn_client_conflict_t \<Rightarrow> conflict_tree_incoming_delete_details \<Rightarrow> svn_client_conflict_t" where
  "with_details conflict details =
     conflict\<lparr>tree_conflict_incoming_details := Some (Incoming_delete_details details)\<rparr>"

section \<open>Results on the conflict object\<close>

text \<open>
  Claim C10.  When the conflicted-property-names output of
  \<open>svn_client_conflict_get_conflicted\<close> is requested it is always a list (the keys of
  \<open>prop_conflicts\<close>; empty when the hash is missing or empty), never absent; and each of
  the three outputs depends only on its own request and on the conflict, so any subset
  of them may be requested.
\<close>

theorem get_conflicted_outputs_independent:
  "fst (snd (svn_client_conflict_get_conflicted want_text True want_tree conflict))
     = Some (case prop_conflicts conflict of None \<Rightarrow> [] | Some h \<Rightarrow> svn_hash_keys h)
   \<and> ((prop_conflicts conflict = None \<or> prop_conflicts conflict = Some [])
        \<longrightarrow> fst (snd (svn_client_conflict_get_conflicted want_text True want_tree conflict))
              = Some [])
   \<and> fst (svn_client_conflict_get_conflicted want_text want_props want_tree conflict)
       = fst (svn_client_conflict_get_conflicted want_text False False conflict)
   \<and> fst (snd (svn_client_conflict_get_conflicted want_text want_props want_tree conflict))
       = fst (snd (svn_client_conflict_get_conflicted False want_props False conflict))
   \<and> snd (snd (svn_client_conflict_get_conflicted want_text want_props want_tree conflict))
       = snd (snd (svn_client_conflict_get_conflicted False False want_tree conflict))
   \<and> (want_text \<longrightarrow>
         fst (svn_client_conflict_get_conflicted want_text want_props want_tree conflict)
           = Some (legacy_text_conflict conflict \<noteq> None))
   \<and> (want_tree \<longrightarrow>
         snd (snd (svn_client_conflict_get_conflicted want_text want_props want_tree conflict))
           = Some (legacy_tree_conflict conflict \<noteq> None))"
  by (auto simp add: svn_client_conflict_get_conflicted_def svn_hash_keys_def
           split: option.splits)

lemma conflict_of_tree_desc_props:
  "prop_conflicts (conflict_of_descs [sample_tree_desc op a r]) = None"
  by (simp add: conflict_of_descs_def add_legacy_desc_to_conflict_def sample_tree_desc_def
        new_conflict_def)

theorem get_conflicted_outputs_independent_witness:
  "fst (snd (svn_client_conflict_get_conflicted False True False
        (conflict_of_descs [sample_tree_desc svn_wc_operation_update svn_wc_conflict_action_delete
                              svn_wc_conflict_reason_edited]))) = Some []
   \<and> snd (snd (svn_client_conflict_get_conflicted True True True
        (conflict_of_descs [sample_tree_desc svn_wc_operation_update svn_wc_conflict_action_delete
                              svn_wc_conflict_reason_edited]))) = Some True"
proof -
  let ?c = "conflict_of_descs [sample_tree_desc svn_wc_operation_update
                                 svn_wc_conflict_action_delete svn_wc_conflict_reason_edited]"
  have p: "prop_conflicts ?c = None \<or> prop_conflicts ?c = Some []"
    by (simp add: conflict_of_tree_desc_props)
  have t: "legacy_tree_conflict ?c \<noteq> None"
    by (simp add: conflict_of_descs_def add_legacy_desc_to_conflict_def sample_tree_desc_def
          new_conflict_def)
  have a: "fst (snd (svn_client_conflict_get_conflicted False True False ?c)) = Some []"
    using get_conflicted_outputs_independent
            [where want_text = False and want_tree = False and conflict = ?c] p
    by blast
  have "snd (snd (svn_client_conflict_get_conflicted True True True ?c))
          = Some (legacy_tree_conflict ?c \<noteq> None)"
    using get_conflicted_outputs_independent
            [where want_text = True and want_props = True and want_tree = True and conflict = ?c]
    by blast
  then have b: "snd (snd (svn_client_conflict_get_conflicted True True True ?c)) = Some True"
    using t by simp
  show ?thesis using a b by simp
qed


section \<open>Results on the resolution options\<close>

lemma text_conflict_option_ids:
  "map option_id text_conflict_options =
     [ svn_client_conflict_option_postpone, svn_client_conflict_option_base_text,
       svn_client_conflict_option_incoming_text, svn_client_conflict_option_working_text,
       svn_client_conflict_option_incoming_text_where_conflicted,
       svn_client_conflict_option_working_text_where_conflicted,
       svn_client_conflict_option_merged_text ]"
  by (simp add: text_conflict_options_def mk_option_def)

lemma binary_conflict_option_ids:
  "map option_id binary_conflict_options =
     [ svn_client_conflict_option_postpone, svn_client_conflict_option_incoming_text,
       svn_client_conflict_option_working_text, svn_client_conflict_option_merged_text ]"
  by (simp add: binary_conflict_options_def mk_option_def)

lemma text_options_of_text_conflict:
  assumes "legacy_text_conflict conflict = Some d"
  shows "svn_client_conflict_text_get_resolution_options env conflict =
           Inr (if (\<exists>m. mime_type d = Some m \<and> svn_mime_type_is_binary env m)
                then binary_conflict_options else text_conflict_options)"
  using assms
  by (auto simp add: svn_client_conflict_text_get_resolution_options_def assert_text_conflict_def
        svn_client_conflict_text_get_mime_type_def get_conflict_desc2_t_def
        split: option.splits)

text \<open>
  Claim C3 (as amended).  For a text conflict whose MIME type is marked binary,
  \<open>svn_client_conflict_text_get_resolution_options\<close> returns exactly postpone,
  incoming\_text, working\_text, merged\_text: the full text option set without base\_text
  and without the incoming/working\_text\_where\_conflicted pair.  For any other text
  conflict (no MIME type, or one not marked binary) it returns the full set postpone,
  base\_text, incoming\_text, working\_text, incoming\_text\_where\_conflicted,
  working\_text\_where\_conflicted, merged\_text.
\<close>

theorem text_get_resolution_options_ids:
  assumes "legacy_text_conflict conflict = Some d"
  shows "\<exists>options. svn_client_conflict_text_get_resolution_options env conflict = Inr options
           \<and> map option_id options =
               (if (\<exists>m. mime_type d = Some m \<and> svn_mime_type_is_binary env m)
                then [ svn_client_conflict_option_postpone,
                       svn_client_conflict_option_incoming_text,
                       svn_client_conflict_option_working_text,
                       svn_client_conflict_option_merged_text ]
                else [ svn_client_conflict_option_postpone,
                       svn_client_conflict_option_base_text,
                       svn_client_conflict_option_incoming_text,
                       svn_client_conflict_option_working_text,
                       svn_client_conflict_option_incoming_text_where_conflicted,
                       svn_client_conflict_option_working_text_where_conflicted,
                       svn_client_conflict_option_merged_text ])"
  using text_options_of_text_conflict [OF assms, of env]
  by (simp add: text_conflict_option_ids binary_conflict_option_ids)

lemma sample_binary_conflict_text:
  "legacy_text_conflict (conflict_of_descs [sample_text_desc (Some ''application/octet-stream'')])
     = Some (sample_text_desc (Some ''application/octet-stream''))"
  by (simp add: conflict_of_descs_def add_legacy_desc_to_conflict_def sample_text_desc_def
        new_conflict_def)

lemma sample_binary_mime:
  "\<exists>m. mime_type (sample_text_desc (Some ''application/octet-stream'')) = Some m
        \<and> svn_mime_type_is_binary ok_env m"
  by (simp add: sample_text_desc_def ok_env_def)

theorem text_get_resolution_options_ids_witness:
  "\<exists>options.
     svn_client_conflict_text_get_resolution_options ok_env
       (conflict_of_descs [sample_text_desc (Some ''application/octet-stream'')]) = Inr options
     \<and> map option_id options =
         [ svn_client_conflict_option_postpone, svn_client_conflict_option_incoming_text,
           svn_client_conflict_option_working_text, svn_client_conflict_option_merged_text ]"
  using text_get_resolution_options_ids [OF sample_binary_conflict_text, of ok_env]
        sample_binary_mime
  by simp

text \<open>
  The claim as stated fails on a binary text conflict: the options returned are not the
  full set with only the where\_conflicted pair removed, because base\_text is missing too.
\<close>

theorem text_options_binary_counterexample:
  "svn_client_conflict_text_get_resolution_options ok_env
       (conflict_of_descs [sample_text_desc (Some ''application/octet-stream'')])
     = Inr binary_conflict_options
   \<and> map option_id binary_conflict_options \<noteq>
         [ svn_client_conflict_option_postpone, svn_client_conflict_option_base_text,
           svn_client_conflict_option_incoming_text, svn_client_conflict_option_working_text,
           svn_client_conflict_option_merged_text ]"
  using text_options_of_text_conflict [OF sample_binary_conflict_text, of ok_env]
        sample_binary_mime
  by (simp add: binary_conflict_option_ids)


section \<open>Results on resolving by option id\<close>

lemma find_by_id_Some:
  "svn_client_conflict_option_find_by_id options oid = Some option
     \<Longrightarrow> option \<in> set options \<and> option_id option = oid"
  by (induction options) (auto split: if_splits)

lemma find_by_id_None:
  "(svn_client_conflict_option_find_by_id options oid = None) = (oid \<notin> option_id ` set options)"
  by (induction options) auto

lemma find_by_id_present:
  assumes "oid \<in> option_id ` set options"
  shows "\<exists>option \<in> set options. option_id option = oid
           \<and> svn_client_conflict_option_find_by_id options oid = Some option"
proof -
  from assms have "svn_client_conflict_option_find_by_id options oid \<noteq> None"
    by (simp add: find_by_id_None)
  then obtain option where f: "svn_client_conflict_option_find_by_id options oid = Some option"
    by blast
  with find_by_id_Some [OF f] show ?thesis by blast
qed

subsection \<open>Text and property conflicts\<close>

lemma text_options_assert:
  "svn_client_conflict_text_get_resolution_options env conflict = Inr options
     \<Longrightarrow> assert_text_conflict conflict = None"
  by (simp add: svn_client_conflict_text_get_resolution_options_def split: option.splits)

lemma prop_options_assert:
  "svn_client_conflict_prop_get_resolution_options env conflict = Inr options
     \<Longrightarrow> assert_prop_conflict conflict = None"
  by (simp add: svn_client_conflict_prop_get_resolution_options_def split: option.splits)

lemma text_options_tables:
  "svn_client_conflict_text_get_resolution_options env conflict = Inr options
     \<Longrightarrow> options = binary_conflict_options \<or> options = text_conflict_options"
  by (auto simp add: svn_client_conflict_text_get_resolution_options_def
        split: option.splits sum.splits if_splits)

lemma prop_options_table:
  "svn_client_conflict_prop_get_resolution_options env conflict = Inr options
     \<Longrightarrow> options = prop_conflict_options"
  by (auto simp add: svn_client_conflict_prop_get_resolution_options_def split: option.splits)

lemma find_in_text_conflict_options:
  "svn_client_conflict_option_find_by_id text_conflict_options oid
     = (if oid \<in> option_id ` set text_conflict_options
        then Some (mk_option oid (if oid = svn_client_conflict_option_postpone
                                  then resolve_postpone_fn else resolve_text_conflict_fn))
        else None)"
  by (cases oid) (simp_all add: text_conflict_options_def mk_option_def)

lemma find_in_binary_conflict_options:
  "svn_client_conflict_option_find_by_id binary_conflict_options oid
     = (if oid \<in> option_id ` set binary_conflict_options
        then Some (mk_option oid (if oid = svn_client_conflict_option_postpone
                                  then resolve_postpone_fn else resolve_text_conflict_fn))
        else None)"
  by (cases oid) (simp_all add: binary_conflict_options_def mk_option_def)

lemma find_in_prop_conflict_options:
  "svn_client_conflict_option_find_by_id prop_conflict_options oid
     = (if oid \<in> option_id ` set prop_conflict_options
        then Some (mk_option oid (if oid = svn_client_conflict_option_postpone
                                  then resolve_postpone_fn else resolve_prop_conflict_fn))
        else None)"
  by (cases oid) (simp_all add: prop_conflict_options_def mk_option_def)

lemma text_resolve_by_id_dispatch:
  assumes "svn_client_conflict_text_get_resolution_options env conflict = Inr options"
  shows "(oid \<in> option_id ` set options \<longrightarrow>
            svn_client_conflict_text_resolve_by_id env conflict oid
              = (if oid = svn_client_conflict_option_postpone
                 then resolve_postpone env (mk_option oid resolve_postpone_fn) conflict
                 else resolve_text_conflict env (mk_option oid resolve_text_conflict_fn) conflict))
         \<and> (oid \<notin> option_id ` set options \<longrightarrow>
              svn_client_conflict_text_resolve_by_id env conflict oid
                = (Some (Svn_error SVN_ERR_CLIENT_CONFLICT_OPTION_NOT_APPLICABLE []), conflict, []))"
proof -
  have a: "assert_text_conflict conflict = None"
    using assms by (rule text_options_assert)
  have f: "svn_client_conflict_option_find_by_id options oid
             = (if oid \<in> option_id ` set options
                then Some (mk_option oid (if oid = svn_client_conflict_option_postpone
                                          then resolve_postpone_fn else resolve_text_conflict_fn))
                else None)"
    using text_options_tables [OF assms] find_in_text_conflict_options
          find_in_binary_conflict_options
    by blast
  show ?thesis
    using assms a
    by (simp add: svn_client_conflict_text_resolve_by_id_def f
          svn_client_conflict_text_resolve_def call_do_resolve_func_def mk_option_def
          option_not_applicable_def svn_error_create_def)
qed

lemma prop_resolve_by_id_dispatch:
  assumes "svn_client_conflict_prop_get_resolution_options env conflict = Inr options"
  shows "(oid \<in> option_id ` set options \<longrightarrow>
            svn_client_conflict_prop_resolve_by_id env conflict name oid
              = (if oid = svn_client_conflict_option_postpone
                 then resolve_postpone env
                        ((mk_option oid resolve_postpone_fn)\<lparr>propname := Some name\<rparr>) conflict
                 else resolve_prop_conflict env
                        ((mk_option oid resolve_prop_conflict_fn)\<lparr>propname := Some name\<rparr>)
                        conflict))
         \<and> (oid \<notin> option_id ` set options \<longrightarrow>
              svn_client_conflict_prop_resolve_by_id env conflict name oid
                = (Some (Svn_error SVN_ERR_CLIENT_CONFLICT_OPTION_NOT_APPLICABLE []), conflict, []))"
proof -
  have a: "assert_prop_conflict conflict = None"
    using assms by (rule prop_options_assert)
  have f: "svn_client_conflict_option_find_by_id options oid
             = (if oid \<in> option_id ` set options
                then Some (mk_option oid (if oid = svn_client_conflict_option_postpone
                                          then resolve_postpone_fn else resolve_prop_conflict_fn))
                else None)"
    using prop_options_table [OF assms] find_in_prop_conflict_options
    by blast
  show ?thesis
    using assms a
    by (simp add: svn_client_conflict_prop_resolve_by_id_def f
          svn_client_conflict_prop_resolve_def call_do_resolve_func_def mk_option_def
          option_not_applicable_def svn_error_create_def)
qed


subsection \<open>Tree conflicts\<close>

lemma configure_all_Inr_preserves:
  "(\<forall>f \<in> set fs. \<forall>options options' tr.
       P options \<longrightarrow> f env conflict options = (Inr options', tr) \<longrightarrow> P options')
     \<Longrightarrow> P options
     \<Longrightarrow> configure_all fs env conflict options = (Inr options', tr)
     \<Longrightarrow> P options'"
proof (induction fs arbitrary: options tr)
  case Nil
  then show ?case by simp
next
  case (Cons f fs)
  have "f \<in> set (f # fs)"
    by simp
  with Cons.prems(1) have "\<forall>os os' t. P os \<longrightarrow> f env conflict os = (Inr os', t) \<longrightarrow> P os'"
    by (rule bspec)
  then have sf: "\<And>os os' t. P os \<Longrightarrow> f env conflict os = (Inr os', t) \<Longrightarrow> P os'"
    by blast
  have rest: "\<forall>g \<in> set fs. \<forall>options options' tr.
                P options \<longrightarrow> g env conflict options = (Inr options', tr) \<longrightarrow> P options'"
  proof (rule ballI)
    fix g assume "g \<in> set fs"
    then have "g \<in> set (f # fs)"
      by simp
    with Cons.prems(1)
    show "\<forall>options options' tr.
            P options \<longrightarrow> g env conflict options = (Inr options', tr) \<longrightarrow> P options'"
      by (rule bspec)
  qed
  obtain r1 tr1 where f1: "f env conflict options = (r1, tr1)"
    by (cases "f env conflict options") auto
  show ?case
  proof (cases r1)
    case (Inl e)
    have "configure_all (f # fs) env conflict options = (Inl e, tr1)"
      by (simp add: f1 Inl)
    then show ?thesis using Cons.prems(3) by simp
  next
    case (Inr options1)
    have "f env conflict options = (Inr options1, tr1)"
      using f1 Inr by simp
    then have p1: "P options1"
      by (rule sf [OF Cons.prems(2)])
    obtain r2 tr2 where f2: "configure_all fs env conflict options1 = (r2, tr2)"
      by (cases "configure_all fs env conflict options1") auto
    have "configure_all (f # fs) env conflict options = (r2, tr1 @ tr2)"
      by (simp add: f1 Inr f2)
    then have "r2 = Inr options'"
      using Cons.prems(3) by simp
    then have c2: "configure_all fs env conflict options1 = (Inr options', tr2)"
      using f2 by simp
    show ?thesis
      using Cons.IH [OF rest p1 c2] .
  qed
qed

declare configure_all.simps [simp del]

lemma tree_options_assert:
  assumes "svn_client_conflict_tree_get_resolution_options env conflict = (Inr options, tr)"
  shows "assert_tree_conflict conflict = None"
proof (cases "assert_tree_conflict conflict")
  case None
  then show ?thesis .
next
  case (Some e)
  have "svn_client_conflict_tree_get_resolution_options env conflict = (Inl e, [])"
    by (simp only: svn_client_conflict_tree_get_resolution_options_def Some option.case)
  then show ?thesis using assms by simp
qed

lemma tree_conflict_desc:
  assumes "assert_tree_conflict conflict = None"
  shows "\<exists>d. get_conflict_desc2_t conflict = Some d
           \<and> svn_client_conflict_tree_get_victim_node_kind conflict = Inr (node_kind d)"
  using assms
  by (auto simp add: assert_tree_conflict_def svn_error_create_def get_conflict_desc2_t_def
        svn_client_conflict_tree_get_victim_node_kind_def split: option.splits if_splits)

text \<open>No tree option carries the id \<open>working_text_where_conflicted\<close>, and
  \<open>update_any_moved_away_children\<close> is offered for an update or a switch only.\<close>

lemma append_option_with_wcroot_ids:
  assumes "append_option_with_wcroot env applies option options = (Inr options', tr)"
  shows "set options' \<subseteq> insert option (set options)"
  using assms
  by (auto simp add: append_option_with_wcroot_def split: if_splits option.splits)

lemma configure_merge_incoming_added_ids:
  assumes "configure_option_merge_incoming_added k oid f env conflict options = (Inr options', tr)"
  shows "set options' \<subseteq> insert (mk_option oid f) (set options)"
  using assms append_option_with_wcroot_ids
  by (auto simp add: configure_option_merge_incoming_added_def
        split: option.splits sum.splits prod.splits)

lemma tree_options_ids:
  assumes l: "svn_client_conflict_tree_get_resolution_options env conflict = (Inr options, tr)"
      and d: "get_conflict_desc2_t conflict = Some d"
  shows "svn_client_conflict_option_working_text_where_conflicted \<notin> option_id ` set options
         \<and> (svn_client_conflict_option_update_any_moved_away_children \<in> option_id ` set options
              \<longrightarrow> operation d = svn_wc_operation_update \<or> operation d = svn_wc_operation_switch)"
proof -
  let ?P = "\<lambda>options. \<forall>option \<in> set options.
              option_id option \<noteq> svn_client_conflict_option_working_text_where_conflicted
              \<and> (option_id option = svn_client_conflict_option_update_any_moved_away_children
                   \<longrightarrow> operation d = svn_wc_operation_update
                        \<or> operation d = svn_wc_operation_switch)"
  let ?fs = "[ configure_option_accept_current_wc_state,
               configure_option_update_move_destination,
               configure_option_update_raise_moved_away_children,
               configure_option_merge_incoming_add_ignore,
               configure_option_merge_incoming_added_file_text_merge,
               configure_option_merge_incoming_added_file_replace,
               configure_option_merge_incoming_added_file_replace_and_merge,
               configure_option_merge_incoming_added_dir_merge,
               configure_option_merge_incoming_added_dir_replace,
               configure_option_merge_incoming_added_dir_replace_and_merge,
               configure_option_incoming_delete_ignore,
               configure_option_incoming_delete_accept ]"
  have a: "assert_tree_conflict conflict = None"
    using l by (rule tree_options_assert)
  have run: "configure_all ?fs env conflict
               [mk_option svn_client_conflict_option_postpone resolve_postpone_fn]
             = (Inr options, tr)"
    using l by (simp only: svn_client_conflict_tree_get_resolution_options_def a option.case)
  have start: "?P [mk_option svn_client_conflict_option_postpone resolve_postpone_fn]"
    by (simp add: mk_option_def)
  have added: "?P os'"
    if "?P os" "configure_option_merge_incoming_added k oid f env conflict os = (Inr os', t)"
       "oid \<noteq> svn_client_conflict_option_working_text_where_conflicted"
       "oid \<noteq> svn_client_conflict_option_update_any_moved_away_children"
    for os os' t k oid f
    using that(1,3,4) configure_merge_incoming_added_ids [OF that(2)]
    by (auto simp add: mk_option_def)
  have step: "?P os'"
    if mem: "f \<in> set ?fs" and p: "?P os" and r: "f env conflict os = (Inr os', t)"
    for f os os' t
  proof -
    consider
        (1) "f = configure_option_accept_current_wc_state"
      | (2) "f = configure_option_update_move_destination"
      | (3) "f = configure_option_update_raise_moved_away_children"
      | (4) "f = configure_option_merge_incoming_add_ignore"
      | (5) "f = configure_option_merge_incoming_added_file_text_merge"
      | (6) "f = configure_option_merge_incoming_added_file_replace"
      | (7) "f = configure_option_merge_incoming_added_file_replace_and_merge"
      | (8) "f = configure_option_merge_incoming_added_dir_merge"
      | (9) "f = configure_option_merge_incoming_added_dir_replace"
      | (10) "f = configure_option_merge_incoming_added_dir_replace_and_merge"
      | (11) "f = configure_option_incoming_delete_ignore"
      | (12) "f = configure_option_incoming_delete_accept"
      using mem by auto
    then show ?thesis
    proof cases
      case 1
      then show ?thesis
        using p r d
        by (auto simp add: configure_option_accept_current_wc_state_def mk_option_def)
    next
      case 2
      then show ?thesis
        using p r d
        by (auto simp add: configure_option_update_move_destination_def mk_option_def
              split: if_splits)
    next
      case 3
      then show ?thesis
        using p r d
        by (auto simp add: configure_option_update_raise_moved_away_children_def mk_option_def
              split: if_splits sum.splits)
    next
      case 4
      then have "set os' \<subseteq> insert (mk_option svn_client_conflict_option_merge_incoming_add_ignore
                                        resolve_merge_incoming_add_ignore_fn) (set os)"
        using r d append_option_with_wcroot_ids
        by (simp add: configure_option_merge_incoming_add_ignore_def)
      then show ?thesis
        using p by (auto simp add: mk_option_def)
    next
      case 5
      then show ?thesis
        using added [OF p] r
        by (simp add: configure_option_merge_incoming_added_file_text_merge_def)
    next
      case 6
      then show ?thesis
        using added [OF p] r
        by (simp add: configure_option_merge_incoming_added_file_replace_def)
    next
      case 7
      then show ?thesis
        using added [OF p] r
        by (simp add: configure_option_merge_incoming_added_file_replace_and_merge_def)
    next
      case 8
      then show ?thesis
        using added [OF p] r
        by (simp add: configure_option_merge_incoming_added_dir_merge_def)
    next
      case 9
      then show ?thesis
        using added [OF p] r
        by (simp add: configure_option_merge_incoming_added_dir_replace_def)
    next
      case 10
      then show ?thesis
        using added [OF p] r
        by (simp add: configure_option_merge_incoming_added_dir_replace_and_merge_def)
    next
      case 11
      then show ?thesis
        using p r d
        by (auto simp add: configure_option_incoming_delete_ignore_def mk_option_def
              split: if_splits)
    next
      case 12
      then have "set os' \<subseteq> insert (mk_option svn_client_conflict_option_incoming_delete_accept
                                        resolve_incoming_delete_accept_fn) (set os)"
        using r d append_option_with_wcroot_ids
        by (simp add: configure_option_incoming_delete_accept_def)
      then show ?thesis
        using p by (auto simp add: mk_option_def)
    qed
  qed
  have all: "\<forall>f \<in> set ?fs. \<forall>os os' t.
               ?P os \<longrightarrow> f env conflict os = (Inr os', t) \<longrightarrow> ?P os'"
    using step by blast
  have "?P options"
    using configure_all_Inr_preserves [of ?fs ?P env conflict, OF all start run] .
  then show ?thesis by auto
qed


lemma tree_resolve_by_id_compat_alias:
  assumes "get_conflict_desc2_t conflict = Some d"
      and "svn_client_conflict_tree_get_victim_node_kind conflict = Inr (node_kind d)"
  shows "tree_resolve_by_id_compat conflict oid = Inr (tree_option_alias d oid)
         \<or> (tree_resolve_by_id_compat conflict oid
               = Inr svn_client_conflict_option_working_text_where_conflicted
             \<and> tree_option_alias d oid = svn_client_conflict_option_update_any_moved_away_children
             \<and> \<not> (operation d = svn_wc_operation_update \<or> operation d = svn_wc_operation_switch))"
  using assms
  by (simp add: tree_resolve_by_id_compat_def tree_option_alias_def)

lemma tree_resolve_by_id_dispatch:
  assumes l: "svn_client_conflict_tree_get_resolution_options env conflict
                = (Inr options, listing_calls)"
  shows "\<exists>d. get_conflict_desc2_t conflict = Some d
          \<and> (tree_option_alias d oid \<in> option_id ` set options \<longrightarrow>
               (\<exists>option \<in> set options. option_id option = tree_option_alias d oid
                  \<and> svn_client_conflict_tree_resolve_by_id env conflict oid
                      = (case (case do_resolve_func option of
                                 resolve_postpone_fn \<Rightarrow> resolve_postpone env option conflict
                               | resolve_text_conflict_fn \<Rightarrow>
                                   resolve_text_conflict env option conflict
                               | resolve_prop_conflict_fn \<Rightarrow>
                                   resolve_prop_conflict env option conflict
                               | resolve_accept_current_wc_state_fn \<Rightarrow>
                                   resolve_accept_current_wc_state env option conflict
                               | resolve_update_break_moved_away_fn \<Rightarrow>
                                   resolve_update_break_moved_away env option conflict
                               | resolve_update_raise_moved_away_fn \<Rightarrow>
                                   resolve_update_raise_moved_away env option conflict
                               | resolve_update_moved_away_node_fn \<Rightarrow>
                                   resolve_update_moved_away_node env option conflict
                               | resolve_merge_incoming_add_ignore_fn \<Rightarrow>
                                   resolve_merge_incoming_add_ignore env option conflict
                               | resolve_merge_incoming_added_file_text_merge_fn \<Rightarrow>
                                   resolve_merge_incoming_added_file_text_merge env option conflict
                               | resolve_merge_incoming_added_file_replace_fn \<Rightarrow>
                                   resolve_merge_incoming_added_file_replace env option conflict
                               | resolve_merge_incoming_added_file_replace_and_merge_fn \<Rightarrow>
                                   resolve_merge_incoming_added_file_replace_and_merge env option
                                     conflict
                               | resolve_merge_incoming_added_dir_merge_fn \<Rightarrow>
                                   resolve_merge_incoming_added_dir_merge env option conflict
                               | resolve_merge_incoming_added_dir_replace_fn \<Rightarrow>
                                   resolve_merge_incoming_added_dir_replace env option conflict
                               | resolve_merge_incoming_added_dir_replace_and_merge_fn \<Rightarrow>
                                   resolve_merge_incoming_added_dir_replace_and_merge env option
                                     conflict
                               | resolve_incoming_delete_ignore_fn \<Rightarrow>
                                   resolve_incoming_delete_ignore env option conflict
                               | resolve_incoming_delete_accept_fn \<Rightarrow>
                                   resolve_incoming_delete_accept env option conflict) of
                           (err, conflict', calls) \<Rightarrow> (err, conflict', listing_calls @ calls))))
          \<and> (tree_option_alias d oid \<notin> option_id ` set options \<longrightarrow>
               svn_client_conflict_tree_resolve_by_id env conflict oid
                 = (Some (Svn_error SVN_ERR_CLIENT_CONFLICT_OPTION_NOT_APPLICABLE []),
                    conflict, listing_calls))"
proof -
  have a: "assert_tree_conflict conflict = None"
    using l by (rule tree_options_assert)
  from tree_conflict_desc [OF a] obtain d where
    d: "get_conflict_desc2_t conflict = Some d"
       "svn_client_conflict_tree_get_victim_node_kind conflict = Inr (node_kind d)"
    by blast
  note ids = tree_options_ids [OF l d(1)]
  have absent: "svn_client_conflict_tree_resolve_by_id env conflict oid
                 = (Some (Svn_error SVN_ERR_CLIENT_CONFLICT_OPTION_NOT_APPLICABLE []),
                    conflict, listing_calls)"
    if c: "tree_resolve_by_id_compat conflict oid = Inr oid'"
       and n: "oid' \<notin> option_id ` set options" for oid'
  proof -
    from n have "svn_client_conflict_option_find_by_id options oid' = None"
      by (simp add: find_by_id_None)
    then show ?thesis
      by (simp add: svn_client_conflict_tree_resolve_by_id_def c l option_not_applicable_def
            svn_error_create_def)
  qed
  consider
      (same) "tree_resolve_by_id_compat conflict oid = Inr (tree_option_alias d oid)"
    | (differ) "tree_resolve_by_id_compat conflict oid
                  = Inr svn_client_conflict_option_working_text_where_conflicted"
               "tree_option_alias d oid = svn_client_conflict_option_update_any_moved_away_children"
               "\<not> (operation d = svn_wc_operation_update \<or> operation d = svn_wc_operation_switch)"
    using tree_resolve_by_id_compat_alias [OF d, of oid] by blast
  then show ?thesis
  proof cases
    case same
    have present: "\<exists>option \<in> set options. option_id option = tree_option_alias d oid
            \<and> svn_client_conflict_tree_resolve_by_id env conflict oid
                = (case call_do_resolve_func env option conflict of
                     (err, conflict', calls) \<Rightarrow> (err, conflict', listing_calls @ calls))"
      if "tree_option_alias d oid \<in> option_id ` set options"
    proof -
      from find_by_id_present [OF that] obtain option where
        o: "option \<in> set options" "option_id option = tree_option_alias d oid"
           "svn_client_conflict_option_find_by_id options (tree_option_alias d oid) = Some option"
        by blast
      have "svn_client_conflict_tree_resolve_by_id env conflict oid
              = (case call_do_resolve_func env option conflict of
                   (err, conflict', calls) \<Rightarrow> (err, conflict', listing_calls @ calls))"
        by (simp add: svn_client_conflict_tree_resolve_by_id_def same l o(3)
              svn_client_conflict_tree_resolve_def a)
      with o show ?thesis by blast
    qed
    show ?thesis
      using d(1) present absent [OF same]
      unfolding call_do_resolve_func_def by blast
  next
    case differ
    have n1: "svn_client_conflict_option_working_text_where_conflicted \<notin> option_id ` set options"
      using ids by blast
    have n2: "tree_option_alias d oid \<notin> option_id ` set options"
      using ids differ(2,3) by auto
    show ?thesis
      using d(1) n2 absent [OF differ(1) n1] by blast
  qed
qed

text \<open>
  Claim C2.  With the array \<open>options\<close> returned by the corresponding
  \<open>get_resolution_options\<close>: when the given id is in the array, the text and property
  \<open>resolve_by_id\<close> functions run the resolver of the option with that id on the conflict
  (\<open>resolve_postpone\<close> for \<open>postpone\<close>, else \<open>resolve_text_conflict\<close> or
  \<open>resolve_prop_conflict\<close>, the latter with the property name stored in the option);
  when it is not, they fail with \<open>SVN_ERR_CLIENT_CONFLICT_OPTION_NOT_APPLICABLE\<close> and leave
  the conflict untouched.  For a tree conflict the same holds of the id rewritten by the
  two backwards-compatibility aliases (\<open>tree_option_alias\<close>): the resolver that the
  option with that id is bound to runs on the conflict, after the working-copy calls made
  while the options were listed.
\<close>

theorem resolve_by_id_invokes_listed_option:
  "(svn_client_conflict_text_get_resolution_options env conflict = Inr options \<longrightarrow>
      (oid \<in> option_id ` set options \<longrightarrow>
         svn_client_conflict_text_resolve_by_id env conflict oid
           = (if oid = svn_client_conflict_option_postpone
              then resolve_postpone env (mk_option oid resolve_postpone_fn) conflict
              else resolve_text_conflict env (mk_option oid resolve_text_conflict_fn) conflict))
      \<and> (oid \<notin> option_id ` set options \<longrightarrow>
           svn_client_conflict_text_resolve_by_id env conflict oid
             = (Some (Svn_error SVN_ERR_CLIENT_CONFLICT_OPTION_NOT_APPLICABLE []), conflict, [])))
   \<and> (svn_client_conflict_prop_get_resolution_options env conflict = Inr options \<longrightarrow>
      (oid \<in> option_id ` set options \<longrightarrow>
         svn_client_conflict_prop_resolve_by_id env conflict name oid
           = (if oid = svn_client_conflict_option_postpone
              then resolve_postpone env
                     ((mk_option oid resolve_postpone_fn)\<lparr>propname := Some name\<rparr>) conflict
              else resolve_prop_conflict env
                     ((mk_option oid resolve_prop_conflict_fn)\<lparr>propname := Some name\<rparr>)
                     conflict))
      \<and> (oid \<notin> option_id ` set options \<longrightarrow>
           svn_client_conflict_prop_resolve_by_id env conflict name oid
             = (Some (Svn_error SVN_ERR_CLIENT_CONFLICT_OPTION_NOT_APPLICABLE []), conflict, [])))
   \<and> (svn_client_conflict_tree_get_resolution_options env conflict = (Inr options, listing_calls)
        \<longrightarrow>
      (\<exists>d. get_conflict_desc2_t conflict = Some d
          \<and> (tree_option_alias d oid \<in> option_id ` set options \<longrightarrow>
               (\<exists>option \<in> set options. option_id option = tree_option_alias d oid
                  \<and> svn_client_conflict_tree_resolve_by_id env conflict oid
                      = (case (case do_resolve_func option of
                                 resolve_postpone_fn \<Rightarrow> resolve_postpone env option conflict
                               | resolve_text_conflict_fn \<Rightarrow>
                                   resolve_text_conflict env option conflict
                               | resolve_prop_conflict_fn \<Rightarrow>
                                   resolve_prop_conflict env option conflict
                               | resolve_accept_current_wc_state_fn \<Rightarrow>
                                   resolve_accept_current_wc_state env option conflict
                               | resolve_update_break_moved_away_fn \<Rightarrow>
                                   resolve_update_break_moved_away env option conflict
                               | resolve_update_raise_moved_away_fn \<Rightarrow>
                                   resolve_update_raise_moved_away env option conflict
                               | resolve_update_moved_away_node_fn \<Rightarrow>
                                   resolve_update_moved_away_node env option conflict
                               | resolve_merge_incoming_add_ignore_fn \<Rightarrow>
                                   resolve_merge_incoming_add_ignore env option conflict
                               | resolve_merge_incoming_added_file_text_merge_fn \<Rightarrow>
                                   resolve_merge_incoming_added_file_text_merge env option conflict
                               | resolve_merge_incoming_added_file_replace_fn \<Rightarrow>
                                   resolve_merge_incoming_added_file_replace env option conflict
                               | resolve_merge_incoming_added_file_replace_and_merge_fn \<Rightarrow>
                                   resolve_merge_incoming_added_file_replace_and_merge env option
                                     conflict
                               | resolve_merge_incoming_added_dir_merge_fn \<Rightarrow>
                                   resolve_merge_incoming_added_dir_merge env option conflict
                               | resolve_merge_incoming_added_dir_replace_fn \<Rightarrow>
                                   resolve_merge_incoming_added_dir_replace env option conflict
                               | resolve_merge_incoming_added_dir_replace_and_merge_fn \<Rightarrow>
                                   resolve_merge_incoming_added_dir_replace_and_merge env option
                                     conflict
                               | resolve_incoming_delete_ignore_fn \<Rightarrow>
                                   resolve_incoming_delete_ignore env option conflict
                               | resolve_incoming_delete_accept_fn \<Rightarrow>
                                   resolve_incoming_delete_accept env option conflict) of
                           (err, conflict', calls) \<Rightarrow> (err, conflict', listing_calls @ calls))))
          \<and> (tree_option_alias d oid \<notin> option_id ` set options \<longrightarrow>
               svn_client_conflict_tree_resolve_by_id env conflict oid
                 = (Some (Svn_error SVN_ERR_CLIENT_CONFLICT_OPTION_NOT_APPLICABLE []),
                    conflict, listing_calls))))"
  using text_resolve_by_id_dispatch [of env conflict options oid]
        prop_resolve_by_id_dispatch [of env conflict options oid name]
        tree_resolve_by_id_dispatch [of env conflict options listing_calls oid]
  by blast


lemma mk_option_sel:
  "option_id (mk_option oid f) = oid" "do_resolve_func (mk_option oid f) = f"
  by (simp_all add: mk_option_def)

lemma sample_delete_conflict_desc:
  "get_conflict_desc2_t sample_delete_conflict
     = Some (sample_tree_desc svn_wc_operation_update svn_wc_conflict_action_delete
               svn_wc_conflict_reason_edited)"
  by (simp add: sample_delete_conflict_def conflict_of_descs_def add_legacy_desc_to_conflict_def
        sample_tree_desc_def new_conflict_def get_conflict_desc2_t_def)

lemma sample_delete_conflict_tree:
  "assert_tree_conflict sample_delete_conflict = None"
  by (simp add: sample_delete_conflict_def conflict_of_descs_def add_legacy_desc_to_conflict_def
        sample_tree_desc_def new_conflict_def assert_tree_conflict_def)

lemma sample_delete_conflict_options:
  "svn_client_conflict_tree_get_resolution_options ok_env sample_delete_conflict =
     (Inr [ mk_option svn_client_conflict_option_postpone resolve_postpone_fn,
            mk_option svn_client_conflict_option_accept_current_wc_state
              resolve_accept_current_wc_state_fn,
            mk_option svn_client_conflict_option_incoming_delete_ignore
              resolve_incoming_delete_ignore_fn,
            mk_option svn_client_conflict_option_incoming_delete_accept
              resolve_incoming_delete_accept_fn ],
      [Wc_get_wcroot])"
  by code_simp

lemma sample_moved_away_conflict_desc:
  "get_conflict_desc2_t sample_moved_away_conflict
     = Some (sample_tree_desc svn_wc_operation_update svn_wc_conflict_action_edit
               svn_wc_conflict_reason_moved_away)"
  by code_simp

lemma sample_moved_away_conflict_options:
  "svn_client_conflict_tree_get_resolution_options ok_env sample_moved_away_conflict =
     (Inr [ mk_option svn_client_conflict_option_postpone resolve_postpone_fn,
            mk_option svn_client_conflict_option_accept_current_wc_state
              resolve_update_break_moved_away_fn,
            mk_option svn_client_conflict_option_update_move_destination
              resolve_update_moved_away_node_fn ],
      [])"
  by code_simp

lemma sample_text_conflict_options:
  "svn_client_conflict_text_get_resolution_options ok_env (conflict_of_descs [sample_text_desc None])
     = Inr text_conflict_options"
  by code_simp

lemma sample_accept_run:
  "resolve_accept_current_wc_state ok_env
     (mk_option svn_client_conflict_option_accept_current_wc_state
        resolve_accept_current_wc_state_fn)
     sample_delete_conflict
   = (None,
      sample_delete_conflict\<lparr>resolution_tree := svn_client_conflict_option_accept_current_wc_state\<rparr>,
      [Wc_acquire_write_lock_for_resolve, Wc_del_tree_conflict, Wc_release_write_lock])"
  by code_simp

lemma sample_moved_away_run:
  "resolve_update_moved_away_node ok_env
     (mk_option svn_client_conflict_option_update_move_destination
        resolve_update_moved_away_node_fn)
     sample_moved_away_conflict
   = (None,
      sample_moved_away_conflict
        \<lparr>resolution_tree := svn_client_conflict_option_update_move_destination\<rparr>,
      [Wc_acquire_write_lock_for_resolve, Wc_conflict_tree_update_moved_away_node,
       Wc_release_write_lock])"
  by code_simp

lemma sample_text_run:
  "resolve_text_conflict ok_env
     (mk_option svn_client_conflict_option_working_text resolve_text_conflict_fn)
     (conflict_of_descs [sample_text_desc None])
   = (None,
      (conflict_of_descs [sample_text_desc None])
        \<lparr>resolution_text := svn_client_conflict_option_working_text\<rparr>,
      [Wc_acquire_write_lock_for_resolve,
       Wc_conflict_text_mark_resolved svn_wc_conflict_choose_mine_full,
       Wc_release_write_lock])"
  by code_simp

theorem resolve_by_id_invokes_listed_option_witness:
  "svn_client_conflict_tree_resolve_by_id ok_env sample_delete_conflict
       svn_client_conflict_option_merged_text
     = (None,
        sample_delete_conflict
          \<lparr>resolution_tree := svn_client_conflict_option_accept_current_wc_state\<rparr>,
        [Wc_get_wcroot, Wc_acquire_write_lock_for_resolve, Wc_del_tree_conflict,
         Wc_release_write_lock])
   \<and> svn_client_conflict_tree_resolve_by_id ok_env sample_moved_away_conflict
         svn_client_conflict_option_working_text_where_conflicted
       = (None,
          sample_moved_away_conflict
            \<lparr>resolution_tree := svn_client_conflict_option_update_move_destination\<rparr>,
          [Wc_acquire_write_lock_for_resolve, Wc_conflict_tree_update_moved_away_node,
           Wc_release_write_lock])
   \<and> svn_client_conflict_tree_resolve_by_id ok_env sample_delete_conflict
         svn_client_conflict_option_base_text
       = (Some (Svn_error SVN_ERR_CLIENT_CONFLICT_OPTION_NOT_APPLICABLE []),
          sample_delete_conflict, [Wc_get_wcroot])
   \<and> svn_client_conflict_text_resolve_by_id ok_env (conflict_of_descs [sample_text_desc None])
         svn_client_conflict_option_working_text
       = (None,
          (conflict_of_descs [sample_text_desc None])
            \<lparr>resolution_text := svn_client_conflict_option_working_text\<rparr>,
          [Wc_acquire_write_lock_for_resolve,
           Wc_conflict_text_mark_resolved svn_wc_conflict_choose_mine_full,
           Wc_release_write_lock])"
proof -
  have p1: "svn_client_conflict_tree_resolve_by_id ok_env sample_delete_conflict
              svn_client_conflict_option_merged_text
            = (None,
               sample_delete_conflict
                 \<lparr>resolution_tree := svn_client_conflict_option_accept_current_wc_state\<rparr>,
               [Wc_get_wcroot, Wc_acquire_write_lock_for_resolve, Wc_del_tree_conflict,
                Wc_release_write_lock])"
    using resolve_by_id_invokes_listed_option
            [where env = ok_env and conflict = sample_delete_conflict
               and oid = svn_client_conflict_option_merged_text, THEN conjunct2, THEN conjunct2,
             rule_format, OF sample_delete_conflict_options]
    by (auto simp add: sample_delete_conflict_desc tree_option_alias_def mk_option_sel
          sample_accept_run)
  have p2: "svn_client_conflict_tree_resolve_by_id ok_env sample_moved_away_conflict
              svn_client_conflict_option_working_text_where_conflicted
            = (None,
               sample_moved_away_conflict
                 \<lparr>resolution_tree := svn_client_conflict_option_update_move_destination\<rparr>,
               [Wc_acquire_write_lock_for_resolve, Wc_conflict_tree_update_moved_away_node,
                Wc_release_write_lock])"
    using resolve_by_id_invokes_listed_option
            [where env = ok_env and conflict = sample_moved_away_conflict
               and oid = svn_client_conflict_option_working_text_where_conflicted,
             THEN conjunct2, THEN conjunct2, rule_format, OF sample_moved_away_conflict_options]
    by (auto simp add: sample_moved_away_conflict_desc tree_option_alias_def mk_option_sel
          sample_tree_desc_def sample_moved_away_run)
  have p3: "svn_client_conflict_tree_resolve_by_id ok_env sample_delete_conflict
              svn_client_conflict_option_base_text
            = (Some (Svn_error SVN_ERR_CLIENT_CONFLICT_OPTION_NOT_APPLICABLE []),
               sample_delete_conflict, [Wc_get_wcroot])"
    using resolve_by_id_invokes_listed_option
            [where env = ok_env and conflict = sample_delete_conflict
               and oid = svn_client_conflict_option_base_text, THEN conjunct2, THEN conjunct2,
             rule_format, OF sample_delete_conflict_options]
    by (auto simp add: sample_delete_conflict_desc tree_option_alias_def mk_option_sel)
  have p4: "svn_client_conflict_text_resolve_by_id ok_env
              (conflict_of_descs [sample_text_desc None]) svn_client_conflict_option_working_text
            = (None,
               (conflict_of_descs [sample_text_desc None])
                 \<lparr>resolution_text := svn_client_conflict_option_working_text\<rparr>,
               [Wc_acquire_write_lock_for_resolve,
                Wc_conflict_text_mark_resolved svn_wc_conflict_choose_mine_full,
                Wc_release_write_lock])"
    using resolve_by_id_invokes_listed_option
            [where env = ok_env and conflict = "conflict_of_descs [sample_text_desc None]"
               and oid = svn_client_conflict_option_working_text, THEN conjunct1,
             rule_format, OF sample_text_conflict_options]
    by (simp add: text_conflict_options_def mk_option_sel sample_text_run)
  show ?thesis
    using p1 p2 p3 p4 by (intro conjI)
qed


section \<open>Results on the resolvers\<close>

lemma compose_codes:
  "error_codes (svn_error_compose_create err1 err2) = error_codes err1 @ error_codes err2"
  by (cases "(err1, err2)" rule: svn_error_compose_create.cases) simp_all

lemma compose_None:
  "(svn_error_compose_create err1 err2 = None) = (err1 = None \<and> err2 = None)"
  by (cases "(err1, err2)" rule: svn_error_compose_create.cases) simp_all

lemma run_calls_ok:
  "run_calls env cs = (None, tr) \<Longrightarrow> tr = cs \<and> (\<forall>c \<in> set cs. fails env c = None)"
  by (induction cs arbitrary: tr) (auto split: option.splits prod.splits)

lemma run_calls_prefix:
  "run_calls env cs = (err, tr) \<Longrightarrow>
     (\<exists>rest. cs = tr @ rest) \<and> (err = None \<longrightarrow> (\<forall>c \<in> set tr. fails env c = None))"
  by (induction cs arbitrary: tr err) (auto split: option.splits prod.splits)

declare run_calls.simps [simp del]

lemma discipline_failed:
  "err \<noteq> None \<Longrightarrow> Wc_release_write_lock \<notin> set tr
     \<Longrightarrow> resolver_discipline env option conflict (err, conflict, tr)"
  by (auto simp add: resolver_discipline_def)

lemma discipline_set_resolution:
  assumes "err = svn_error_compose_create err0 (fails env Wc_release_write_lock)"
      and "err0 = None \<longrightarrow> (\<forall>c \<in> set tr. fails env c = None)"
      and "err0 = None \<longrightarrow> (\<exists>c \<in> set tr. is_wc_mutation c)"
  shows "resolver_discipline env option conflict
           (set_resolution_tree err option conflict (tr @ [Wc_release_write_lock]))"
proof (cases err)
  case None
  then have "err0 = None" "fails env Wc_release_write_lock = None"
    using assms(1) by (simp_all add: compose_None)
  then show ?thesis
    using None assms(2,3)
    by (auto simp add: resolver_discipline_def set_resolution_tree_def)
next
  case (Some e)
  have "error_codes err = error_codes err0 @ error_codes (fails env Wc_release_write_lock)"
    using assms(1) by (simp add: compose_codes)
  then show ?thesis
    using Some by (auto simp add: resolver_discipline_def set_resolution_tree_def)
qed

lemma discipline_under_lock:
  assumes "is_wc_mutation call"
  shows "resolver_discipline env option conflict (resolve_under_lock call env option conflict)"
proof (cases "fails env Wc_acquire_write_lock_for_resolve")
  case (Some e)
  then show ?thesis
    by (simp add: resolve_under_lock_def discipline_failed)
next
  case None
  have "resolver_discipline env option conflict
          (set_resolution_tree
             (svn_error_compose_create (fails env call) (fails env Wc_release_write_lock))
             option conflict
             ([Wc_acquire_write_lock_for_resolve, call] @ [Wc_release_write_lock]))"
    using None assms by (intro discipline_set_resolution [where ?err0.0 = "fails env call"]) auto
  then show ?thesis
    using None by (simp add: resolve_under_lock_def Let_def)
qed

lemma discipline_postpone:
  "resolver_discipline env option conflict (resolve_postpone env option conflict)"
  by (simp add: resolve_postpone_def resolver_discipline_def)

lemma discipline_accept_current_wc_state:
  "resolver_discipline env option conflict (resolve_accept_current_wc_state env option conflict)"
  by (simp add: resolve_accept_current_wc_state_def discipline_under_lock is_wc_mutation_def
        discipline_failed svn_error_create_def)

lemma discipline_update_break_moved_away:
  "resolver_discipline env option conflict (resolve_update_break_moved_away env option conflict)"
  by (simp add: resolve_update_break_moved_away_def discipline_under_lock is_wc_mutation_def)

lemma discipline_update_raise_moved_away:
  "resolver_discipline env option conflict (resolve_update_raise_moved_away env option conflict)"
  by (simp add: resolve_update_raise_moved_away_def discipline_under_lock is_wc_mutation_def)

lemma discipline_update_moved_away_node:
  "resolver_discipline env option conflict (resolve_update_moved_away_node env option conflict)"
  by (simp add: resolve_update_moved_away_node_def discipline_under_lock is_wc_mutation_def)

lemma discipline_merge_incoming_add_ignore:
  "resolver_discipline env option conflict (resolve_merge_incoming_add_ignore env option conflict)"
  by (simp add: resolve_merge_incoming_add_ignore_def discipline_under_lock is_wc_mutation_def)

lemma discipline_unchanged:
  assumes "err = None \<longrightarrow> (\<forall>c \<in> set tr. fails env c = None)"
      and "Wc_release_write_lock \<in> set tr \<longrightarrow>
             (\<forall>r. fails env Wc_release_write_lock = Some r \<longrightarrow>
                (\<exists>pre. error_codes err = pre @ error_codes (Some r)))"
  shows "resolver_discipline env option conflict (err, conflict, tr)"
  using assms by (simp add: resolver_discipline_def)

lemma discipline_set_resolution_gen:
  assumes "err = None \<longrightarrow> (\<forall>c \<in> set tr. fails env c = None)
             \<and> (\<exists>c \<in> set tr. is_wc_mutation c) \<and> Wc_release_write_lock \<in> set tr"
      and "Wc_release_write_lock \<in> set tr \<longrightarrow>
             (\<forall>r. fails env Wc_release_write_lock = Some r \<longrightarrow>
                (\<exists>pre. error_codes err = pre @ error_codes (Some r)))"
  shows "resolver_discipline env option conflict (set_resolution_tree err option conflict tr)"
  using assms
  by (cases err) (auto simp add: resolver_discipline_def set_resolution_tree_def)

lemma release_codes_composed:
  "fails env Wc_release_write_lock = Some r \<Longrightarrow>
     \<exists>pre. error_codes (svn_error_compose_create err (fails env Wc_release_write_lock))
             = pre @ error_codes (Some r)"
  by (simp add: compose_codes)

lemma release_codes_suffix:
  "\<exists>pre. error_codes (svn_error_compose_create err (Some r)) = pre @ error_codes (Some r)"
  by (simp add: compose_codes)

lemma run_calls_subset:
  "run_calls env cs = (err, tr) \<Longrightarrow> set tr \<subseteq> set cs"
  using run_calls_prefix [of env cs err tr] by auto

lemma discipline_file_text_merge:
  "resolver_discipline env option conflict
     (resolve_merge_incoming_added_file_text_merge env option conflict)"
proof -
  let ?pre1 = "[Wc_get_tmpdir, Io_open_unique_file 0]"
  let ?pre2 = "[Ra_open_session, Ra_get_file, Stream_close, Io_file_flush 0,
                Io_open_unique_file 1, Prop_diffs, Wc_acquire_write_lock_for_resolve]"
  obtain e1 tr1 where r1: "run_calls env ?pre1 = (e1, tr1)" by fastforce
  obtain e2 tr2 where r2: "run_calls env ?pre2 = (e2, tr2)" by fastforce
  have s1: "Wc_release_write_lock \<notin> set tr1"
    using run_calls_subset [OF r1] by auto
  have s2: "Wc_release_write_lock \<notin> set tr2"
    using run_calls_subset [OF r2] by auto
  show ?thesis
  proof (cases e1)
    case (Some e)
    then show ?thesis
      using r1 s1
      by (simp add: resolve_merge_incoming_added_file_text_merge_def discipline_failed
            del: run_calls.simps)
  next
    case n1: None
    have ok1: "\<forall>c \<in> set tr1. fails env c = None"
      using run_calls_prefix [OF r1] n1 by simp
    show ?thesis
    proof (cases "get_conflict_desc2_t conflict = None")
      case True
      then show ?thesis
        using r1 n1 s1
        by (simp add: resolve_merge_incoming_added_file_text_merge_def discipline_failed
              del: run_calls.simps)
    next
      case False
      then have d: "(get_conflict_desc2_t conflict = None) = False"
        by simp
      show ?thesis
      proof (cases e2)
        case (Some e)
        then show ?thesis
          using r1 n1 r2 s1 s2
          by (simp add: resolve_merge_incoming_added_file_text_merge_def discipline_failed d
                del: run_calls.simps)
      next
        case n2: None
        have ok2: "\<forall>c \<in> set tr2. fails env c = None"
          using run_calls_prefix [OF r2] n2 by simp
        show ?thesis
        proof (cases "fails env Wc_del_tree_conflict")
          case (Some e)
          have "resolver_discipline env option conflict
                  (svn_error_compose_create (Some e) (fails env Wc_release_write_lock), conflict,
                   tr1 @ tr2 @ [Wc_del_tree_conflict, Wc_release_write_lock])"
            by (rule discipline_unchanged)
               (auto simp add: compose_None release_codes_suffix)
          then show ?thesis
            using r1 n1 r2 n2 Some
            by (simp add: resolve_merge_incoming_added_file_text_merge_def d
                  del: run_calls.simps)
        next
          case n3: None
          let ?err = "svn_error_compose_create (fails env Wc_merge)
                        (fails env Wc_release_write_lock)"
          have "resolver_discipline env option conflict
                  (set_resolution_tree ?err option conflict
                     (tr1 @ tr2 @ [Wc_del_tree_conflict, Wc_merge, Wc_release_write_lock]))"
            using ok1 ok2 n3
            by (intro discipline_set_resolution_gen)
               (auto simp add: compose_None release_codes_suffix is_wc_mutation_def)
          then show ?thesis
            using r1 n1 r2 n2 n3
            by (simp add: resolve_merge_incoming_added_file_text_merge_def Let_def d
                  del: run_calls.simps)
        qed
      qed
    qed
  qed
qed

lemma discipline_file_replace:
  "resolver_discipline env option conflict
     (merge_incoming_added_file_replace env option conflict merge_files)"
proof -
  let ?pre1 = "[Wc_get_tmpdir, Io_open_unique_file 0, Stream_open_readonly,
                Stream_copy, Io_file_flush 0, Wc_prop_list]"
  let ?pre2 = "[Ra_open_session, Io_open_unique_file 1, Ra_get_file,
                Io_file_flush 1, Stream_reset, Wc_acquire_write_lock_for_resolve]"
  let ?locked = "[Wc_delete, Wc_add_repos_file, Wc_del_tree_conflict]
                 @ (if merge_files then [Io_open_unique_file 2, Prop_diffs, Wc_merge] else [])"
  obtain e1 tr1 where r1: "run_calls env ?pre1 = (e1, tr1)" by fastforce
  obtain e2 tr2 where r2: "run_calls env ?pre2 = (e2, tr2)" by fastforce
  obtain e3 tr3 where r3: "run_calls env ?locked = (e3, tr3)" by fastforce
  have s1: "Wc_release_write_lock \<notin> set tr1"
    using run_calls_subset [OF r1] by auto
  have s2: "Wc_release_write_lock \<notin> set tr2"
    using run_calls_subset [OF r2] by auto
  show ?thesis
  proof (cases e1)
    case (Some e)
    then show ?thesis
      using r1 s1
      by (simp add: merge_incoming_added_file_replace_def discipline_failed
            del: run_calls.simps)
  next
    case n1: None
    have ok1: "\<forall>c \<in> set tr1. fails env c = None"
      using run_calls_prefix [OF r1] n1 by simp
    show ?thesis
    proof (cases "get_conflict_desc2_t conflict = None")
      case True
      then show ?thesis
        using r1 n1 s1
        by (simp add: merge_incoming_added_file_replace_def discipline_failed
              del: run_calls.simps)
    next
      case False
      then have d: "(get_conflict_desc2_t conflict = None) = False"
        by simp
      show ?thesis
      proof (cases e2)
        case (Some e)
        then show ?thesis
          using r1 n1 r2 s1 s2
          by (simp add: merge_incoming_added_file_replace_def discipline_failed d
                del: run_calls.simps)
      next
        case n2: None
        have ok2: "\<forall>c \<in> set tr2. fails env c = None"
          using run_calls_prefix [OF r2] n2 by simp
        let ?err = "svn_error_compose_create e3 (fails env Wc_release_write_lock)"
        show ?thesis
        proof (cases ?err)
          case (Some e)
          have "resolver_discipline env option conflict
                  (?err, conflict, tr1 @ tr2 @ tr3 @ [Wc_release_write_lock])"
            using Some
            by (intro discipline_unchanged) (auto simp add: release_codes_suffix)
          then show ?thesis
            using r1 n1 r2 n2 r3 Some
            by (simp add: merge_incoming_added_file_replace_def d del: run_calls.simps)
        next
          case n3: None
          then have e3: "e3 = None" and rel: "fails env Wc_release_write_lock = None"
            by (simp_all add: compose_None)
          have "tr3 = ?locked \<and> (\<forall>c \<in> set ?locked. fails env c = None)"
            using r3 unfolding e3 by (rule run_calls_ok)
          then have tr3: "tr3 = ?locked" and ok3: "\<forall>c \<in> set tr3. fails env c = None"
            by blast+
          have mut: "\<exists>c \<in> set tr3. is_wc_mutation c"
            unfolding tr3 by (simp add: is_wc_mutation_def)
          have "resolver_discipline env option conflict
                  (set_resolution_tree (fails env Stream_close) option conflict
                     (tr1 @ tr2 @ tr3 @ [Wc_release_write_lock, Stream_close]))"
            using ok1 ok2 ok3 mut rel
            by (intro discipline_set_resolution_gen) auto
          then show ?thesis
            using r1 n1 r2 n2 r3 n3
            by (simp add: merge_incoming_added_file_replace_def d del: run_calls.simps)
        qed
      qed
    qed
  qed
qed

lemma discipline_dir_merge_locked:
  "resolver_discipline env option conflict (merge_added_dir_locked env option conflict)"
proof (cases "fails env Wc_acquire_write_lock_for_resolve")
  case (Some e)
  then show ?thesis
    by (simp add: merge_added_dir_locked_def discipline_failed)
next
  case acq: None
  show ?thesis
  proof (cases "fails env Wc_del_tree_conflict")
    case (Some e)
    have "resolver_discipline env option conflict
            (svn_error_compose_create (Some e) (fails env Wc_release_write_lock), conflict,
             [Wc_acquire_write_lock_for_resolve, Wc_del_tree_conflict, Wc_release_write_lock])"
      by (rule discipline_unchanged) (auto simp add: compose_None release_codes_suffix)
    then show ?thesis using Some acq by (simp add: merge_added_dir_locked_def)
  next
    case None
    let ?err0 = "svn_error_compose_create (fails env Client_merge_locked)
                   (fails env Client_make_merge_conflict_error)"
    have "resolver_discipline env option conflict
            (set_resolution_tree (svn_error_compose_create ?err0 (fails env Wc_release_write_lock))
               option conflict
               ([Wc_acquire_write_lock_for_resolve, Wc_del_tree_conflict,
                 Client_merge_locked, Client_make_merge_conflict_error]
                @ [Wc_release_write_lock]))"
      using None acq
      by (intro discipline_set_resolution [where ?err0.0 = ?err0])
         (auto simp add: compose_None is_wc_mutation_def)
    then show ?thesis using None acq by (simp add: merge_added_dir_locked_def Let_def)
  qed
qed

lemma discipline_dir_merge:
  "resolver_discipline env option conflict
     (resolve_merge_incoming_added_dir_merge env option conflict)"
  by (simp add: resolve_merge_incoming_added_dir_merge_def discipline_failed svn_error_create_def
        discipline_dir_merge_locked
        split: option.split incoming_details.split prod.split)

lemma merge_replaced_dir_calls:
  assumes "merge_replaced_dir env = (err, tr)"
  shows "(err = None \<longrightarrow> (\<forall>c \<in> set tr. fails env c = None))
         \<and> Wc_release_write_lock \<notin> set tr"
proof -
  let ?cs = "[Wc_node_get_base, Ra_reparent, Ra_get_location_segments]"
  obtain e1 tr1 where r1: "run_calls env ?cs = (e1, tr1)" by fastforce
  have s1: "Wc_release_write_lock \<notin> set tr1"
    using run_calls_subset [OF r1] by auto
  have ok1: "e1 = None \<longrightarrow> (\<forall>c \<in> set tr1. fails env c = None)"
    using run_calls_prefix [OF r1] by simp
  show ?thesis
    using assms r1 s1 ok1
    by (auto simp add: merge_replaced_dir_def Let_def svn_error_create_def compose_None
          split: option.splits if_splits)
qed

lemma discipline_dir_replace:
  "resolver_discipline env option conflict
     (merge_incoming_added_dir_replace env option conflict merge_dirs)"
proof (cases "get_conflict_desc2_t conflict = None")
  case True
  then show ?thesis
    by (simp add: merge_incoming_added_dir_replace_def discipline_failed)
next
  case False
  then have d: "(get_conflict_desc2_t conflict = None) = False"
    by simp
  let ?pre = "[Ra_open_session, Wc_get_tmpdir, Io_open_unique_file 0,
               Client_checkout_internal, Wc_acquire_write_lock_for_resolve]"
  let ?locked = "[Wc_delete, Wc_copy, Wc_acquire_write_lock,
                  Wc_remove_from_revision_control, Io_file_rename, Wc_del_tree_conflict]"
  obtain e1 tr1 where r1: "run_calls env ?pre = (e1, tr1)" by fastforce
  obtain e2 tr2 where r2: "run_calls env ?locked = (e2, tr2)" by fastforce
  obtain e3 tr3 where r3: "merge_replaced_dir env = (e3, tr3)" by fastforce
  have s1: "Wc_release_write_lock \<notin> set tr1"
    using run_calls_subset [OF r1] by auto
  show ?thesis
  proof (cases e1)
    case (Some e)
    then show ?thesis
      using r1 s1 by (simp add: merge_incoming_added_dir_replace_def discipline_failed d)
  next
    case n1: None
    have ok1: "\<forall>c \<in> set tr1. fails env c = None"
      using run_calls_prefix [OF r1] n1 by simp
    show ?thesis
    proof (cases e2)
      case (Some e)
      have "resolver_discipline env option conflict
              (set_resolution_tree
                 (svn_error_compose_create (Some e) (fails env Wc_release_write_lock))
                 option conflict ((tr1 @ tr2) @ [Wc_release_write_lock]))"
        by (intro discipline_set_resolution [where ?err0.0 = "Some e"]) auto
      then show ?thesis
        using r1 n1 r2 Some by (simp add: merge_incoming_added_dir_replace_def d)
    next
      case n2: None
      have "tr2 = ?locked \<and> (\<forall>c \<in> set ?locked. fails env c = None)"
        using r2 unfolding n2 by (rule run_calls_ok)
      then have tr2: "tr2 = ?locked" and ok2: "\<forall>c \<in> set tr2. fails env c = None"
        by blast+
      have mut: "\<exists>c \<in> set tr2. is_wc_mutation c"
        unfolding tr2 by (simp add: is_wc_mutation_def)
      show ?thesis
      proof (cases merge_dirs)
        case True
        have ok3: "e3 = None \<longrightarrow> (\<forall>c \<in> set tr3. fails env c = None)"
          using merge_replaced_dir_calls [OF r3] by simp
        have "resolver_discipline env option conflict
                (set_resolution_tree
                   (svn_error_compose_create e3 (fails env Wc_release_write_lock))
                   option conflict ((tr1 @ tr2 @ tr3) @ [Wc_release_write_lock]))"
          using ok1 ok2 ok3 mut
          by (intro discipline_set_resolution [where ?err0.0 = e3]) auto
        then show ?thesis
          using r1 n1 r2 n2 r3 True by (simp add: merge_incoming_added_dir_replace_def d)
      next
        case False
        have "resolver_discipline env option conflict
                (set_resolution_tree
                   (svn_error_compose_create None (fails env Wc_release_write_lock))
                   option conflict ((tr1 @ tr2) @ [Wc_release_write_lock]))"
          using ok1 ok2 mut
          by (intro discipline_set_resolution [where ?err0.0 = None]) auto
        then show ?thesis
          using r1 n1 r2 n2 False by (simp add: merge_incoming_added_dir_replace_def d)
      qed
    qed
  qed
qed

lemma verify_local_state_calls:
  assumes "verify_local_state_for_incoming_delete env conflict option = (verr, vtr)"
  shows "(verr = None \<longrightarrow> (\<forall>c \<in> set vtr. fails env c = None))
         \<and> set vtr \<subseteq> {Wc_get_wcroot, Wc_node_get_origin, Io_check_path}"
  using assms
  by (auto simp add: verify_local_state_for_incoming_delete_def resolver_failure_def
        svn_error_create_def
        split: option.splits incoming_details.splits if_splits sum.splits)

lemma crashed_not_None: "crashed err \<Longrightarrow> err \<noteq> None"
  by (cases err) (simp_all add: crashed_def)

lemma discipline_incoming_delete:
  assumes "is_wc_mutation clearing_call"
  shows "resolver_discipline env option conflict
           (resolve_incoming_delete clearing_call env option conflict)"
proof (cases "fails env Wc_acquire_write_lock_for_resolve")
  case (Some e)
  then show ?thesis
    by (simp add: resolve_incoming_delete_def discipline_failed)
next
  case acq: None
  obtain verr vtr where v: "verify_local_state_for_incoming_delete env conflict option = (verr, vtr)"
    by fastforce
  have vok: "verr = None \<longrightarrow> (\<forall>c \<in> set vtr. fails env c = None)"
    and vsub: "Wc_release_write_lock \<notin> set vtr"
    using verify_local_state_calls [OF v] by auto
  show ?thesis
  proof (cases "crashed verr")
    case True
    then show ?thesis
      using acq v vsub crashed_not_None [OF True]
      by (simp add: resolve_incoming_delete_def discipline_failed)
  next
    case nc: False
    show ?thesis
    proof (cases verr)
      case (Some e)
      have "resolver_discipline env option conflict
              (set_resolution_tree
                 (svn_error_compose_create (Some e) (fails env Wc_release_write_lock))
                 option conflict
                 ((Wc_acquire_write_lock_for_resolve # vtr) @ [Wc_release_write_lock]))"
        by (intro discipline_set_resolution [where ?err0.0 = "Some e"]) auto
      then show ?thesis
        using acq v nc Some by (simp add: resolve_incoming_delete_def)
    next
      case None
      have "resolver_discipline env option conflict
              (set_resolution_tree
                 (svn_error_compose_create (fails env clearing_call)
                    (fails env Wc_release_write_lock))
                 option conflict
                 ((Wc_acquire_write_lock_for_resolve # vtr @ [clearing_call])
                  @ [Wc_release_write_lock]))"
        using acq vok None assms
        by (intro discipline_set_resolution [where ?err0.0 = "fails env clearing_call"]) auto
      then show ?thesis
        using acq v nc None by (simp add: resolve_incoming_delete_def)
    qed
  qed
qed

lemma tree_resolvers_discipline_aux:
  assumes "is_tree_resolver (do_resolve_func option)"
  shows "resolver_discipline env option conflict (call_do_resolve_func env option conflict)"
proof (cases "do_resolve_func option")
  case resolve_text_conflict_fn
  then show ?thesis using assms by (simp add: is_tree_resolver_def)
next
  case resolve_prop_conflict_fn
  then show ?thesis using assms by (simp add: is_tree_resolver_def)
qed (simp_all add: call_do_resolve_func_def discipline_postpone
       discipline_accept_current_wc_state discipline_update_break_moved_away
       discipline_update_raise_moved_away discipline_update_moved_away_node
       discipline_merge_incoming_add_ignore discipline_file_text_merge
       resolve_merge_incoming_added_file_replace_def
       resolve_merge_incoming_added_file_replace_and_merge_def discipline_file_replace
       discipline_dir_merge
       resolve_merge_incoming_added_dir_replace_def
       resolve_merge_incoming_added_dir_replace_and_merge_def discipline_dir_replace
       resolve_incoming_delete_ignore_def resolve_incoming_delete_accept_def
       discipline_incoming_delete is_wc_mutation_def)



section \<open>Results on resolving an incoming delete\<close>

lemma verify_copy_origin_ok:
  assumes "op = svn_wc_operation_update \<or> op = svn_wc_operation_switch"
  shows "(verify_copy_origin op details (is_copy, copyfrom_revnum, copyfrom_repos_relpath) old = None)
         = (is_copy
            \<and> (deleted_rev details \<noteq> SVN_INVALID_REVNUM \<or> added_rev details \<noteq> SVN_INVALID_REVNUM)
            \<and> (deleted_rev details \<noteq> SVN_INVALID_REVNUM \<longrightarrow> copyfrom_revnum < deleted_rev details)
            \<and> (added_rev details \<noteq> SVN_INVALID_REVNUM \<longrightarrow> copyfrom_revnum \<ge> added_rev details)
            \<and> (op = svn_wc_operation_update \<longrightarrow> repos_relpath details = Some copyfrom_repos_relpath)
            \<and> (op = svn_wc_operation_switch \<longrightarrow>
                  (\<exists>r k. old = Some (Some copyfrom_repos_relpath, r, k))))"
  using assms
  by (auto simp add: verify_copy_origin_def resolver_failure_def svn_error_create_def
        split: option.splits)

lemma verify_copy_origin_failure:
  assumes "op = svn_wc_operation_update \<or> op = svn_wc_operation_switch"
      and "op = svn_wc_operation_update \<longrightarrow> repos_relpath details \<noteq> None"
      and "op = svn_wc_operation_switch \<longrightarrow> (\<exists>p r k. old = Some (Some p, r, k))"
      and "verify_copy_origin op details origin old \<noteq> None"
  shows "verify_copy_origin op details origin old = resolver_failure"
  using assms
  by (cases origin)
     (auto simp add: verify_copy_origin_def split: option.splits if_splits)

lemma verify_succeeds_only_if:
  assumes "svn_client_conflict_get_operation conflict = Some op"
      and "op = svn_wc_operation_update \<or> op = svn_wc_operation_switch"
      and "verify_local_state_for_incoming_delete env conflict option = (None, vtr)"
  shows "incoming_delete_preconditions env conflict op"
proof -
  obtain is_copy copyfrom_revnum copyfrom_repos_relpath where
    o: "node_origin env = (is_copy, copyfrom_revnum, copyfrom_repos_relpath)"
    by (cases "node_origin env") auto
  show ?thesis
    using assms o verify_copy_origin_ok [OF assms(2)]
    by (auto simp add: verify_local_state_for_incoming_delete_def
          incoming_delete_preconditions_def resolver_failure_def svn_error_create_def
          split: option.splits incoming_details.splits if_splits)
qed

lemma verify_fails_with_resolver_failure:
  assumes "svn_client_conflict_get_operation conflict = Some op"
      and "op = svn_wc_operation_update \<or> op = svn_wc_operation_switch"
      and "checks_are_reached env conflict op"
      and "\<not> incoming_delete_preconditions env conflict op"
  shows "\<exists>vtr. verify_local_state_for_incoming_delete env conflict option = (resolver_failure, vtr)"
proof (cases "tree_conflict_incoming_details conflict")
  case None
  then show ?thesis
    using assms
    by (auto simp add: verify_local_state_for_incoming_delete_def checks_are_reached_def)
next
  case (Some ds)
  then obtain details where ds: "ds = Incoming_delete_details details"
    using assms(3) by (cases ds) (auto simp add: checks_are_reached_def)
  obtain is_copy copyfrom_revnum copyfrom_repos_relpath where
    o: "node_origin env = (is_copy, copyfrom_revnum, copyfrom_repos_relpath)"
    by (cases "node_origin env") auto
  let ?old = "svn_client_conflict_get_incoming_old_repos_location conflict"
  have reach: "fails env Wc_get_wcroot = None" "fails env Wc_node_get_origin = None"
              "op = svn_wc_operation_update \<longrightarrow> repos_relpath details \<noteq> None"
              "op = svn_wc_operation_switch \<longrightarrow> (\<exists>p r k. ?old = Some (Some p, r, k))"
    using assms(3) Some ds by (auto simp add: checks_are_reached_def)
  have "verify_copy_origin op details (node_origin env) ?old \<noteq> None"
    using assms(4) Some ds o reach(2) verify_copy_origin_ok [OF assms(2), of details is_copy
        copyfrom_revnum copyfrom_repos_relpath ?old]
    by (auto simp add: incoming_delete_preconditions_def)
  then have "verify_copy_origin op details (node_origin env) ?old = resolver_failure"
    using verify_copy_origin_failure [OF assms(2) reach(3) reach(4)] by blast
  then show ?thesis
    using assms(1,2) Some ds reach(1,2)
    by (auto simp add: verify_local_state_for_incoming_delete_def)
qed

lemma resolve_incoming_delete_succeeds_only_if:
  assumes "svn_client_conflict_get_operation conflict = Some op"
      and "op = svn_wc_operation_update \<or> op = svn_wc_operation_switch"
      and "resolve_incoming_delete clearing_call env option conflict = (None, conflict', tr)"
  shows "incoming_delete_preconditions env conflict op"
proof -
  obtain verr vtr where v: "verify_local_state_for_incoming_delete env conflict option = (verr, vtr)"
    by fastforce
  have "verr = None"
  proof (rule ccontr)
    assume "verr \<noteq> None"
    then obtain e where e: "verr = Some e" by blast
    then show False
      using assms(3) v
      by (auto simp add: resolve_incoming_delete_def set_resolution_tree_def compose_None
            crashed_not_None split: option.splits if_splits)
  qed
  then show ?thesis
    using verify_succeeds_only_if [OF assms(1,2)] v by simp
qed

lemma compose_apr_err:
  "\<exists>e'. svn_error_compose_create (Some e) err2 = Some e' \<and> apr_err e' = apr_err e"
  by (cases "(Some e, err2)" rule: svn_error_compose_create.cases) auto

lemma resolve_incoming_delete_not_cleared:
  assumes "svn_client_conflict_get_operation conflict = Some op"
      and "op = svn_wc_operation_update \<or> op = svn_wc_operation_switch"
      and "clearing_call = Wc_del_tree_conflict \<or> clearing_call = Wc_delete"
      and "resolve_incoming_delete clearing_call env option conflict = (err, conflict', tr)"
      and "\<not> incoming_delete_preconditions env conflict op"
  shows "err \<noteq> None \<and> conflict' = conflict
         \<and> Wc_del_tree_conflict \<notin> set tr \<and> Wc_delete \<notin> set tr"
proof -
  obtain verr vtr where v: "verify_local_state_for_incoming_delete env conflict option = (verr, vtr)"
    by fastforce
  have sub: "set vtr \<subseteq> {Wc_get_wcroot, Wc_node_get_origin, Io_check_path}"
    using verify_local_state_calls [OF v] by simp
  have "verr \<noteq> None"
    using verify_succeeds_only_if [OF assms(1,2), of env option vtr] v assms(5) by auto
  then obtain e where e: "verr = Some e" by blast
  obtain e' where e': "svn_error_compose_create (Some e) (fails env Wc_release_write_lock) = Some e'"
    using compose_apr_err [of e "fails env Wc_release_write_lock"] by blast
  have nd: "Wc_del_tree_conflict \<notin> set vtr" "Wc_delete \<notin> set vtr"
    using sub by auto
  show ?thesis
  proof (cases "fails env Wc_acquire_write_lock_for_resolve")
    case (Some a)
    then have "(err, conflict', tr) = (Some a, conflict, [Wc_acquire_write_lock_for_resolve])"
      using assms(4) by (simp add: resolve_incoming_delete_def)
    then show ?thesis by simp
  next
    case None
    show ?thesis
    proof (cases "crashed (Some e)")
      case True
      then have "(err, conflict', tr)
                   = (Some e, conflict, Wc_acquire_write_lock_for_resolve # vtr)"
        using assms(4) v e None by (simp add: resolve_incoming_delete_def)
      then show ?thesis using nd by simp
    next
      case False
      then have "(err, conflict', tr)
                   = (Some e', conflict,
                      Wc_acquire_write_lock_for_resolve # vtr @ [Wc_release_write_lock])"
        using assms(4) v e e' None
        by (simp add: resolve_incoming_delete_def set_resolution_tree_def)
      then show ?thesis using nd by simp
    qed
  qed
qed

lemma resolve_incoming_delete_resolver_failure:
  assumes "svn_client_conflict_get_operation conflict = Some op"
      and "op = svn_wc_operation_update \<or> op = svn_wc_operation_switch"
      and "resolve_incoming_delete clearing_call env option conflict = (err, conflict', tr)"
      and "checks_are_reached env conflict op"
      and "\<not> incoming_delete_preconditions env conflict op"
  shows "\<exists>e. err = Some e \<and> apr_err e = SVN_ERR_WC_CONFLICT_RESOLVER_FAILURE"
proof -
  obtain vtr where
    v: "verify_local_state_for_incoming_delete env conflict option = (resolver_failure, vtr)"
    using verify_fails_with_resolver_failure [OF assms(1,2,4,5)] by blast
  have acq: "fails env Wc_acquire_write_lock_for_resolve = None"
    using assms(4) by (simp add: checks_are_reached_def)
  have nc: "\<not> crashed resolver_failure"
    by (simp add: crashed_def resolver_failure_def svn_error_create_def)
  have "err = svn_error_compose_create
                (Some (Svn_error SVN_ERR_WC_CONFLICT_RESOLVER_FAILURE []))
                (fails env Wc_release_write_lock)"
    using assms(3) v acq nc
    by (auto simp add: resolve_incoming_delete_def set_resolution_tree_def resolver_failure_def
          svn_error_create_def split: option.splits)
  then show ?thesis
    using compose_apr_err [of "Svn_error SVN_ERR_WC_CONFLICT_RESOLVER_FAILURE []"
                              "fails env Wc_release_write_lock"]
    by auto
qed

text \<open>
  Claim C1.  For a tree conflict flagged by an update or a switch, \<open>incoming_delete_ignore\<close>
  and \<open>incoming_delete_accept\<close> succeed only if the preconditions hold (the node's origin
  reports a copy, the delete details are present, one of \<open>deleted_rev\<close> / \<open>added_rev\<close> is
  valid, \<open>copyfrom_rev < deleted_rev\<close> when \<open>deleted_rev\<close> is valid and
  \<open>copyfrom_rev \<ge> added_rev\<close> when \<open>added_rev\<close> is valid, and the copy source path is
  \<open>details.repos_relpath\<close> for update, the incoming old relpath for switch).  Whenever a
  precondition fails the resolver fails, the conflict object is unchanged and neither
  \<open>svn_wc__del_tree_conflict\<close> nor \<open>svn_wc_delete4\<close> is called, so the tree conflict is not
  cleared; and the error returned is \<open>SVN_ERR_WC_CONFLICT_RESOLVER_FAILURE\<close> once the
  checks are reached, that is when taking the write lock and the working-copy queries
  before the checks succeeded.
\<close>

theorem incoming_delete_resolvers_verify_local_state:
  assumes "svn_client_conflict_get_operation conflict = Some op"
      and "op = svn_wc_operation_update \<or> op = svn_wc_operation_switch"
      and "resolver = resolve_incoming_delete_ignore \<or> resolver = resolve_incoming_delete_accept"
      and "resolver env option conflict = (err, conflict', tr)"
  shows "(err = None \<longrightarrow> incoming_delete_preconditions env conflict op)
         \<and> (\<not> incoming_delete_preconditions env conflict op \<longrightarrow>
               err \<noteq> None \<and> conflict' = conflict
               \<and> Wc_del_tree_conflict \<notin> set tr \<and> Wc_delete \<notin> set tr
               \<and> (checks_are_reached env conflict op \<longrightarrow>
                    (\<exists>e. err = Some e \<and> apr_err e = SVN_ERR_WC_CONFLICT_RESOLVER_FAILURE)))"
proof -
  from assms(3,4) obtain clearing_call where
    c: "clearing_call = Wc_del_tree_conflict \<or> clearing_call = Wc_delete"
       "resolve_incoming_delete clearing_call env option conflict = (err, conflict', tr)"
    by (auto simp add: resolve_incoming_delete_ignore_def resolve_incoming_delete_accept_def)
  have one: "err = None \<longrightarrow> incoming_delete_preconditions env conflict op"
    using resolve_incoming_delete_succeeds_only_if [OF assms(1,2)] c(2) by blast
  have two: "err \<noteq> None \<and> conflict' = conflict
             \<and> Wc_del_tree_conflict \<notin> set tr \<and> Wc_delete \<notin> set tr"
    if "\<not> incoming_delete_preconditions env conflict op"
    using resolve_incoming_delete_not_cleared [OF assms(1,2) c that] .
  have three: "\<exists>e. err = Some e \<and> apr_err e = SVN_ERR_WC_CONFLICT_RESOLVER_FAILURE"
    if "\<not> incoming_delete_preconditions env conflict op" "checks_are_reached env conflict op"
    using resolve_incoming_delete_resolver_failure [OF assms(1,2) c(2) that(2) that(1)] .
  show ?thesis using one two three by blast
qed

lemma sample_delete_conflict_operation:
  "svn_client_conflict_get_operation sample_delete_conflict = Some svn_wc_operation_update"
  by (simp add: svn_client_conflict_get_operation_def sample_delete_conflict_desc)
     (simp add: sample_tree_desc_def)

lemma sample_delete_conflict_details:
  "tree_conflict_incoming_details sample_delete_conflict
     = Some (Incoming_delete_details sample_delete_details)"
  by (simp add: sample_delete_conflict_def)

lemma sample_preconditions_ok:
  "incoming_delete_preconditions ok_env sample_delete_conflict svn_wc_operation_update"
  by (simp add: incoming_delete_preconditions_def sample_delete_conflict_details)
     (simp add: ok_env_def sample_delete_details_def SVN_INVALID_REVNUM_def)

lemma sample_preconditions_not_copy:
  "\<not> incoming_delete_preconditions not_copy_env sample_delete_conflict svn_wc_operation_update"
  by (simp add: incoming_delete_preconditions_def sample_delete_conflict_details)
     (simp add: not_copy_env_def)

lemma sample_checks_reached:
  "checks_are_reached not_copy_env sample_delete_conflict svn_wc_operation_update"
  by (simp add: checks_are_reached_def sample_delete_conflict_details)
     (simp add: not_copy_env_def ok_env_def sample_delete_details_def)

lemma sample_ignore_run:
  "resolve_incoming_delete_ignore ok_env ignore_option sample_delete_conflict =
     (None,
      sample_delete_conflict\<lparr>resolution_tree := svn_client_conflict_option_incoming_delete_ignore\<rparr>,
      [Wc_acquire_write_lock_for_resolve, Wc_get_wcroot, Wc_node_get_origin,
       Wc_del_tree_conflict, Wc_release_write_lock])"
proof -
  have f: "\<And>c. fails ok_env c = None" and o: "node_origin ok_env = (True, 5, ''trunk/mu'')"
    by (simp_all add: ok_env_def)
  have v: "verify_local_state_for_incoming_delete ok_env sample_delete_conflict ignore_option
             = (None, [Wc_get_wcroot, Wc_node_get_origin])"
    by (simp add: verify_local_state_for_incoming_delete_def f o
          sample_delete_conflict_operation sample_delete_conflict_details
          verify_copy_origin_def)
       (simp add: sample_delete_details_def SVN_INVALID_REVNUM_def)
  show ?thesis
    by (simp add: resolve_incoming_delete_ignore_def resolve_incoming_delete_def f v
          crashed_def set_resolution_tree_def)
       (simp add: ignore_option_def mk_option_def)
qed

theorem incoming_delete_resolvers_verify_local_state_witness:
  "incoming_delete_preconditions ok_env sample_delete_conflict svn_wc_operation_update
   \<and> fst (resolve_incoming_delete_ignore ok_env ignore_option sample_delete_conflict) = None
   \<and> \<not> incoming_delete_preconditions not_copy_env sample_delete_conflict svn_wc_operation_update
   \<and> checks_are_reached not_copy_env sample_delete_conflict svn_wc_operation_update
   \<and> map_option apr_err
        (fst (resolve_incoming_delete_ignore not_copy_env ignore_option sample_delete_conflict))
       = Some SVN_ERR_WC_CONFLICT_RESOLVER_FAILURE
   \<and> fst (snd (resolve_incoming_delete_ignore not_copy_env ignore_option sample_delete_conflict))
       = sample_delete_conflict
   \<and> Wc_del_tree_conflict
       \<notin> set (snd (snd (resolve_incoming_delete_ignore not_copy_env ignore_option
                           sample_delete_conflict)))"
proof -
  have op: "svn_client_conflict_get_operation sample_delete_conflict = Some svn_wc_operation_update"
    by (rule sample_delete_conflict_operation)
  have upd: "svn_wc_operation_update = svn_wc_operation_update
             \<or> svn_wc_operation_update = svn_wc_operation_switch"
    by simp
  have res: "resolve_incoming_delete_ignore = resolve_incoming_delete_ignore
             \<or> resolve_incoming_delete_ignore = resolve_incoming_delete_accept"
    by simp
  obtain err conflict' tr where
    r: "resolve_incoming_delete_ignore not_copy_env ignore_option sample_delete_conflict
          = (err, conflict', tr)"
    by (cases "resolve_incoming_delete_ignore not_copy_env ignore_option sample_delete_conflict")
       auto
  have run: "resolve_incoming_delete_ignore ok_env ignore_option sample_delete_conflict
          = (None,
             sample_delete_conflict
               \<lparr>resolution_tree := svn_client_conflict_option_incoming_delete_ignore\<rparr>,
             [Wc_acquire_write_lock_for_resolve, Wc_get_wcroot, Wc_node_get_origin,
              Wc_del_tree_conflict, Wc_release_write_lock])"
    by (rule sample_ignore_run)
  have good: "incoming_delete_preconditions ok_env sample_delete_conflict svn_wc_operation_update"
    using incoming_delete_resolvers_verify_local_state [OF op upd res run] by blast
  have bad: "err \<noteq> None \<and> conflict' = sample_delete_conflict
             \<and> Wc_del_tree_conflict \<notin> set tr
             \<and> (\<exists>e. err = Some e \<and> apr_err e = SVN_ERR_WC_CONFLICT_RESOLVER_FAILURE)"
    using incoming_delete_resolvers_verify_local_state [OF op upd res r]
          sample_preconditions_not_copy sample_checks_reached
    by blast
  show ?thesis
    using good bad r run sample_preconditions_not_copy sample_checks_reached by auto
qed





section \<open>Results on what a resolved conflict object reports\<close>

lemma discipline_keeps_tree_conflict:
  assumes "resolver_discipline env option conflict (err, conflict', tr)"
  shows "legacy_tree_conflict conflict' = legacy_tree_conflict conflict"
proof (cases "conflict' = conflict")
  case True
  then show ?thesis by simp
next
  case False
  then have "conflict' = conflict\<lparr>resolution_tree := option_id option\<rparr>"
    using assms by (simp add: resolver_discipline_def)
  then show ?thesis by simp
qed

lemma text_resolver_keeps_tree_conflict:
  "resolve_text_conflict env option conflict = (err, conflict', tr)
     \<Longrightarrow> legacy_tree_conflict conflict' = legacy_tree_conflict conflict"
  by (auto simp add: resolve_text_conflict_def Let_def split: option.splits)

lemma prop_resolver_keeps_tree_conflict:
  "resolve_prop_conflict env option conflict = (err, conflict', tr)
     \<Longrightarrow> legacy_tree_conflict conflict' = legacy_tree_conflict conflict"
  by (auto simp add: resolve_prop_conflict_def Let_def split: option.splits if_splits)

lemma resolver_keeps_tree_conflict:
  assumes "call_do_resolve_func env option conflict = (err, conflict', tr)"
  shows "legacy_tree_conflict conflict' = legacy_tree_conflict conflict"
proof (cases "is_tree_resolver (do_resolve_func option)")
  case True
  from tree_resolvers_discipline_aux [OF True, of env conflict] assms show ?thesis
    using discipline_keeps_tree_conflict by simp
next
  case False
  then consider "do_resolve_func option = resolve_text_conflict_fn"
    | "do_resolve_func option = resolve_prop_conflict_fn"
    by (auto simp add: is_tree_resolver_def)
  then show ?thesis
  proof cases
    case 1
    then show ?thesis
      using assms text_resolver_keeps_tree_conflict
      by (simp add: call_do_resolve_func_def)
  next
    case 2
    then show ?thesis
      using assms prop_resolver_keeps_tree_conflict
      by (simp add: call_do_resolve_func_def)
  qed
qed

lemma tree_resolve_keeps_tree_conflict:
  "legacy_tree_conflict (fst (snd (svn_client_conflict_tree_resolve env conflict option)))
     = legacy_tree_conflict conflict"
proof (cases "assert_tree_conflict conflict")
  case (Some e)
  then show ?thesis by (simp add: svn_client_conflict_tree_resolve_def)
next
  case None
  obtain err conflict' tr where r: "call_do_resolve_func env option conflict = (err, conflict', tr)"
    by (cases "call_do_resolve_func env option conflict") auto
  show ?thesis
    using None r resolver_keeps_tree_conflict [OF r]
    by (simp add: svn_client_conflict_tree_resolve_def)
qed

lemma tree_resolve_all_keeps_tree_conflict:
  "legacy_tree_conflict (tree_resolve_all conflict calls) = legacy_tree_conflict conflict"
  by (induction conflict calls rule: tree_resolve_all.induct)
     (simp_all add: tree_resolve_keeps_tree_conflict)

lemma add_legacy_desc_tree:
  "(legacy_tree_conflict (add_legacy_desc_to_conflict d c) = None)
     = (legacy_tree_conflict c = None \<and> kind d \<noteq> svn_wc_conflict_kind_tree)"
  by (cases "kind d") (simp_all add: add_legacy_desc_to_conflict_def)

lemma fold_add_legacy_desc_tree:
  "(legacy_tree_conflict (fold add_legacy_desc_to_conflict descs c) = None)
     = (legacy_tree_conflict c = None \<and> (\<forall>d \<in> set descs. kind d \<noteq> svn_wc_conflict_kind_tree))"
  by (induction descs arbitrary: c) (auto simp add: add_legacy_desc_tree)

text \<open>
  Claim C6 (as amended).  \<open>svn_client_conflict_get_conflicted\<close> reports
  \<open>tree_conflicted = false\<close> if and only if the conflict carried no tree conflict when it
  was opened (no tree descriptor was read for its path).  Resolving on the conflict
  object, successfully or not and however often, does not change what it reports: an
  accepted resolution is recorded in \<open>resolution_tree\<close> (read by
  \<open>svn_client_conflict_tree_get_resolution\<close>), not in the conflicted flags.
\<close>

theorem tree_conflicted_is_fixed_at_open:
  assumes "svn_client_conflict_get (Inr descs) path = Inr opened"
  shows "snd (snd (svn_client_conflict_get_conflicted want_text want_props True
                     (tree_resolve_all opened calls)))
           = Some (\<exists>d \<in> set descs. kind d = svn_wc_conflict_kind_tree)"
proof -
  have o: "opened = fold add_legacy_desc_to_conflict descs (new_conflict path)"
    using assms by (simp add: svn_client_conflict_get_def)
  have "(legacy_tree_conflict opened = None)
          = (\<forall>d \<in> set descs. kind d \<noteq> svn_wc_conflict_kind_tree)"
    unfolding o by (simp add: fold_add_legacy_desc_tree new_conflict_def)
  then have "(legacy_tree_conflict opened \<noteq> None)
          = (\<exists>d \<in> set descs. kind d = svn_wc_conflict_kind_tree)"
    by (metis (full_types))
  then show ?thesis
    by (simp only: svn_client_conflict_get_conflicted_def tree_resolve_all_keeps_tree_conflict
          snd_conv if_True)
qed

theorem tree_conflicted_is_fixed_at_open_witness:
  "svn_client_conflict_get
       (Inr [sample_tree_desc svn_wc_operation_update svn_wc_conflict_action_delete
               svn_wc_conflict_reason_edited]) ''/wc/mu''
     = Inr (conflict_of_descs [sample_tree_desc svn_wc_operation_update
                                 svn_wc_conflict_action_delete svn_wc_conflict_reason_edited])
   \<and> snd (snd (svn_client_conflict_get_conflicted False False True
        (tree_resolve_all
           (conflict_of_descs [sample_tree_desc svn_wc_operation_update
                                 svn_wc_conflict_action_delete svn_wc_conflict_reason_edited])
           [(ok_env, mk_option svn_client_conflict_option_accept_current_wc_state
                       resolve_accept_current_wc_state_fn)])))
       = Some True"
proof -
  let ?d = "sample_tree_desc svn_wc_operation_update svn_wc_conflict_action_delete
              svn_wc_conflict_reason_edited"
  have g: "svn_client_conflict_get (Inr [?d]) ''/wc/mu'' = Inr (conflict_of_descs [?d])"
    by (simp add: svn_client_conflict_get_def conflict_of_descs_def)
  have k: "\<exists>d \<in> set [?d]. kind d = svn_wc_conflict_kind_tree"
    by (simp add: sample_tree_desc_def)
  show ?thesis
    using g k tree_conflicted_is_fixed_at_open [OF g, of False False
        "[(ok_env, mk_option svn_client_conflict_option_accept_current_wc_state
                     resolve_accept_current_wc_state_fn)]"]
    by simp
qed

lemma resolved_sample_run:
  "resolved_sample =
     (None,
      sample_delete_conflict\<lparr>resolution_tree := svn_client_conflict_option_accept_current_wc_state\<rparr>,
      [Wc_get_wcroot, Wc_acquire_write_lock_for_resolve, Wc_del_tree_conflict,
       Wc_release_write_lock])"
  by code_simp

text \<open>
  The claim as stated fails on the sample conflict: after \<open>accept_current_wc_state\<close> was
  accepted on the conflict object (no error, and \<open>tree_get_resolution\<close> returns the
  option), \<open>get_conflicted\<close> still reports \<open>tree_conflicted = true\<close>.
\<close>

theorem tree_conflicted_after_resolution_counterexample:
  "fst resolved_sample = None
   \<and> svn_client_conflict_tree_get_resolution (fst (snd resolved_sample))
       = svn_client_conflict_option_accept_current_wc_state
   \<and> snd (snd (svn_client_conflict_get_conflicted False False True (fst (snd resolved_sample))))
       = Some True"
  by (simp add: resolved_sample_run svn_client_conflict_tree_get_resolution_def
        svn_client_conflict_get_conflicted_def)
     (simp add: sample_delete_conflict_def conflict_of_descs_def add_legacy_desc_to_conflict_def
        sample_tree_desc_def new_conflict_def)


section \<open>Results on the revision list formatter\<close>

lemma fold_append_body:
  "fold (\<lambda>i s. s @ f i) xs acc = acc @ concat (map f xs)"
  by (induction xs arbitrary: acc) simp_all

lemma describe_revs_concat:
  "describe_incoming_edit_list_modified_revs edits =
     concat (map (list_revs_body edits) [0..<length edits])"
  by (simp add: describe_incoming_edit_list_modified_revs_def fold_append_body)

lemma concat_map_singletons:
  "(\<And>i. i \<in> set xs \<Longrightarrow> f i = [g i]) \<Longrightarrow> concat (map f xs) = map g xs"
  by (induction xs) simp_all

lemma concat_map_empties:
  "(\<And>i. i \<in> set xs \<Longrightarrow> f i = []) \<Longrightarrow> concat (map f xs) = []"
  by (induction xs) simp_all

lemma num_revs_to_skip_small:
  "length edits \<le> 12 \<Longrightarrow> num_revs_to_skip edits = 0"
  by (simp add: num_revs_to_skip_def Let_def max_revs_to_display_def min_revs_for_skipping_def)

lemma num_revs_to_skip_large:
  "13 \<le> length edits \<Longrightarrow> num_revs_to_skip edits = int (length edits) - 8"
  by (simp add: num_revs_to_skip_def Let_def max_revs_to_display_def min_revs_for_skipping_def)

lemma describe_revs_small:
  assumes "length edits \<le> 12"
  shows "describe_incoming_edit_list_modified_revs edits = map (rev_item edits) [0..<length edits]"
proof -
  have "\<And>i. list_revs_body edits i = [rev_item edits i]"
    using assms by (simp add: list_revs_body_def Let_def num_revs_to_skip_small)
  then show ?thesis
    by (simp add: describe_revs_concat concat_map_singletons)
qed

lemma upt_split4:
  assumes "13 \<le> n"
  shows "[0..<n] = [0..<4] @ [4..<n - 4] @ [n - 4] @ [n - 3..<n]"
proof -
  have a: "[0..<4 + (n - 4)] = [0..<4] @ [4..<4 + (n - 4)]"
    by (rule upt_add_eq_append) simp
  have b: "[4..<(n - 4) + 4] = [4..<n - 4] @ [n - 4..<(n - 4) + 4]"
    by (rule upt_add_eq_append) (use assms in simp)
  have c: "[n - 4..<n] = [n - 4] @ [n - 3..<n]"
    using assms by (simp add: upt_conv_Cons Suc_diff_le numeral_eq_Suc)
  have n1: "4 + (n - 4) = n" and n2: "(n - 4) + 4 = n"
    using assms by simp_all
  show ?thesis using a b c by (simp only: n1 n2 append_assoc)
qed

lemma describe_revs_large:
  assumes "13 \<le> length edits"
  shows "describe_incoming_edit_list_modified_revs edits =
           map (rev_item edits) [0..<4]
           @ [Omitted (int (length edits) - 8)]
           @ map (rev_item edits) [length edits - 4..<length edits]"
proof -
  let ?n = "length edits"
  have skip: "num_revs_to_skip edits = int ?n - 8"
    using assms by (rule num_revs_to_skip_large)
  have head: "concat (map (list_revs_body edits) [0..<4]) = map (rev_item edits) [0..<4]"
    using assms
    by (intro concat_map_singletons)
       (simp add: list_revs_body_def Let_def skip max_revs_to_display_def)
  have mid: "concat (map (list_revs_body edits) [4..<?n - 4]) = []"
    using assms
    by (intro concat_map_empties)
       (auto simp add: list_revs_body_def Let_def skip max_revs_to_display_def)
  have at: "list_revs_body edits (?n - 4) = [Omitted (int ?n - 8), rev_item edits (?n - 4)]"
    using assms
    by (auto simp add: list_revs_body_def Let_def skip max_revs_to_display_def)
  have tail: "concat (map (list_revs_body edits) [?n - 3..<?n]) = map (rev_item edits) [?n - 3..<?n]"
    using assms
    by (intro concat_map_singletons)
       (auto simp add: list_revs_body_def Let_def skip max_revs_to_display_def)
  have last4: "[?n - 4..<?n] = [?n - 4] @ [?n - 3..<?n]"
    using assms by (simp add: upt_conv_Cons Suc_diff_le numeral_eq_Suc)
  show ?thesis
    unfolding describe_revs_concat upt_split4 [OF assms]
    using head mid at tail last4 by simp
qed

lemma filter_placeholder_rev_items:
  "filter is_placeholder (map (rev_item edits) xs) = []"
  by (induction xs) (simp_all add: is_placeholder_def rev_item_def)

text \<open>
  Claim C4 (as amended).  The formatter inserts the placeholder as soon as the list has
  thirteen entries (eight displayed and at least \<open>min_revs_for_skipping = 5\<close> omitted):
  for a list of at least 13 edits it emits the first four revisions, then the placeholder
  exactly once with N = length - 8, then the last four revisions; for a list of at most 12
  edits it emits every revision and no placeholder.
\<close>

theorem describe_incoming_edit_list_modified_revs_placeholder:
  "(13 \<le> length edits \<longrightarrow>
      describe_incoming_edit_list_modified_revs edits =
        map (rev_item edits) [0..<4]
        @ [Omitted (int (length edits) - 8)]
        @ map (rev_item edits) [length edits - 4..<length edits]
      \<and> length (filter is_placeholder (describe_incoming_edit_list_modified_revs edits)) = 1)
   \<and> (length edits \<le> 12 \<longrightarrow>
      describe_incoming_edit_list_modified_revs edits = map (rev_item edits) [0..<length edits]
      \<and> filter is_placeholder (describe_incoming_edit_list_modified_revs edits) = [])"
proof (intro conjI impI)
  assume big: "13 \<le> length edits"
  show "describe_incoming_edit_list_modified_revs edits =
        map (rev_item edits) [0..<4]
        @ [Omitted (int (length edits) - 8)]
        @ map (rev_item edits) [length edits - 4..<length edits]"
    using big by (rule describe_revs_large)
  then show "length (filter is_placeholder (describe_incoming_edit_list_modified_revs edits)) = 1"
    by (simp add: filter_placeholder_rev_items) (simp add: is_placeholder_def)
next
  assume small: "length edits \<le> 12"
  show "describe_incoming_edit_list_modified_revs edits = map (rev_item edits) [0..<length edits]"
    using small by (rule describe_revs_small)
  then show "filter is_placeholder (describe_incoming_edit_list_modified_revs edits) = []"
    by (simp add: filter_placeholder_rev_items)
qed

lemma thirteen_edits_length: "length thirteen_edits = 13"
  by (simp add: thirteen_edits_def)

theorem describe_incoming_edit_list_modified_revs_placeholder_witness:
  "13 \<le> length thirteen_edits
   \<and> length (filter is_placeholder (describe_incoming_edit_list_modified_revs thirteen_edits)) = 1
   \<and> length [sample_edit 1, sample_edit 2] \<le> 12
   \<and> describe_incoming_edit_list_modified_revs [sample_edit 1, sample_edit 2] =
       [Rev_item 1 ''jrandom'' True, Rev_item 2 ''jrandom'' False]"
proof -
  have a: "13 \<le> length thirteen_edits"
    by (simp add: thirteen_edits_length)
  have b: "length [sample_edit 1, sample_edit 2] \<le> 12"
    by simp
  have c: "length (filter is_placeholder
             (describe_incoming_edit_list_modified_revs thirteen_edits)) = 1"
    using describe_incoming_edit_list_modified_revs_placeholder [of thirteen_edits] a by blast
  have d: "describe_incoming_edit_list_modified_revs [sample_edit 1, sample_edit 2] =
             map (rev_item [sample_edit 1, sample_edit 2])
                 [0..<length [sample_edit 1, sample_edit 2]]"
    using describe_incoming_edit_list_modified_revs_placeholder
            [of "[sample_edit 1, sample_edit 2]"] b by blast
  have e: "map (rev_item [sample_edit 1, sample_edit 2])
               [0..<length [sample_edit 1, sample_edit 2]] =
           [Rev_item 1 ''jrandom'' True, Rev_item 2 ''jrandom'' False]"
    by (simp add: rev_item_def sample_edit_def upt_conv_Cons)
  show ?thesis using a b c d e by simp
qed

text \<open>
  The claim as stated fails at a list of exactly thirteen revisions: the placeholder
  (for 5 omitted revisions) is emitted although the list has "at most 13 entries".
\<close>

theorem describe_incoming_edit_list_thirteen_counterexample:
  "\<not> (length thirteen_edits \<le> 13 \<longrightarrow>
        filter is_placeholder (describe_incoming_edit_list_modified_revs thirteen_edits) = [])"
proof -
  have "13 \<le> length thirteen_edits"
    by (simp add: thirteen_edits_length)
  then have "describe_incoming_edit_list_modified_revs thirteen_edits =
        map (rev_item thirteen_edits) [0..<4]
        @ [Omitted (int (length thirteen_edits) - 8)]
        @ map (rev_item thirteen_edits) [length thirteen_edits - 4..<length thirteen_edits]"
    by (rule describe_revs_large)
  then show ?thesis
    by (simp add: thirteen_edits_length filter_placeholder_rev_items is_placeholder_def)
qed

section \<open>Results on the move scanner\<close>

lemma linked_ok_append_plain:
  assumes "moves_linked_ok ms" "move_next m = None" "move_prev m = None"
  shows "moves_linked_ok (ms @ [m])"
  unfolding moves_linked_ok_def
proof (intro allI impI)
  fix p assume p: "p < length (ms @ [m])"
  show "(\<forall>q. move_next ((ms @ [m]) ! p) = Some q \<longrightarrow>
              q < p \<and> move_rev ((ms @ [m]) ! p) < move_rev ((ms @ [m]) ! q))
        \<and> (\<forall>q. move_prev ((ms @ [m]) ! p) = Some q \<longrightarrow>
              q < length (ms @ [m]) \<and> move_rev ((ms @ [m]) ! q) < move_rev ((ms @ [m]) ! p))"
  proof (cases "p < length ms")
    case True
    then show ?thesis
      using assms(1) unfolding moves_linked_ok_def
      by (auto simp add: nth_append)
  next
    case False
    then have "p = length ms" using p by simp
    then show ?thesis using assms(2,3) by simp
  qed
qed

lemma linked_ok_link:
  assumes ok: "moves_linked_ok ms"
      and q: "q < length ms"
      and r: "move_rev m < move_rev (ms ! q)"
      and mp: "move_prev m = None"
  shows "moves_linked_ok
           (ms[q := (ms ! q)\<lparr>move_prev := Some (length ms)\<rparr>] @ [m\<lparr>move_next := Some q\<rparr>])"
    (is "moves_linked_ok ?ms'")
proof -
  let ?n = "length ms"
  have len: "length ?ms' = Suc ?n" by simp
  have rev_old: "\<And>i. i < ?n \<Longrightarrow> move_rev (?ms' ! i) = move_rev (ms ! i)"
    using q by (simp add: nth_append nth_list_update)
  have next_old: "\<And>i. i < ?n \<Longrightarrow> move_next (?ms' ! i) = move_next (ms ! i)"
    using q by (simp add: nth_append nth_list_update)
  have prev_old: "\<And>i. i < ?n \<Longrightarrow> i \<noteq> q \<Longrightarrow> move_prev (?ms' ! i) = move_prev (ms ! i)"
    using q by (simp add: nth_append nth_list_update)
  have prev_q: "move_prev (?ms' ! q) = Some ?n"
    using q by (simp add: nth_append)
  have new: "?ms' ! ?n = m\<lparr>move_next := Some q\<rparr>"
    by (simp add: nth_append)
  show ?thesis
    unfolding moves_linked_ok_def
  proof (intro allI impI)
    fix p assume "p < length ?ms'"
    then have p: "p < Suc ?n" by simp
    show "(\<forall>x. move_next (?ms' ! p) = Some x \<longrightarrow>
                x < p \<and> move_rev (?ms' ! p) < move_rev (?ms' ! x))
          \<and> (\<forall>x. move_prev (?ms' ! p) = Some x \<longrightarrow>
                x < length ?ms' \<and> move_rev (?ms' ! x) < move_rev (?ms' ! p))"
    proof (cases "p = ?n")
      case True
      have "move_rev (?ms' ! ?n) < move_rev (?ms' ! q)"
        using r q by (simp add: new rev_old)
      then show ?thesis
        using True q mp by (simp add: new)
    next
      case False
      then have pn: "p < ?n" using p by simp
      have nxt: "\<forall>x. move_next (?ms' ! p) = Some x \<longrightarrow>
                      x < p \<and> move_rev (?ms' ! p) < move_rev (?ms' ! x)"
      proof (intro allI impI)
        fix x assume "move_next (?ms' ! p) = Some x"
        then have x: "move_next (ms ! p) = Some x" using pn by (simp add: next_old)
        then have "x < p" "move_rev (ms ! p) < move_rev (ms ! x)"
          using ok pn unfolding moves_linked_ok_def by blast+
        then show "x < p \<and> move_rev (?ms' ! p) < move_rev (?ms' ! x)"
          using pn by (simp add: rev_old)
      qed
      have prv: "\<forall>x. move_prev (?ms' ! p) = Some x \<longrightarrow>
                      x < length ?ms' \<and> move_rev (?ms' ! x) < move_rev (?ms' ! p)"
      proof (intro allI impI)
        fix x assume px: "move_prev (?ms' ! p) = Some x"
        show "x < length ?ms' \<and> move_rev (?ms' ! x) < move_rev (?ms' ! p)"
        proof (cases "p = q")
          case True
          then have "x = ?n" using px prev_q by simp
          then show ?thesis
            using True r q by (simp add: new rev_old)
        next
          case False
          then have "move_prev (ms ! p) = Some x" using px pn by (simp add: prev_old)
          then have "x < ?n" "move_rev (ms ! x) < move_rev (ms ! p)"
            using ok pn unfolding moves_linked_ok_def by blast+
          then show ?thesis using pn by (simp add: rev_old)
        qed
      qed
      show ?thesis using nxt prv by blast
    qed
  qed
qed

lemma record_move_pool:
  "result_pool (record_move m st) = result_pool st @ [m]"
  by (simp add: record_move_def Let_def)

lemma find_move_for_copy_ok:
  assumes "moves_linked_ok (result_pool st)"
      and "find_move_for_copy ra log_entry d copy st = (err, st')"
  shows "moves_linked_ok (result_pool st')"
proof -
  have plain: "moves_linked_ok (result_pool (record_move m st))"
    if "move_next m = None" "move_prev m = None" for m
    using linked_ok_append_plain [OF assms(1) that] by (simp add: record_move_pool)
  have linked: "moves_linked_ok
                  (result_pool
                    (record_move
                      \<lparr> moved_from_repos_relpath = f, moved_to_repos_relpath = t,
                        move_rev = r, move_rev_author = a, move_copyfrom_rev = c,
                        move_prev = None, move_next = Some q \<rparr>
                      (set_prev q st)))"
    if "deref (result_pool st) q = Some nm" "r < move_rev nm" for f t r a c q nm
  proof -
    from that(1) have q: "q < length (result_pool st)" and nm: "nm = result_pool st ! q"
      by (auto simp add: deref_def split: if_splits)
    show ?thesis
      using linked_ok_link [OF assms(1) q,
              of "\<lparr> moved_from_repos_relpath = f, moved_to_repos_relpath = t,
                    move_rev = r, move_rev_author = a, move_copyfrom_rev = c,
                    move_prev = None, move_next = None \<rparr>"] that(2) nm
      by (simp add: record_move_pool set_prev_def)
  qed
  show ?thesis
    using assms plain linked
    by (auto simp add: find_move_for_copy_def Let_def svn_error_create_def
          split: sum.splits option.splits if_splits)
qed

lemma find_moves_for_copies_ok:
  "moves_linked_ok (result_pool st)
     \<Longrightarrow> find_moves_for_copies ra log_entry d cs st = (err, st')
     \<Longrightarrow> moves_linked_ok (result_pool st')"
proof (induction cs arbitrary: st)
  case Nil
  then show ?case by simp
next
  case (Cons c cs)
  obtain e1 st1 where s: "find_move_for_copy ra log_entry d c st = (e1, st1)"
    by (cases "find_move_for_copy ra log_entry d c st") auto
  have ok1: "moves_linked_ok (result_pool st1)"
    using find_move_for_copy_ok [OF Cons.prems(1) s] .
  show ?case
  proof (cases e1)
    case None
    then show ?thesis using Cons.IH [OF ok1] Cons.prems(2) s by simp
  next
    case (Some e)
    then show ?thesis using ok1 Cons.prems(2) s by simp
  qed
qed

lemma find_moves_in_revision_ok:
  "moves_linked_ok (result_pool st)
     \<Longrightarrow> find_moves_in_revision ra log_entry copies ds st = (err, st')
     \<Longrightarrow> moves_linked_ok (result_pool st')"
proof (induction ds arbitrary: st)
  case Nil
  then show ?case by simp
next
  case (Cons d ds)
  show ?case
  proof (cases "hash_get copies d")
    case None
    then show ?thesis using Cons by simp
  next
    case (Some cs)
    obtain e1 st1 where s: "find_moves_for_copies ra log_entry d cs st = (e1, st1)"
      by (cases "find_moves_for_copies ra log_entry d cs st") auto
    have ok1: "moves_linked_ok (result_pool st1)"
      using find_moves_for_copies_ok [OF Cons.prems(1) s] .
    show ?thesis
    proof (cases e1)
      case None
      then show ?thesis using Cons.IH [OF ok1] Cons.prems(2) s Some by simp
    next
      case (Some e)
      then show ?thesis using ok1 Cons.prems(2) s \<open>hash_get copies d = Some cs\<close> by simp
    qed
  qed
qed

lemma changed_path_step_scan:
  "changed_path_step ra log_entry entry (copies, ds, found, b) = (err, (copies', ds', found', b'))
     \<Longrightarrow> scan b' = scan b"
  by (auto simp add: changed_path_step_def Let_def split: prod.splits sum.splits
        option.splits if_splits)

lemma changed_paths_loop_scan:
  "changed_paths_loop ra log_entry entries (copies, ds, found, b)
     = (err, (copies', ds', found', b'))
     \<Longrightarrow> scan b' = scan b"
proof (induction entries arbitrary: copies ds found b)
  case Nil
  then show ?case by simp
next
  case (Cons entry entries)
  obtain e1 c1 d1 f1 b1 where
    s: "changed_path_step ra log_entry entry (copies, ds, found, b) = (e1, (c1, d1, f1, b1))"
    by (metis prod.exhaust)
  have b1: "scan b1 = scan b"
    using changed_path_step_scan [OF s] .
  show ?case
  proof (cases e1)
    case None
    then show ?thesis using Cons.IH [of c1 d1 f1 b1] Cons.prems s b1 by simp
  next
    case (Some e)
    then show ?thesis using Cons.prems s b1 by simp
  qed
qed

lemma find_deleted_rev_ok:
  assumes "moves_linked_ok (result_pool (scan b))"
      and "find_deleted_rev ra log_entry b = (err, b')"
  shows "moves_linked_ok (result_pool (scan b'))"
proof (cases "changed_paths2 log_entry")
  case None
  then show ?thesis using assms by (simp add: find_deleted_rev_def)
next
  case (Some entries)
  obtain e1 c1 d1 f1 b1 where
    l: "changed_paths_loop ra log_entry entries ([], [], False, b) = (e1, (c1, d1, f1, b1))"
    by (metis prod.exhaust)
  have b1: "scan b1 = scan b"
    using changed_paths_loop_scan [OF l] .
  show ?thesis
  proof (cases e1)
    case (Some e)
    then show ?thesis
      using assms l b1 \<open>changed_paths2 log_entry = Some entries\<close>
      by (auto simp add: find_deleted_rev_def)
  next
    case None
    obtain e2 st2 where m: "find_moves_in_revision ra log_entry c1 d1 (scan b1) = (e2, st2)"
      by (cases "find_moves_in_revision ra log_entry c1 d1 (scan b1)") auto
    have "moves_linked_ok (result_pool st2)"
      using find_moves_in_revision_ok [OF _ m] assms(1) b1 by simp
    then show ?thesis
      using assms(2) l None m \<open>changed_paths2 log_entry = Some entries\<close>
      by (auto simp add: find_deleted_rev_def svn_error_create_def split: option.splits if_splits)
  qed
qed

lemma receive_log_ok:
  "moves_linked_ok (result_pool (scan b))
     \<Longrightarrow> receive_log ra log_entries b = (err, b')
     \<Longrightarrow> moves_linked_ok (result_pool (scan b'))"
proof (induction log_entries arbitrary: b)
  case Nil
  then show ?case by simp
next
  case (Cons log_entry log_entries)
  obtain e1 b1 where s: "find_deleted_rev ra log_entry b = (e1, b1)"
    by (cases "find_deleted_rev ra log_entry b") auto
  have ok1: "moves_linked_ok (result_pool (scan b1))"
    using find_deleted_rev_ok [OF Cons.prems(1) s] .
  show ?case
  proof (cases e1)
    case None
    then show ?thesis using Cons.IH [OF ok1] Cons.prems(2) s by simp
  next
    case (Some e)
    then show ?thesis using ok1 Cons.prems(2) s by simp
  qed
qed


lemma chain_from_more_fuel:
  "chain_from ms fuel p = Some path \<Longrightarrow> fuel \<le> fuel' \<Longrightarrow> chain_from ms fuel' p = Some path"
proof (induction fuel arbitrary: p fuel' path)
  case 0
  then show ?case by simp
next
  case (Suc fuel)
  then obtain g where g: "fuel' = Suc g" "fuel \<le> g"
    by (cases fuel') auto
  show ?case
  proof (cases "deref ms p")
    case None
    then show ?thesis using Suc.prems(1) by simp
  next
    case (Some m)
    show ?thesis
    proof (cases "move_next m")
      case None
      then show ?thesis using Suc.prems(1) Some g by simp
    next
      case (Some q)
      then obtain rest where rest: "chain_from ms fuel q = Some rest" "path = p # rest"
        using Suc.prems(1) \<open>deref ms p = Some m\<close> by auto
      have "chain_from ms g q = Some rest"
        using Suc.IH [OF rest(1) g(2)] .
      then show ?thesis using Some \<open>deref ms p = Some m\<close> g rest(2) by simp
    qed
  qed
qed

lemma chain_from_linked:
  assumes ok: "moves_linked_ok ms"
  shows "p < length ms \<Longrightarrow>
         \<exists>path. chain_from ms (Suc p) p = Some path \<and> hd path = p \<and> path \<noteq> []
           \<and> distinct path
           \<and> sorted_wrt (\<lambda>i j. move_rev (ms ! i) < move_rev (ms ! j)) path
           \<and> (\<forall>j \<in> set path. j \<le> p \<and> move_rev (ms ! p) \<le> move_rev (ms ! j))"
proof (induction p rule: less_induct)
  case (less p)
  have d: "deref ms p = Some (ms ! p)"
    using less.prems by (simp add: deref_def)
  show ?case
  proof (cases "move_next (ms ! p)")
    case None
    then show ?thesis using d by simp
  next
    case (Some q)
    then have q: "q < p" and r: "move_rev (ms ! p) < move_rev (ms ! q)"
      using ok less.prems unfolding moves_linked_ok_def by blast+
    have "q < length ms" using q less.prems by simp
    from less.IH [OF q this] obtain rest where
      rest: "chain_from ms (Suc q) q = Some rest" "hd rest = q" "rest \<noteq> []" "distinct rest"
        "sorted_wrt (\<lambda>i j. move_rev (ms ! i) < move_rev (ms ! j)) rest"
        "\<forall>j \<in> set rest. j \<le> q \<and> move_rev (ms ! q) \<le> move_rev (ms ! j)"
      by blast
    have c: "chain_from ms p q = Some rest"
      using chain_from_more_fuel [OF rest(1), of p] q by simp
    have "chain_from ms (Suc p) p = Some (p # rest)"
      using d Some c by simp
    moreover have "distinct (p # rest)"
      using rest(4,6) q by auto
    moreover have "sorted_wrt (\<lambda>i j. move_rev (ms ! i) < move_rev (ms ! j)) (p # rest)"
      using rest(5,6) r by auto
    moreover have "\<forall>j \<in> set (p # rest). j \<le> p \<and> move_rev (ms ! p) \<le> move_rev (ms ! j)"
      using rest(6) q r by auto
    ultimately show ?thesis by auto
  qed
qed

lemma chain_from_pool:
  assumes "moves_linked_ok ms" "p < length ms"
  shows "\<exists>path. chain_from ms (length ms) p = Some path \<and> hd path = p \<and> distinct path
           \<and> sorted_wrt (\<lambda>i j. move_rev (ms ! i) < move_rev (ms ! j)) path"
proof -
  from chain_from_linked [OF assms] obtain path where
    path: "chain_from ms (Suc p) p = Some path" "hd path = p" "distinct path"
      "sorted_wrt (\<lambda>i j. move_rev (ms ! i) < move_rev (ms ! j)) path"
    by blast
  have "chain_from ms (length ms) p = Some path"
    using chain_from_more_fuel [OF path(1), of "length ms"] assms(2) by simp
  then show ?thesis using path by blast
qed

lemma moves_linked_ok_empty: "moves_linked_ok (result_pool empty_scan)"
  by (simp add: moves_linked_ok_def empty_scan_def)

text \<open>
  Claim C5.  Let the scanner start with empty tables and receive any sequence of log
  entries, in any order and with any answers of the repository, up to the end of the log
  or to the first error.  Then for every move \<open>m\<close> it has allocated: if \<open>m.next\<close> is set,
  it points to a move of the pool with \<open>m.rev < m.next.rev\<close>; if \<open>m.prev\<close> is set, it
  points to a move of the pool with \<open>m.prev.rev < m.rev\<close>; and the walk
  \<open>m, m.next, m.next.next, ...\<close> ends after at most as many steps as there are moves,
  visits no move twice, and meets strictly increasing revisions.
\<close>

theorem scanned_moves_chains_well_formed:
  assumes "receive_log ra log_entries (b\<lparr>scan := empty_scan\<rparr>) = (err, b')"
      and "p < length (result_pool (scan b'))"
  shows "(\<forall>q. move_next (result_pool (scan b') ! p) = Some q \<longrightarrow>
            q < length (result_pool (scan b'))
            \<and> move_rev (result_pool (scan b') ! p) < move_rev (result_pool (scan b') ! q))
       \<and> (\<forall>q. move_prev (result_pool (scan b') ! p) = Some q \<longrightarrow>
            q < length (result_pool (scan b'))
            \<and> move_rev (result_pool (scan b') ! q) < move_rev (result_pool (scan b') ! p))
       \<and> (\<exists>path. chain_from (result_pool (scan b')) (length (result_pool (scan b'))) p
                     = Some path
            \<and> hd path = p \<and> distinct path
            \<and> sorted_wrt (\<lambda>i j. move_rev (result_pool (scan b') ! i)
                                   < move_rev (result_pool (scan b') ! j)) path)"
proof -
  let ?ms = "result_pool (scan b')"
  have ok: "moves_linked_ok ?ms"
    using receive_log_ok [OF _ assms(1)] moves_linked_ok_empty by simp
  have n: "\<forall>q. move_next (?ms ! p) = Some q \<longrightarrow>
             q < length ?ms \<and> move_rev (?ms ! p) < move_rev (?ms ! q)"
    using ok assms(2) unfolding moves_linked_ok_def by (meson less_trans)
  have pr: "\<forall>q. move_prev (?ms ! p) = Some q \<longrightarrow>
             q < length ?ms \<and> move_rev (?ms ! q) < move_rev (?ms ! p)"
    using ok assms(2) unfolding moves_linked_ok_def by blast
  show ?thesis
    using n pr chain_from_pool [OF ok assms(2)] by blast
qed


lemma sample_log_scanned:
  "receive_log sample_ra sample_log (sample_baton\<lparr>scan := empty_scan\<rparr>) = (None, sample_scanned)"
  by code_simp

lemma sample_scanned_pool:
  "result_pool (scan sample_scanned) =
     [sample_move ''c'' ''d'' 8 7 (Some 1) None,
      sample_move ''b'' ''c'' 5 4 (Some 2) (Some 0),
      sample_move ''a'' ''b'' 3 2 None (Some 1)]"
  by (simp add: sample_scanned_def)

theorem scanned_moves_chains_well_formed_witness:
  "receive_log sample_ra sample_log (sample_baton\<lparr>scan := empty_scan\<rparr>) = (None, sample_scanned)
   \<and> 1 < length (result_pool (scan sample_scanned))
   \<and> move_next (result_pool (scan sample_scanned) ! 1) = Some 0
   \<and> move_rev (result_pool (scan sample_scanned) ! 1)
       < move_rev (result_pool (scan sample_scanned) ! 0)
   \<and> move_prev (result_pool (scan sample_scanned) ! 1) = Some 2
   \<and> move_rev (result_pool (scan sample_scanned) ! 2)
       < move_rev (result_pool (scan sample_scanned) ! 1)
   \<and> (\<exists>path. chain_from (result_pool (scan sample_scanned))
                 (length (result_pool (scan sample_scanned))) 1 = Some path
          \<and> hd path = 1 \<and> distinct path)"
proof -
  let ?ms = "result_pool (scan sample_scanned)"
  have len: "1 < length ?ms"
    by (simp add: sample_scanned_pool)
  have nx: "move_next (?ms ! 1) = Some 0"
    by (simp add: sample_scanned_pool sample_move_def)
  have pv: "move_prev (?ms ! 1) = Some 2"
    by (simp add: sample_scanned_pool sample_move_def)
  note t = scanned_moves_chains_well_formed [OF sample_log_scanned len]
  from t nx have a: "move_rev (?ms ! 1) < move_rev (?ms ! 0)"
    by blast
  from t pv have b: "move_rev (?ms ! 2) < move_rev (?ms ! 1)"
    by blast
  from t have c: "\<exists>path. chain_from ?ms (length ?ms) 1 = Some path \<and> hd path = 1 \<and> distinct path"
    by blast
  show ?thesis
    using sample_log_scanned len nx pv a b c by blast
qed


section \<open>The moves recorded for one revision\<close>

lemma hash_get_set:
  "hash_get (hash_set h k v) k' = (if k' = k then Some v else hash_get h k')"
  by (induction h) (auto simp add: hash_get_def)

lemma moves_in_record_move:
  "moves_in (record_move m st) r =
     (if r = move_rev m then moves_in st r @ [length (result_pool st)] else moves_in st r)"
  by (simp add: moves_in_def record_move_def Let_def hash_get_set)

lemma moves_in_set_prev: "moves_in (set_prev q st) r = moves_in st r"
  by (simp add: moves_in_def set_prev_def)

lemma length_pool_set_prev: "length (result_pool (set_prev q st)) = length (result_pool st)"
  by (simp add: set_prev_def)

lemma keys_set_prev:
  "map move_key (result_pool (set_prev q st)) = map move_key (result_pool st)"
proof (cases "q < length (result_pool st)")
  case True
  have "map move_key (result_pool (set_prev q st))
          = (map move_key (result_pool st))[q := move_key (result_pool st ! q)]"
    by (simp add: set_prev_def map_update move_key_def)
  also have "\<dots> = map move_key (result_pool st)"
    using True by (simp add: list_update_same_conv)
  finally show ?thesis .
next
  case False
  then show ?thesis by (simp add: set_prev_def list_update_beyond)
qed

lemma check_move_ancestry_spec:
  "check_move_ancestry ra d r (copyfrom_path c) (copyfrom_rev c) = Inr v
     \<Longrightarrow> spec_ancestry_verified ra d r c = v"
  by (auto simp add: check_move_ancestry_def spec_ancestry_verified_def
        split: sum.splits option.splits)

lemma find_move_for_copy_moves:
  assumes "find_move_for_copy ra log_entry d c st = (None, st')"
  shows "map move_key (result_pool st')
           = map move_key (result_pool st)
             @ map (\<lambda>copy. (d, copyto_path copy, revision log_entry, log_author log_entry,
                             copyfrom_rev copy))
                 (filter (spec_ancestry_verified ra d (revision log_entry)) [c])
         \<and> moves_in st' (revision log_entry)
           = moves_in st (revision log_entry)
             @ [length (result_pool st) ..< length (result_pool st')]"
proof (cases "check_move_ancestry ra d (revision log_entry) (copyfrom_path c) (copyfrom_rev c)")
  case (Inl e)
  then show ?thesis using assms by (simp add: find_move_for_copy_def)
next
  case (Inr related)
  have v: "spec_ancestry_verified ra d (revision log_entry) c = related"
    using check_move_ancestry_spec [OF Inr] .
  show ?thesis
  proof (cases related)
    case False
    then show ?thesis using assms Inr v by (simp add: find_move_for_copy_def)
  next
    case True
    then obtain a where a: "log_author log_entry = Some a"
      using assms Inr by (cases "log_author log_entry") (auto simp add: find_move_for_copy_def)
    let ?m = "\<lparr> moved_from_repos_relpath = d, moved_to_repos_relpath = copyto_path c,
                 move_rev = revision log_entry, move_rev_author = a,
                 move_copyfrom_rev = copyfrom_rev c, move_prev = None, move_next = None \<rparr>"
    have "st' = record_move ?m st
          \<or> (\<exists>q. st' = record_move (?m\<lparr>move_next := Some q\<rparr>) (set_prev q st))"
      using assms Inr True a
      by (auto simp add: find_move_for_copy_def Let_def svn_error_create_def
            split: option.splits sum.splits if_splits)
    then show ?thesis
    proof
      assume "st' = record_move ?m st"
      then show ?thesis
        using v True a
        by (simp add: record_move_pool moves_in_record_move move_key_def)
    next
      assume "\<exists>q. st' = record_move (?m\<lparr>move_next := Some q\<rparr>) (set_prev q st)"
      then obtain q where "st' = record_move (?m\<lparr>move_next := Some q\<rparr>) (set_prev q st)"
        by blast
      then show ?thesis
        using v True a
        by (simp add: record_move_pool moves_in_record_move moves_in_set_prev
              length_pool_set_prev keys_set_prev move_key_def)
    qed
  qed
qed

lemma moves_compose:
  assumes k1: "map move_key (result_pool st1) = map move_key (result_pool st) @ n1"
      and m1: "moves_in st1 r = moves_in st r @ [length (result_pool st) ..< length (result_pool st1)]"
      and k2: "map move_key (result_pool st2) = map move_key (result_pool st1) @ n2"
      and m2: "moves_in st2 r = moves_in st1 r @ [length (result_pool st1) ..< length (result_pool st2)]"
  shows "map move_key (result_pool st2) = map move_key (result_pool st) @ n1 @ n2
         \<and> moves_in st2 r = moves_in st r @ [length (result_pool st) ..< length (result_pool st2)]"
proof -
  have "length (map move_key (result_pool st1)) = length (map move_key (result_pool st) @ n1)"
    by (simp only: k1)
  then have l1: "length (result_pool st) \<le> length (result_pool st1)"
    by simp
  have "length (map move_key (result_pool st2)) = length (map move_key (result_pool st1) @ n2)"
    by (simp only: k2)
  then have l2: "length (result_pool st1) \<le> length (result_pool st2)"
    by simp
  have u: "[length (result_pool st) ..< length (result_pool st1)]
            @ [length (result_pool st1) ..< length (result_pool st2)]
          = [length (result_pool st) ..< length (result_pool st2)]"
  proof -
    obtain k where k: "length (result_pool st2) = length (result_pool st1) + k"
      using l2 by (metis le_Suc_ex)
    show ?thesis
      unfolding k using l1 by (rule upt_add_eq_append [symmetric])
  qed
  have a: "map move_key (result_pool st2) = map move_key (result_pool st) @ n1 @ n2"
    by (simp only: k2 k1 append_assoc)
  have b: "moves_in st2 r = moves_in st r @ [length (result_pool st) ..< length (result_pool st2)]"
    by (simp only: m2 m1 append_assoc u)
  show ?thesis using a b by (rule conjI)
qed

lemma find_moves_for_copies_moves:
  "find_moves_for_copies ra log_entry d cs st = (None, st')
     \<Longrightarrow> map move_key (result_pool st')
           = map move_key (result_pool st)
             @ map (\<lambda>copy. (d, copyto_path copy, revision log_entry, log_author log_entry,
                             copyfrom_rev copy))
                 (filter (spec_ancestry_verified ra d (revision log_entry)) cs)
         \<and> moves_in st' (revision log_entry)
           = moves_in st (revision log_entry)
             @ [length (result_pool st) ..< length (result_pool st')]"
proof (induction cs arbitrary: st)
  case Nil
  then show ?case by simp
next
  case (Cons c cs)
  obtain e1 st1 where s: "find_move_for_copy ra log_entry d c st = (e1, st1)"
    by (cases "find_move_for_copy ra log_entry d c st") auto
  have e1: "e1 = None"
    using Cons.prems s by (cases e1) auto
  have rest: "find_moves_for_copies ra log_entry d cs st1 = (None, st')"
    using Cons.prems s e1 by simp
  note a = find_move_for_copy_moves [OF s [unfolded e1]]
  note b = Cons.IH [OF rest]
  have "filter (spec_ancestry_verified ra d (revision log_entry)) (c # cs)
          = filter (spec_ancestry_verified ra d (revision log_entry)) [c]
            @ filter (spec_ancestry_verified ra d (revision log_entry)) cs"
    by simp
  then show ?case
    using moves_compose [OF conjunct1 [OF a] conjunct2 [OF a] conjunct1 [OF b] conjunct2 [OF b]]
    by (simp only: map_append)
qed

lemma spec_moves_Nil: "spec_moves_of_revision ra log_entry copies [] = []"
  by (simp add: spec_moves_of_revision_def)

lemma spec_moves_Cons:
  "spec_moves_of_revision ra log_entry copies (d # ds)
     = map (\<lambda>copy. (d, copyto_path copy, revision log_entry, log_author log_entry,
                     copyfrom_rev copy))
         (filter (spec_ancestry_verified ra d (revision log_entry))
            (case hash_get copies d of None \<Rightarrow> [] | Some cs \<Rightarrow> cs))
       @ spec_moves_of_revision ra log_entry copies ds"
  by (simp add: spec_moves_of_revision_def)

lemma find_moves_in_revision_moves:
  "find_moves_in_revision ra log_entry copies ds st = (None, st')
     \<Longrightarrow> map move_key (result_pool st')
           = map move_key (result_pool st) @ spec_moves_of_revision ra log_entry copies ds
         \<and> moves_in st' (revision log_entry)
           = moves_in st (revision log_entry)
             @ [length (result_pool st) ..< length (result_pool st')]"
proof (induction ds arbitrary: st)
  case Nil
  then show ?case by (simp add: spec_moves_Nil)
next
  case (Cons d ds)
  show ?case
  proof (cases "hash_get copies d")
    case None
    then have "find_moves_in_revision ra log_entry copies ds st = (None, st')"
      using Cons.prems by simp
    from Cons.IH [OF this] show ?thesis
      using None by (simp add: spec_moves_Cons)
  next
    case (Some cs)
    obtain e1 st1 where s: "find_moves_for_copies ra log_entry d cs st = (e1, st1)"
      by (cases "find_moves_for_copies ra log_entry d cs st") auto
    have e1: "e1 = None"
      using Cons.prems s Some by (cases e1) auto
    have rest: "find_moves_in_revision ra log_entry copies ds st1 = (None, st')"
      using Cons.prems s e1 Some by simp
    note a = find_moves_for_copies_moves [OF s [unfolded e1]]
    note b = Cons.IH [OF rest]
    show ?thesis
      using moves_compose [OF conjunct1 [OF a] conjunct2 [OF a] conjunct1 [OF b] conjunct2 [OF b]]
      by (simp add: spec_moves_Cons Some)
  qed
qed

lemma changed_path_step_collects:
  "changed_path_step ra log_entry entry (copies, ds, found, b) = (err, (copies', ds', found', b'))
     \<Longrightarrow> copies' = add_copy (skip_leading_slash (fst entry)) (snd entry) copies
       \<and> ds' = ds @ (if is_deletion (snd entry) then [skip_leading_slash (fst entry)] else [])"
  by (auto simp add: changed_path_step_def Let_def split: prod.splits sum.splits
        option.splits if_splits)

lemma changed_paths_loop_collects:
  "changed_paths_loop ra log_entry entries (copies, ds, found, b)
     = (None, (copies', ds', found', b'))
     \<Longrightarrow> copies' = fold (\<lambda>entry. add_copy (skip_leading_slash (fst entry)) (snd entry))
                   entries copies
       \<and> ds' = ds @ map (\<lambda>entry. skip_leading_slash (fst entry))
                      (filter (\<lambda>entry. is_deletion (snd entry)) entries)"
proof (induction entries arbitrary: copies ds found b)
  case Nil
  then show ?case by simp
next
  case (Cons entry entries)
  obtain e1 c1 d1 f1 b1 where
    s: "changed_path_step ra log_entry entry (copies, ds, found, b) = (e1, (c1, d1, f1, b1))"
    by (metis prod.exhaust)
  have e1: "e1 = None"
    using Cons.prems s by (cases e1) auto
  have rest: "changed_paths_loop ra log_entry entries (c1, d1, f1, b1)
                = (None, (copies', ds', found', b'))"
    using Cons.prems s e1 by simp
  show ?case
    using Cons.IH [OF rest] changed_path_step_collects [OF s] by simp
qed

lemma map_nth_upt_drop:
  "map (\<lambda>p. f (xs ! p)) [n ..< length xs] = drop n (map f xs)"
  by (rule nth_equalityI) simp_all

text \<open>
  What a scan that returns without error records: the list of the revision in
  \<open>moves_table\<close> is the former list followed by pointers to the moves allocated by this
  scan, in the order of their allocation; these moves are, in order, for every deleted
  path (in the order of \<open>deleted_paths\<close>) and every copy recorded under that path (in the
  order of their recording) that is ancestry-verified, the move from the deleted path to
  the copy target with the revision, its author and the copy's \<open>copyfrom_rev\<close>; a copy
  that is not verified yields no move; the moves allocated before keep their data.
\<close>

lemma find_moves_in_revision_records_verified_copies:
  assumes "find_moves_in_revision ra log_entry copies deleted_paths st = (None, st')"
  shows "moves_in st' (revision log_entry)
           = moves_in st (revision log_entry)
             @ [length (result_pool st) ..< length (result_pool st')]
       \<and> map (\<lambda>p. move_key (result_pool st' ! p))
             [length (result_pool st) ..< length (result_pool st')]
           = spec_moves_of_revision ra log_entry copies deleted_paths
       \<and> map move_key (take (length (result_pool st)) (result_pool st'))
           = map move_key (result_pool st)"
proof -
  note m = find_moves_in_revision_moves [OF assms]
  have k: "map move_key (result_pool st')
             = map move_key (result_pool st)
               @ spec_moves_of_revision ra log_entry copies deleted_paths"
    using m by (rule conjunct1)
  have "drop (length (result_pool st)) (map move_key (result_pool st'))
          = spec_moves_of_revision ra log_entry copies deleted_paths"
    unfolding k by simp
  then have a: "map (\<lambda>p. move_key (result_pool st' ! p))
                  [length (result_pool st) ..< length (result_pool st')]
                = spec_moves_of_revision ra log_entry copies deleted_paths"
    by (simp only: map_nth_upt_drop)
  have "take (length (result_pool st)) (map move_key (result_pool st'))
          = map move_key (result_pool st)"
    unfolding k by simp
  then have b: "map move_key (take (length (result_pool st)) (result_pool st'))
                  = map move_key (result_pool st)"
    by (simp only: take_map)
  show ?thesis
    using conjunct2 [OF m] a b by blast
qed

lemma sample_entry_scanned:
  "find_moves_in_revision sample_ra sample_entry sample_copies [''q'', ''b''] empty_scan
     = (None, sample_found)"
  by code_simp

lemma sample_entry_spec_moves:
  "spec_moves_of_revision sample_ra sample_entry sample_copies [''q'', ''b'']
     = [(''b'', ''x'', 6, Some ''jrandom'', 4), (''b'', ''z'', 6, Some ''jrandom'', 3)]"
  by code_simp

lemma find_moves_in_revision_records_verified_copies_example:
  "find_moves_in_revision sample_ra sample_entry sample_copies [''q'', ''b''] empty_scan
     = (None, sample_found)
   \<and> moves_in sample_found (revision sample_entry)
       = moves_in empty_scan (revision sample_entry)
         @ [length (result_pool empty_scan) ..< length (result_pool sample_found)]
   \<and> map (\<lambda>p. move_key (result_pool sample_found ! p))
         [length (result_pool empty_scan) ..< length (result_pool sample_found)]
       = [(''b'', ''x'', 6, Some ''jrandom'', 4), (''b'', ''z'', 6, Some ''jrandom'', 3)]"
proof -
  note t = find_moves_in_revision_records_verified_copies [OF sample_entry_scanned]
  have a: "moves_in sample_found (revision sample_entry)
             = moves_in empty_scan (revision sample_entry)
               @ [length (result_pool empty_scan) ..< length (result_pool sample_found)]"
    using t by (rule conjunct1)
  have "map (\<lambda>p. move_key (result_pool sample_found ! p))
          [length (result_pool empty_scan) ..< length (result_pool sample_found)]
        = spec_moves_of_revision sample_ra sample_entry sample_copies [''q'', ''b'']"
    using t by blast
  then have b: "map (\<lambda>p. move_key (result_pool sample_found ! p))
                  [length (result_pool empty_scan) ..< length (result_pool sample_found)]
                = [(''b'', ''x'', 6, Some ''jrandom'', 4), (''b'', ''z'', 6, Some ''jrandom'', 3)]"
    by (simp only: sample_entry_spec_moves)
  show ?thesis
    using sample_entry_scanned a b by blast
qed

lemma sample_anonymous_entry_verified:
  "spec_ancestry_verified sample_ra ''b'' 6 (sample_copy ''x'' ''b'' 4)"
  by code_simp

lemma sample_anonymous_entry_spec_moves:
  "spec_moves_of_revision sample_ra sample_anonymous_entry
     [(''b'', [sample_copy ''x'' ''b'' 4])] [''b'']
   = [(''b'', ''x'', 6, None, 4)]"
  by code_simp

lemma sample_anonymous_entry_collected:
  "changed_paths_loop sample_ra sample_anonymous_entry
     [(''/b'', \<lparr> log_action = CHR ''D'', log_copyfrom_path = None,
                  log_copyfrom_rev = SVN_INVALID_REVNUM, log_node_kind = svn_node_file \<rparr>),
      (''/x'', \<lparr> log_action = CHR ''A'', log_copyfrom_path = Some ''/b'',
                  log_copyfrom_rev = 4, log_node_kind = svn_node_file \<rparr>)]
     ([], [], False, sample_baton)
   = (None, ([(''b'', [sample_copy ''x'' ''b'' 4])], [''b''], False, sample_baton))"
  by code_simp

lemma sample_anonymous_entry_moves:
  "find_moves_in_revision sample_ra sample_anonymous_entry
     [(''b'', [sample_copy ''x'' ''b'' 4])] [''b''] empty_scan
   = (Some (Svn_error C_UNDEFINED_BEHAVIOUR []), empty_scan)"
  by code_simp

lemma sample_anonymous_entry_received:
  "find_deleted_rev sample_ra sample_anonymous_entry sample_baton
     = (Some (Svn_error C_UNDEFINED_BEHAVIOUR []), sample_baton)"
  by code_simp

text \<open>
  Claim C7 says that every ancestry-verified copy of a deleted path yields a move in
  \<open>moves_table\<close>.  The code does so on every scan that returns, but it reads
  \<open>author->data\<close> without a check after the ancestry check has succeeded and before the
  move is stored.  On the revision r6 of the sample history that moves \<open>b\<close> to \<open>x\<close> and
  has no \<open>svn:author\<close> property, the copy is ancestry-verified, the specification lists
  one move, and the code dereferences \<open>NULL\<close>: no move is stored.
\<close>

theorem find_moves_in_revision_without_author:
  "spec_ancestry_verified sample_ra ''b'' 6 (sample_copy ''x'' ''b'' 4)
   \<and> spec_moves_of_revision sample_ra sample_anonymous_entry
         [(''b'', [sample_copy ''x'' ''b'' 4])] [''b'']
       = [(''b'', ''x'', 6, None, 4)]
   \<and> find_moves_in_revision sample_ra sample_anonymous_entry
         [(''b'', [sample_copy ''x'' ''b'' 4])] [''b''] empty_scan
       = (Some (Svn_error C_UNDEFINED_BEHAVIOUR []), empty_scan)
   \<and> find_deleted_rev sample_ra sample_anonymous_entry sample_baton
       = (Some (Svn_error C_UNDEFINED_BEHAVIOUR []), sample_baton)
   \<and> moves_in (scan sample_baton) 6 = []"
  using sample_anonymous_entry_verified sample_anonymous_entry_spec_moves
        sample_anonymous_entry_moves sample_anonymous_entry_received
  by (simp add: sample_baton_def empty_scan_def moves_in_def hash_get_def)


section \<open>The revisions in the details of an incoming deletion\<close>

lemma find_added_rev_parent:
  "parent_repos_relpath (find_added_rev sk s b) = parent_repos_relpath b"
  by (simp add: find_added_rev_def split: option.splits)

lemma find_added_rev_no_parent:
  "parent_repos_relpath b = None
     \<Longrightarrow> baton_added_rev (find_added_rev sk s b)
         = (if segment_path s \<noteq> None then range_start s else baton_added_rev b)"
  by (simp add: find_added_rev_def split: option.splits)

lemma fold_find_added_rev:
  "parent_repos_relpath b = None
     \<Longrightarrow> baton_added_rev (fold (find_added_rev sk) segments b)
         = (case filter (\<lambda>s. segment_path s \<noteq> None) segments of
              [] \<Rightarrow> baton_added_rev b
            | s # ss \<Rightarrow> range_start (last (s # ss)))"
proof (induction segments arbitrary: b)
  case Nil
  then show ?case by simp
next
  case (Cons s segments)
  have p: "parent_repos_relpath (find_added_rev sk s b) = None"
    using Cons.prems by (simp add: find_added_rev_parent)
  show ?case
    using Cons.IH [OF p] find_added_rev_no_parent [OF Cons.prems, of sk s]
    by (simp split: list.splits)
qed

lemma walk_location_segments_added_rev:
  "baton_added_rev
     (walk_location_segments sk segments
        \<lparr> baton_added_rev = SVN_INVALID_REVNUM, baton_repos_relpath = None,
          parent_repos_relpath = None \<rparr>)
     = last_segment_start segments"
  by (simp add: walk_location_segments_def last_segment_start_def fold_find_added_rev
        split: list.splits)

lemma reverse_addition_details:
  assumes "get_incoming_delete_details_for_reverse_addition env old_repos_relpath old_rev new_rev
             = Inr details"
  shows "deleted_rev details = SVN_INVALID_REVNUM
         \<and> (\<exists>path segments. old_repos_relpath = Some path
               \<and> get_location_segments env path old_rev old_rev new_rev = Inr segments
               \<and> added_rev details = last_segment_start segments)"
  using assms
  by (auto simp add: get_incoming_delete_details_for_reverse_addition_def Let_def
        walk_location_segments_added_rev
        split: option.splits sum.splits if_splits)

lemma store_reverse_details_revisions:
  assumes "store_reverse_details conflict
             (get_incoming_delete_details_for_reverse_addition env old_repos_relpath old_rev new_rev)
             = (None, conflict')"
      and "tree_conflict_incoming_details conflict' = Some (Incoming_delete_details details)"
  shows "deleted_rev details = SVN_INVALID_REVNUM
         \<and> (\<exists>path segments. old_repos_relpath = Some path
               \<and> get_location_segments env path old_rev old_rev new_rev = Inr segments
               \<and> added_rev details = last_segment_start segments)"
proof (cases "get_incoming_delete_details_for_reverse_addition env old_repos_relpath old_rev new_rev")
  case (Inl e)
  then show ?thesis using assms(1) by (simp add: store_reverse_details_def)
next
  case (Inr d)
  then have "details = d"
    using assms by (auto simp add: store_reverse_details_def)
  then show ?thesis using reverse_addition_details [OF Inr] by simp
qed

lemma store_forward_details_revisions:
  assumes "tree_conflict_incoming_details conflict = None"
      and "tree_conflict_incoming_details (store_forward_details conflict new_repos_relpath found keep)
             = Some (Incoming_delete_details details)"
  shows "deleted_rev details \<noteq> SVN_INVALID_REVNUM \<and> added_rev details = SVN_INVALID_REVNUM"
  using assms
  by (auto simp add: store_forward_details_def split: prod.splits if_splits)

lemma details_forward:
  assumes run: "conflict_tree_get_details_incoming_delete env conflict = (None, conflict')"
      and fresh: "tree_conflict_incoming_details conflict = None"
      and stored: "tree_conflict_incoming_details conflict' = Some (Incoming_delete_details details)"
      and old: "svn_client_conflict_get_incoming_old_repos_location conflict
                  = Some (old_repos_relpath, old_rev, old_kind)"
      and new: "svn_client_conflict_get_incoming_new_repos_location conflict
                  = Some (new_repos_relpath, new_rev, new_kind)"
      and fwd: "old_rev < new_rev"
  shows "deleted_rev details \<noteq> SVN_INVALID_REVNUM \<and> added_rev details = SVN_INVALID_REVNUM"
proof -
  have "\<exists>found keep. conflict' = store_forward_details conflict new_repos_relpath found keep"
    using run fresh stored old new fwd
    by (auto simp add: conflict_tree_get_details_incoming_delete_def
          split: option.splits sum.splits if_splits) blast+
  then obtain found keep where
    "conflict' = store_forward_details conflict new_repos_relpath found keep"
    by blast
  then show ?thesis
    using store_forward_details_revisions [OF fresh, of new_repos_relpath found keep details] stored
    by simp
qed

lemma details_reverse:
  assumes run: "conflict_tree_get_details_incoming_delete env conflict = (None, conflict')"
      and stored: "tree_conflict_incoming_details conflict' = Some (Incoming_delete_details details)"
      and old: "svn_client_conflict_get_incoming_old_repos_location conflict
                  = Some (old_repos_relpath, old_rev, old_kind)"
      and new: "svn_client_conflict_get_incoming_new_repos_location conflict
                  = Some (new_repos_relpath, new_rev, new_kind)"
      and rev: "\<not> old_rev < new_rev"
  shows "deleted_rev details = SVN_INVALID_REVNUM
         \<and> (\<exists>path segments. old_repos_relpath = Some path
               \<and> get_location_segments env path old_rev old_rev new_rev = Inr segments
               \<and> added_rev details = last_segment_start segments)"
proof -
  have "store_reverse_details conflict
          (get_incoming_delete_details_for_reverse_addition env old_repos_relpath old_rev new_rev)
          = (None, conflict')"
    using run stored old new rev
    by (auto simp add: conflict_tree_get_details_incoming_delete_def
          split: option.splits if_splits)
  then show ?thesis
    using store_reverse_details_revisions stored by blast
qed


text \<open>
  Away from equal revisions the details are as the specification says.  Let
  \<open>conflict_tree_get_details_incoming_delete\<close> return without error on a conflict that had
  no details, and let it have stored a details record.  If \<open>old_rev < new_rev\<close>, then
  \<open>deleted_rev\<close> is valid and \<open>added_rev\<close> is the sentinel.  If \<open>new_rev < old_rev\<close>, then
  \<open>deleted_rev\<close> is the sentinel and \<open>added_rev\<close> is the start of the last location segment
  reported with a path, hence valid when the repository reports one with a valid start.
  If \<open>old_rev = new_rev\<close>, the record is built like that of an operation that went
  backwards.
\<close>

lemma incoming_delete_details_revisions:
  assumes run: "conflict_tree_get_details_incoming_delete env conflict = (None, conflict')"
      and fresh: "tree_conflict_incoming_details conflict = None"
      and stored: "tree_conflict_incoming_details conflict' = Some (Incoming_delete_details details)"
      and old: "svn_client_conflict_get_incoming_old_repos_location conflict
                  = Some (old_repos_relpath, old_rev, old_kind)"
      and new: "svn_client_conflict_get_incoming_new_repos_location conflict
                  = Some (new_repos_relpath, new_rev, new_kind)"
  shows "(old_rev < new_rev \<longrightarrow>
            spec_one_revision_valid details (spec_backwards old_rev new_rev))
       \<and> (\<not> old_rev < new_rev \<longrightarrow>
            deleted_rev details = SVN_INVALID_REVNUM
            \<and> (\<exists>path segments. old_repos_relpath = Some path
                  \<and> get_location_segments env path old_rev old_rev new_rev = Inr segments
                  \<and> added_rev details = last_segment_start segments))
       \<and> (new_rev < old_rev \<and> added_rev details \<noteq> SVN_INVALID_REVNUM \<longrightarrow>
            spec_one_revision_valid details (spec_backwards old_rev new_rev))"
proof (cases "old_rev < new_rev")
  case True
  have "deleted_rev details \<noteq> SVN_INVALID_REVNUM \<and> added_rev details = SVN_INVALID_REVNUM"
    using details_forward [OF run fresh stored old new True] .
  then show ?thesis
    using True by (simp add: spec_one_revision_valid_def spec_backwards_def)
next
  case False
  have "deleted_rev details = SVN_INVALID_REVNUM
        \<and> (\<exists>path segments. old_repos_relpath = Some path
              \<and> get_location_segments env path old_rev old_rev new_rev = Inr segments
              \<and> added_rev details = last_segment_start segments)"
    using details_reverse [OF run stored old new False] .
  then show ?thesis
    using False by (simp add: spec_one_revision_valid_def spec_backwards_def)
qed

lemma sample_update_details_run:
  "conflict_tree_get_details_incoming_delete sample_repos_env sample_update_conflict
     = (None, with_details sample_update_conflict sample_delete_details)"
  by code_simp

lemma sample_backward_details_run:
  "conflict_tree_get_details_incoming_delete sample_repos_env sample_backward_conflict
     = (None, with_details sample_backward_conflict (sample_reverse_details ''trunk/nu''))"
  by code_simp

lemma sample_switch_details_run:
  "conflict_tree_get_details_incoming_delete sample_repos_env sample_switch_conflict
     = (None, with_details sample_switch_conflict (sample_reverse_details ''branches/b1/mu''))"
  by code_simp

lemma with_details_stored:
  "tree_conflict_incoming_details (with_details conflict details)
     = Some (Incoming_delete_details details)"
  by (simp add: with_details_def)

text \<open>The records built for the update from r5 to r9 and for the update from r9 back to
  r5 are as the specification says.\<close>

lemma sample_details_as_specified:
  "spec_one_revision_valid sample_delete_details (spec_backwards 5 9)
   \<and> spec_one_revision_valid (sample_reverse_details ''trunk/nu'') (spec_backwards 9 5)"
  by (simp add: spec_one_revision_valid_def spec_backwards_def sample_delete_details_def
        sample_reverse_details_def SVN_INVALID_REVNUM_def)

text \<open>
  Claim C8 says that \<open>added_rev\<close> is the valid revision when the operation went backwards
  and \<open>deleted_rev\<close> otherwise.  The code tests \<open>old_rev < new_rev\<close> and treats everything
  else as an operation that went backwards in history (its comment on the branch reads
  \<open>new_rev < old_rev\<close>).  For the switch from \<open>branches/b1/mu@5\<close> to \<open>branches/b2/mu@5\<close>,
  which does not go backwards, it therefore builds the record of a reverse addition:
  \<open>added_rev\<close> is valid and \<open>deleted_rev\<close> is the sentinel.
\<close>

theorem incoming_delete_details_same_revision:
  "conflict_tree_get_details_incoming_delete sample_repos_env sample_switch_conflict
     = (None, with_details sample_switch_conflict (sample_reverse_details ''branches/b1/mu''))
   \<and> tree_conflict_incoming_details sample_switch_conflict = None
   \<and> tree_conflict_incoming_details
         (with_details sample_switch_conflict (sample_reverse_details ''branches/b1/mu''))
       = Some (Incoming_delete_details (sample_reverse_details ''branches/b1/mu''))
   \<and> svn_client_conflict_get_operation sample_switch_conflict = Some svn_wc_operation_switch
   \<and> svn_client_conflict_get_incoming_old_repos_location sample_switch_conflict
       = Some (Some ''branches/b1/mu'', 5, svn_node_file)
   \<and> svn_client_conflict_get_incoming_new_repos_location sample_switch_conflict
       = Some (Some ''branches/b2/mu'', 5, svn_node_none)
   \<and> spec_backwards 5 5 = False
   \<and> deleted_rev (sample_reverse_details ''branches/b1/mu'') = SVN_INVALID_REVNUM
   \<and> added_rev (sample_reverse_details ''branches/b1/mu'') = 3
   \<and> spec_one_revision_valid (sample_reverse_details ''branches/b1/mu'') (spec_backwards 5 5)
       = False"
proof -
  have a: "tree_conflict_incoming_details sample_switch_conflict = None"
    by code_simp
  have b: "svn_client_conflict_get_incoming_old_repos_location sample_switch_conflict
             = Some (Some ''branches/b1/mu'', 5, svn_node_file)"
    by code_simp
  have c: "svn_client_conflict_get_incoming_new_repos_location sample_switch_conflict
             = Some (Some ''branches/b2/mu'', 5, svn_node_none)"
    by code_simp
  have o: "svn_client_conflict_get_operation sample_switch_conflict = Some svn_wc_operation_switch"
    by code_simp
  have d: "spec_backwards 5 5 = False"
          "deleted_rev (sample_reverse_details ''branches/b1/mu'') = SVN_INVALID_REVNUM"
          "added_rev (sample_reverse_details ''branches/b1/mu'') = 3"
          "spec_one_revision_valid (sample_reverse_details ''branches/b1/mu'') (spec_backwards 5 5)
             = False"
    by (simp_all add: spec_one_revision_valid_def spec_backwards_def sample_reverse_details_def
          SVN_INVALID_REVNUM_def)
  show ?thesis
    using sample_switch_details_run with_details_stored a b c o d by blast
qed


end
